(* ===== verification/Prelude.thy ===== *)
theory Prelude imports Main "HOL-Library.Word" "HOL-Library.Sublist" begin

text \<open>
  What every component shares: machine words, Rust's \<open>Result\<close> with panics as a third outcome,
  computations over an explicit world, a weakest-precondition calculus for them, and the parts
  of Rust's standard library the program uses (big-endian integers, trimming and splitting at
  white space, decimal printing and parsing).

  A Rust \<open>String\<close> is a \<^typ>\<open>string\<close> here: the list of its UTF-8 bytes, so \<open>length\<close> is
  Rust's \<open>len()\<close>.  Log lines (\<open>debug!\<close>, \<open>warn!\<close>, \<dots>) are left out everywhere.
\<close>

named_theorems wp_simps \<open>weakest preconditions of the combinators and of the model's operations\<close>

unbundle bit_operations_syntax

section \<open>Words\<close>

type_synonym u8 = "8 word"
type_synonym u16 = "16 word"
type_synonym u32 = "32 word"
type_synonym byte = "8 word"

text \<open>Rust's \<open>checked_add\<close> on \<open>u32\<close>, and \<open>saturating_add\<close>.\<close>

definition checked_add32 :: "u32 \<Rightarrow> u32 \<Rightarrow> u32 option" where
  "checked_add32 a b = (if unat a + unat b < 2 ^ 32 then Some (a + b) else None)"

definition saturating_add32 :: "u32 \<Rightarrow> u32 \<Rightarrow> u32" where
  "saturating_add32 a b = (if unat a + unat b < 2 ^ 32 then a + b else - 1)"

lemma unat_add32: "unat a + unat b < 2 ^ 32 \<Longrightarrow> unat (a + b :: u32) = unat a + unat b"
  by (simp add: unat_word_ariths)

lemma unat_saturating_add32: "unat (saturating_add32 a b) = min (unat a + unat b) (2 ^ 32 - 1)"
proof (cases "unat a + unat b < 2 ^ 32")
  case True
  then show ?thesis by (simp add: saturating_add32_def unat_add32)
next
  case False
  then show ?thesis
    by (simp add: saturating_add32_def unsigned_minus_1_eq_mask mask_eq_exp_minus_1)
qed

text \<open>The two readings of a 32-bit value agree below \<open>2 ^ 31\<close>.\<close>

lemma unat_lt32: "unat (x :: u32) < 2 ^ 32"
  using unsigned_less [of x, where ?'a = nat] by simp

lemma int_unat_lt32: "int (unat (x :: u32)) < 2 ^ 32"
  by (metis of_nat_less_iff of_nat_numeral of_nat_power unat_lt32)

lemma bit_31_iff: "bit (x :: u32) 31 \<longleftrightarrow> \<not> unat x < 2 ^ 31"
proof -
  have "bit x 31 \<longleftrightarrow> odd (unat x div 2 ^ 31)"
    using bit_unsigned_iff [of x 31, where ?'a = nat] by (simp add: bit_iff_odd)
  also have "\<dots> \<longleftrightarrow> \<not> unat x < 2 ^ 31"
  proof (cases "unat x < 2 ^ 31")
    case False
    then have "unat x div 2 ^ 31 = 1" using unat_lt32 [of x] by (simp add: div_nat_eqI)
    then show ?thesis using False by simp
  qed simp
  finally show ?thesis .
qed

lemma sint_nat:
  fixes x :: u32
  shows "sint x = (if unat x < 2 ^ 31 then int (unat x) else int (unat x) - 2 ^ 32)"
  using bit_31_iff [of x] unsigned_less [of x, where ?'a = int]
  by (simp add: sint_uint signed_take_bit_eq_take_bit_minus bit_uint_iff take_bit_eq_mod)

lemma sint_le_iff:
  fixes x y :: u32
  shows "unat x < 2 ^ 31 \<Longrightarrow> unat y < 2 ^ 31 \<Longrightarrow> sint x \<le> sint y \<longleftrightarrow> unat x \<le> unat y"
  by (simp only: sint_nat if_True zle_int)

lemma zero_less_sint_iff:
  fixes x :: u32
  shows "0 < sint x \<longleftrightarrow> 0 < unat x \<and> unat x < 2 ^ 31"
proof (cases "unat x < 2 ^ 31")
  case True
  then have "0 < sint x \<longleftrightarrow> 0 < int (unat x)" by (simp only: sint_nat if_True)
  then show ?thesis using True by (simp only: of_nat_0_less_iff) simp
next
  case False
  then have "sint x = int (unat x) - 2 ^ 32" by (simp only: sint_nat if_False)
  then show ?thesis using False int_unat_lt32 [of x] by linarith
qed

lemma sint_less_0_iff:
  fixes x :: u32
  shows "sint x < 0 \<longleftrightarrow> \<not> unat x < 2 ^ 31"
proof (cases "unat x < 2 ^ 31")
  case True
  then have "sint x = int (unat x)" by (simp only: sint_nat if_True)
  then show ?thesis using True by linarith
next
  case False
  then have "sint x = int (unat x) - 2 ^ 32" by (simp only: sint_nat if_False)
  then show ?thesis using False int_unat_lt32 [of x] by linarith
qed

section \<open>Results and computations\<close>

datatype ('a, 'e) res = Ok 'a | Err 'e | Panic string

text \<open>
  A computation runs in a world \<^typ>\<open>'w\<close> (TPM, files, terminal) and ends with a result and
  the next world.  A panic unwinds: no later step runs.
\<close>

type_synonym ('w, 'a, 'e) eff = "'w \<Rightarrow> ('a, 'e) res \<times> 'w"

definition ok :: "'a \<Rightarrow> ('w, 'a, 'e) eff" where
  "ok x w = (Ok x, w)"

definition err :: "'e \<Rightarrow> ('w, 'a, 'e) eff" where
  "err e w = (Err e, w)"

definition panic :: "string \<Rightarrow> ('w, 'a, 'e) eff" where
  "panic s w = (Panic s, w)"

text \<open>A pure result inside a computation, and a step that only changes the world.\<close>

definition pure :: "('a, 'e) res \<Rightarrow> ('w, 'a, 'e) eff" where
  "pure r w = (r, w)"

definition act :: "('w \<Rightarrow> 'w) \<Rightarrow> ('w, unit, 'e) eff" where
  "act f w = (Ok (), f w)"

text \<open>\<open>let x = m?; k(x)\<close>.\<close>

definition andThen :: "('w, 'a, 'e) eff \<Rightarrow> ('a \<Rightarrow> ('w, 'b, 'e) eff) \<Rightarrow> ('w, 'b, 'e) eff" where
  "andThen m k w =
     (case m w of
        (Ok x, w') \<Rightarrow> k x w'
      | (Err e, w') \<Rightarrow> (Err e, w')
      | (Panic s, w') \<Rightarrow> (Panic s, w'))"

text \<open>\<open>match m { Ok(x) => k(x), Err(e) => h(e) }\<close>.\<close>

definition matchRes ::
  "('w, 'a, 'e) eff \<Rightarrow> ('a \<Rightarrow> ('w, 'b, 'f) eff) \<Rightarrow> ('e \<Rightarrow> ('w, 'b, 'f) eff) \<Rightarrow> ('w, 'b, 'f) eff"
where
  "matchRes m k h w =
     (case m w of
        (Ok x, w') \<Rightarrow> k x w'
      | (Err e, w') \<Rightarrow> h e w'
      | (Panic s, w') \<Rightarrow> (Panic s, w'))"

text \<open>\<open>m.map_err(f)\<close>.\<close>

definition mapErr :: "('e \<Rightarrow> 'f) \<Rightarrow> ('w, 'a, 'e) eff \<Rightarrow> ('w, 'a, 'f) eff" where
  "mapErr f m = matchRes m ok (\<lambda>e. err (f e))"

text \<open>\<open>let _ = m;\<close>: the result is dropped, a panic is not.\<close>

definition ignore :: "('w, 'a, 'e) eff \<Rightarrow> ('w, unit, 'f) eff" where
  "ignore m = matchRes m (\<lambda>_. ok ()) (\<lambda>_. ok ())"

text \<open>\<open>a - b\<close> on \<open>u32\<close>: built with overflow checks it panics below zero, without
  them it wraps.\<close>

definition sub_u32 :: "bool \<Rightarrow> u32 \<Rightarrow> u32 \<Rightarrow> ('w, u32, 'e) eff" where
  "sub_u32 overflow_checks a b =
     (if overflow_checks \<and> a < b then panic ''attempt to subtract with overflow'' else ok (a - b))"

section \<open>Weakest preconditions\<close>

definition wp :: "('w, 'a, 'e) eff \<Rightarrow> (('a, 'e) res \<Rightarrow> 'w \<Rightarrow> bool) \<Rightarrow> 'w \<Rightarrow> bool" where
  "wp m Q w = (case m w of (r, w') \<Rightarrow> Q r w')"

lemma wpI: "(\<And>r w'. m w = (r, w') \<Longrightarrow> Q r w') \<Longrightarrow> wp m Q w"
  by (auto simp: wp_def split: prod.splits)

lemma wpD: "wp m Q w \<Longrightarrow> m w = (r, w') \<Longrightarrow> Q r w'"
  by (simp add: wp_def)

lemma wp_fst_snd: "wp m Q w \<longleftrightarrow> Q (fst (m w)) (snd (m w))"
  by (simp add: wp_def split: prod.splits)

lemma wp_mono: "wp m P w \<Longrightarrow> (\<And>r w'. P r w' \<Longrightarrow> Q r w') \<Longrightarrow> wp m Q w"
  by (auto simp: wp_def split: prod.splits)

lemma wp_conj: "wp m P w \<Longrightarrow> wp m Q w \<Longrightarrow> wp m (\<lambda>r w'. P r w' \<and> Q r w') w"
  by (auto simp: wp_def split: prod.splits)

lemma wp_ok [wp_simps]: "wp (ok x) Q w = Q (Ok x) w"
  by (simp add: wp_def ok_def)

lemma wp_err [wp_simps]: "wp (err e) Q w = Q (Err e) w"
  by (simp add: wp_def err_def)

lemma wp_panic [wp_simps]: "wp (panic s) Q w = Q (Panic s) w"
  by (simp add: wp_def panic_def)

lemma wp_pure [wp_simps]: "wp (pure r) Q w = Q r w"
  by (simp add: wp_def pure_def)

lemma wp_act [wp_simps]: "wp (act f) Q w = Q (Ok ()) (f w)"
  by (simp add: wp_def act_def)

lemma wp_matchRes [wp_simps]:
  "wp (matchRes m k h) Q w =
     wp m (\<lambda>r w'. (\<forall>x. r = Ok x \<longrightarrow> wp (k x) Q w') \<and> (\<forall>e. r = Err e \<longrightarrow> wp (h e) Q w') \<and>
       (\<forall>s. r = Panic s \<longrightarrow> Q (Panic s) w')) w"
  by (auto simp: wp_def matchRes_def split: prod.splits res.splits)

lemma wp_andThen [wp_simps]:
  "wp (andThen m k) Q w =
     wp m (\<lambda>r w'. (\<forall>x. r = Ok x \<longrightarrow> wp (k x) Q w') \<and> (\<forall>e. r = Err e \<longrightarrow> Q (Err e) w') \<and>
       (\<forall>s. r = Panic s \<longrightarrow> Q (Panic s) w')) w"
  by (auto simp: wp_def andThen_def split: prod.splits res.splits)

lemma wp_mapErr [wp_simps]:
  "wp (mapErr f m) Q w =
     wp m (\<lambda>r w'. (\<forall>x. r = Ok x \<longrightarrow> Q (Ok x) w') \<and> (\<forall>e. r = Err e \<longrightarrow> Q (Err (f e)) w') \<and>
       (\<forall>s. r = Panic s \<longrightarrow> Q (Panic s) w')) w"
  by (simp add: mapErr_def wp_simps)

lemma wp_ignore [wp_simps]:
  "wp (ignore m) Q w =
     wp m (\<lambda>r w'. (\<forall>s. r = Panic s \<longrightarrow> Q (Panic s) w') \<and> ((\<forall>s. r \<noteq> Panic s) \<longrightarrow> Q (Ok ()) w')) w"
  by (auto simp: ignore_def wp_def matchRes_def ok_def split: prod.splits res.splits)

lemma wp_if [wp_simps]: "wp (if b then m else n) Q w = (if b then wp m Q w else wp n Q w)"
  by simp

lemma wp_Let [wp_simps]: "wp (Let x f) Q w = wp (f x) Q w"
  by simp

lemma wp_case_option [wp_simps]:
  "wp (case x of None \<Rightarrow> m | Some y \<Rightarrow> n y) Q w =
     (case x of None \<Rightarrow> wp m Q w | Some y \<Rightarrow> wp (n y) Q w)"
  by (simp split: option.splits)

lemma wp_case_prod [wp_simps]: "wp (case x of (a, b) \<Rightarrow> m a b) Q w = wp (m (fst x) (snd x)) Q w"
  by (simp split: prod.splits)

section \<open>Running computations\<close>

text \<open>How a run of a combinator splits into runs of its parts.\<close>

named_theorems run_simps \<open>runs of the basic computations\<close>

lemma ok_run [run_simps]: "ok x w = (r, w') \<longleftrightarrow> r = Ok x \<and> w' = w"
  by (auto simp: ok_def)

lemma err_run [run_simps]: "err e w = (r, w') \<longleftrightarrow> r = Err e \<and> w' = w"
  by (auto simp: err_def)

lemma panic_run [run_simps]: "panic s w = (r, w') \<longleftrightarrow> r = Panic s \<and> w' = w"
  by (auto simp: panic_def)

lemma pure_run [run_simps]: "pure x w = (r, w') \<longleftrightarrow> r = x \<and> w' = w"
  by (auto simp: pure_def)

lemma act_run [run_simps]: "act f w = (r, w') \<longleftrightarrow> r = Ok () \<and> w' = f w"
  by (auto simp: act_def)

lemma andThenE:
  assumes "andThen m k w = (r, w')"
  obtains (Ok) x w1 where "m w = (Ok x, w1)" "k x w1 = (r, w')"
    | (Err) e where "m w = (Err e, w')" "r = Err e"
    | (Panic) s where "m w = (Panic s, w')" "r = Panic s"
  using assms by (auto simp: andThen_def split: prod.splits res.splits)

lemma matchResE:
  assumes "matchRes m k h w = (r, w')"
  obtains (Ok) x w1 where "m w = (Ok x, w1)" "k x w1 = (r, w')"
    | (Err) e w1 where "m w = (Err e, w1)" "h e w1 = (r, w')"
    | (Panic) s where "m w = (Panic s, w')" "r = Panic s"
  using assms by (auto simp: matchRes_def split: prod.splits res.splits)

lemma mapErrE:
  assumes "mapErr f m w = (r, w')"
  obtains (Ok) x where "m w = (Ok x, w')" "r = Ok x"
    | (Err) e where "m w = (Err e, w')" "r = Err (f e)"
    | (Panic) s where "m w = (Panic s, w')" "r = Panic s"
  using assms unfolding mapErr_def by (elim matchResE) (auto simp: run_simps)

lemmas run_elims = andThenE matchResE mapErrE

lemma andThen_Ok: "m w = (Ok x, w') \<Longrightarrow> andThen m k w = k x w'"
  by (simp add: andThen_def)

lemma andThen_Err: "m w = (Err e, w') \<Longrightarrow> andThen m k w = (Err e, w')"
  by (simp add: andThen_def)

lemma matchRes_Ok: "m w = (Ok x, w') \<Longrightarrow> matchRes m k h w = k x w'"
  by (simp add: matchRes_def)

lemma matchRes_Err: "m w = (Err e, w') \<Longrightarrow> matchRes m k h w = h e w'"
  by (simp add: matchRes_def)

lemma mapErr_Ok: "m w = (Ok x, w') \<Longrightarrow> mapErr f m w = (Ok x, w')"
  by (simp add: mapErr_def matchRes_def ok_def)

lemma mapErr_Err: "m w = (Err e, w') \<Longrightarrow> mapErr f m w = (Err (f e), w')"
  by (simp add: mapErr_def matchRes_def err_def)

section \<open>What a computation may do to the world\<close>

text \<open>
  \<open>evolves obs E m\<close>: whatever \<open>m\<close> returns, the part \<open>obs\<close> of the world moves along
  \<open>E\<close>.  For a preorder \<open>E\<close> this is closed under the combinators, which is the interface
  below; equality (nothing changes) and the relations of the components are its instances.
\<close>

definition evolves :: "('w \<Rightarrow> 'n) \<Rightarrow> ('n \<Rightarrow> 'n \<Rightarrow> bool) \<Rightarrow> ('w, 'a, 'e) eff \<Rightarrow> bool" where
  "evolves obs E m \<longleftrightarrow> (\<forall>w. E (obs w) (obs (snd (m w))))"

lemma evolvesI: "(\<And>w. wp m (\<lambda>r w'. E (obs w) (obs w')) w) \<Longrightarrow> evolves obs E m"
  by (simp add: evolves_def wp_fst_snd)

lemma evolvesD: "evolves obs E m \<Longrightarrow> m w = (r, w') \<Longrightarrow> E (obs w) (obs w')"
  by (metis evolves_def snd_conv)

lemma evolves_wp: "evolves obs E m \<Longrightarrow> wp m (\<lambda>r w'. E (obs w) (obs w')) w"
  by (simp add: evolves_def wp_fst_snd)

lemma evolves_mono: "evolves obs E m \<Longrightarrow> (\<And>x y. E x y \<Longrightarrow> F x y) \<Longrightarrow> evolves obs F m"
  by (simp add: evolves_def)

lemma evolves_act: "evolves obs E (act f) \<longleftrightarrow> (\<forall>w. E (obs w) (obs (f w)))"
  by (simp add: evolves_def act_def)

locale world_preorder =
  fixes E :: "'n \<Rightarrow> 'n \<Rightarrow> bool"
  assumes refl: "E x x" and trans: "E x y \<Longrightarrow> E y z \<Longrightarrow> E x z"
begin

lemma ok_evolves: "evolves obs E (ok x)"
  by (simp add: evolves_def ok_def refl)

lemma err_evolves: "evolves obs E (err e)"
  by (simp add: evolves_def err_def refl)

lemma panic_evolves: "evolves obs E (panic s)"
  by (simp add: evolves_def panic_def refl)

lemma pure_evolves: "evolves obs E (pure r)"
  by (simp add: evolves_def pure_def refl)

lemma andThen_evolves:
  assumes "evolves obs E m" "\<And>x. evolves obs E (k x)"
  shows "evolves obs E (andThen m k)"
proof (rule evolvesI, rule wpI)
  fix w r w' assume *: "andThen m k w = (r, w')"
  obtain r1 w1 where m: "m w = (r1, w1)" by fastforce
  then have "E (obs w) (obs w1)" using assms(1) by (rule evolvesD [rotated])
  moreover have "E (obs w1) (obs w')"
    using * m assms(2) [THEN evolvesD] refl by (cases r1) (auto simp: andThen_def)
  ultimately show "E (obs w) (obs w')" by (rule trans)
qed

text \<open>The rest need only be considered on the results the first part can have.\<close>

lemma andThen_evolves_run:
  assumes "evolves obs E m" "\<And>x w w1. m w = (Ok x, w1) \<Longrightarrow> evolves obs E (k x)"
  shows "evolves obs E (andThen m k)"
proof (rule evolvesI, rule wpI)
  fix w r w' assume *: "andThen m k w = (r, w')"
  obtain r1 w1 where m: "m w = (r1, w1)" by fastforce
  then have "E (obs w) (obs w1)" using assms(1) by (rule evolvesD [rotated])
  moreover have "E (obs w1) (obs w')"
    using * m refl by (cases r1) (auto simp: andThen_def dest: evolvesD [OF assms(2)])
  ultimately show "E (obs w) (obs w')" by (rule trans)
qed

lemma matchRes_evolves:
  assumes "evolves obs E m" "\<And>x. evolves obs E (k x)" "\<And>e. evolves obs E (h e)"
  shows "evolves obs E (matchRes m k h)"
proof (rule evolvesI, rule wpI)
  fix w r w' assume *: "matchRes m k h w = (r, w')"
  obtain r1 w1 where m: "m w = (r1, w1)" by fastforce
  then have "E (obs w) (obs w1)" using assms(1) by (rule evolvesD [rotated])
  moreover have "E (obs w1) (obs w')"
    using * m assms(2,3) [THEN evolvesD] refl by (cases r1) (auto simp: matchRes_def)
  ultimately show "E (obs w) (obs w')" by (rule trans)
qed

lemma mapErr_evolves: "evolves obs E m \<Longrightarrow> evolves obs E (mapErr f m)"
  unfolding mapErr_def by (intro matchRes_evolves ok_evolves err_evolves)

lemma ignore_evolves: "evolves obs E m \<Longrightarrow> evolves obs E (ignore m)"
  unfolding ignore_def by (intro matchRes_evolves ok_evolves)

lemmas evolves_intros =
  ok_evolves err_evolves panic_evolves pure_evolves andThen_evolves matchRes_evolves
  mapErr_evolves ignore_evolves

lemma if_evolves:
  "(b \<Longrightarrow> evolves obs E m) \<Longrightarrow> (\<not> b \<Longrightarrow> evolves obs E n) \<Longrightarrow> evolves obs E (if b then m else n)"
  by simp

lemma option_evolves:
  "(x = None \<Longrightarrow> evolves obs E m) \<Longrightarrow> (\<And>y. x = Some y \<Longrightarrow> evolves obs E (n y)) \<Longrightarrow>
     evolves obs E (case x of None \<Rightarrow> m | Some y \<Rightarrow> n y)"
  by (cases x) simp_all

lemma sum_evolves:
  "(\<And>y. x = Inl y \<Longrightarrow> evolves obs E (m y)) \<Longrightarrow> (\<And>y. x = Inr y \<Longrightarrow> evolves obs E (n y)) \<Longrightarrow>
     evolves obs E (case x of Inl y \<Rightarrow> m y | Inr y \<Rightarrow> n y)"
  by (cases x) simp_all

lemma prod_evolves:
  "(\<And>a b. x = (a, b) \<Longrightarrow> evolves obs E (m a b)) \<Longrightarrow> evolves obs E (case x of (a, b) \<Rightarrow> m a b)"
  by (cases x) simp

lemma res_evolves:
  "(\<And>y. x = Ok y \<Longrightarrow> evolves obs E (m y)) \<Longrightarrow> (\<And>y. x = Err y \<Longrightarrow> evolves obs E (n y)) \<Longrightarrow>
     (\<And>s. x = Panic s \<Longrightarrow> evolves obs E (k s)) \<Longrightarrow>
     evolves obs E (case x of Ok y \<Rightarrow> m y | Err y \<Rightarrow> n y | Panic s \<Rightarrow> k s)"
  by (cases x) simp_all

lemma Let_evolves: "evolves obs E (f x) \<Longrightarrow> evolves obs E (Let x f)"
  by simp

lemma sub_u32_evolves: "evolves obs E (sub_u32 checks a b)"
  unfolding sub_u32_def by (intro if_evolves panic_evolves ok_evolves)

lemmas branch_evolves =
  if_evolves option_evolves sum_evolves prod_evolves res_evolves Let_evolves sub_u32_evolves

lemma equal_evolves: "evolves obs (=) m \<Longrightarrow> evolves obs E m"
  by (erule evolves_mono) (auto intro: refl)

end

interpretation unchanged: world_preorder "(=)"
  by unfold_locales auto

section \<open>Round trips\<close>

text \<open>
  The interface of an encoder and its decoder: decoding gives an encoded value back.  A strict
  codec also decodes nothing but encodings.
\<close>

locale codec =
  fixes enc :: "'a \<Rightarrow> 'b" and dec :: "'b \<Rightarrow> 'a option" and valid :: "'a \<Rightarrow> bool"
  assumes dec_enc: "valid x \<Longrightarrow> dec (enc x) = Some x"
begin

lemma enc_eq_iff: "valid x \<Longrightarrow> valid y \<Longrightarrow> enc x = enc y \<longleftrightarrow> x = y"
  by (metis dec_enc option.inject)

lemma enc_inj_on: "inj_on enc {x. valid x}"
  by (auto intro: inj_onI simp: enc_eq_iff)

end

locale strict_codec = codec +
  assumes enc_dec: "dec y = Some x \<Longrightarrow> enc x = y"
begin

lemma dec_Some_iff: "valid x \<Longrightarrow> dec y = Some x \<longleftrightarrow> y = enc x"
  using dec_enc enc_dec by blast

lemma dec_inj: "dec y = Some x \<Longrightarrow> dec z = Some x \<Longrightarrow> y = z"
  using enc_dec by blast

end

section \<open>Big-endian integers\<close>

text \<open>\<open>i32::to_be_bytes\<close> and \<open>i32::from_be_bytes\<close>; the array conversion before the
  latter fails on any other length than four.\<close>

definition to_be_bytes :: "u32 \<Rightarrow> byte list" where
  "to_be_bytes x = [ucast (drop_bit 24 x), ucast (drop_bit 16 x), ucast (drop_bit 8 x), ucast x]"

definition join_be :: "byte \<Rightarrow> byte \<Rightarrow> byte \<Rightarrow> byte \<Rightarrow> u32" where
  "join_be a b c d =
     push_bit 24 (ucast a) OR push_bit 16 (ucast b) OR push_bit 8 (ucast c) OR ucast d"

fun from_be_bytes :: "byte list \<Rightarrow> u32 option" where
  "from_be_bytes [a, b, c, d] = Some (join_be a b c d)"
| "from_be_bytes _ = None"

lemma length_to_be_bytes [simp]: "length (to_be_bytes x) = 4"
  by (simp add: to_be_bytes_def)

lemma from_to_be_bytes [simp]: "from_be_bytes (to_be_bytes x) = Some x"
proof -
  have "join_be (ucast (drop_bit 24 x)) (ucast (drop_bit 16 x)) (ucast (drop_bit 8 x)) (ucast x) = x"
  proof (rule bit_word_eqI)
    fix n assume "n < LENGTH(32)"
    then consider "n < 8" | "8 \<le> n" "n < 16" | "16 \<le> n" "n < 24" | "24 \<le> n" "n < 32"
      by force
    then show "bit (join_be (ucast (drop_bit 24 x)) (ucast (drop_bit 16 x)) (ucast (drop_bit 8 x))
        (ucast x)) n = bit x n"
      by cases (auto simp: join_be_def bit_simps)
  qed
  then show ?thesis by (simp add: to_be_bytes_def)
qed

lemma to_from_be_bytes: "from_be_bytes bs = Some x \<Longrightarrow> to_be_bytes x = bs"
proof (induction bs rule: from_be_bytes.induct)
  case (1 a b c d)
  have "ucast (drop_bit 24 (join_be a b c d)) = a" "ucast (drop_bit 16 (join_be a b c d)) = b"
    "ucast (drop_bit 8 (join_be a b c d)) = c" "ucast (join_be a b c d) = d"
    by (rule bit_word_eqI, auto simp: join_be_def bit_simps dest: bit_imp_le_length)+
  with 1 show ?case by (auto simp: to_be_bytes_def)
qed simp_all

interpretation be32: strict_codec to_be_bytes from_be_bytes "\<lambda>_. True"
  by unfold_locales (simp_all add: to_from_be_bytes)

end
