(* ===== verification/RustStrings.thy ===== *)
theory RustStrings imports Prelude begin

text \<open>
  Rust's \<open>str\<close> operations on UTF-8 bytes: \<open>trim\<close>, \<open>trim_start_matches\<close>,
  \<open>split_whitespace\<close>, \<open>split_once\<close>, and decimal \<open>parse\<close> and printing of
  unsigned integers.  White space is Unicode's \<open>White_Space\<close>, as UTF-8 encodings; on valid
  UTF-8 an encoding occurs only where its character does.
\<close>

section \<open>White space\<close>

definition ws_chars :: "string list" where
  "ws_chars =
     [[CHR 0x09], [CHR 0x0A], [CHR 0x0B], [CHR 0x0C], [CHR 0x0D], [CHR 0x20],
      [CHR 0xC2, CHR 0x85], [CHR 0xC2, CHR 0xA0], [CHR 0xE1, CHR 0x9A, CHR 0x80],
      [CHR 0xE2, CHR 0x80, CHR 0x80], [CHR 0xE2, CHR 0x80, CHR 0x81],
      [CHR 0xE2, CHR 0x80, CHR 0x82], [CHR 0xE2, CHR 0x80, CHR 0x83],
      [CHR 0xE2, CHR 0x80, CHR 0x84], [CHR 0xE2, CHR 0x80, CHR 0x85],
      [CHR 0xE2, CHR 0x80, CHR 0x86], [CHR 0xE2, CHR 0x80, CHR 0x87],
      [CHR 0xE2, CHR 0x80, CHR 0x88], [CHR 0xE2, CHR 0x80, CHR 0x89],
      [CHR 0xE2, CHR 0x80, CHR 0x8A], [CHR 0xE2, CHR 0x80, CHR 0xA8],
      [CHR 0xE2, CHR 0x80, CHR 0xA9], [CHR 0xE2, CHR 0x80, CHR 0xAF],
      [CHR 0xE2, CHR 0x81, CHR 0x9F], [CHR 0xE3, CHR 0x80, CHR 0x80]]"

text \<open>The length of a white-space character for which the test holds, 0 when there is none.\<close>

definition ws_hit :: "(string \<Rightarrow> bool) \<Rightarrow> nat" where
  "ws_hit f = (case find f ws_chars of None \<Rightarrow> 0 | Some p \<Rightarrow> length p)"

lemma ws_chars_nonempty: "p \<in> set ws_chars \<Longrightarrow> p \<noteq> []"
  by (auto simp: ws_chars_def)

lemma ws_hit_0: "ws_hit f = 0 \<longleftrightarrow> (\<forall>p \<in> set ws_chars. \<not> f p)"
proof (cases "find f ws_chars")
  case None
  then have "\<forall>p \<in> set ws_chars. \<not> f p" by (auto simp: find_None_iff)
  then show ?thesis by (simp add: ws_hit_def None)
next
  case (Some p)
  then have "p \<in> set ws_chars" "f p" by (auto simp: find_Some_iff)
  then show ?thesis using ws_chars_nonempty by (auto simp: ws_hit_def Some)
qed

lemma ws_hit_pos: "ws_hit f \<noteq> 0 \<Longrightarrow> \<exists>p \<in> set ws_chars. f p \<and> length p = ws_hit f"
proof (cases "find f ws_chars")
  case (Some p)
  then have "p \<in> set ws_chars" "f p" by (auto simp: find_Some_iff)
  then show ?thesis by (auto simp: ws_hit_def Some)
qed (simp add: ws_hit_def)

definition ws_front :: "string \<Rightarrow> nat" where
  "ws_front s = ws_hit (\<lambda>p. prefix p s)"

definition ws_back :: "string \<Rightarrow> nat" where
  "ws_back s = ws_hit (\<lambda>p. suffix p s)"

lemma ws_front_le: "ws_front s \<le> length s"
  using ws_hit_pos [of "\<lambda>p. prefix p s"] prefix_length_le by (fastforce simp: ws_front_def)

lemma ws_back_le: "ws_back s \<le> length s"
  using ws_hit_pos [of "\<lambda>p. suffix p s"] suffix_length_le by (fastforce simp: ws_back_def)

section \<open>Trimming\<close>

function trim_start :: "string \<Rightarrow> string" where
  "trim_start s = (if ws_front s = 0 then s else trim_start (drop (ws_front s) s))"
  by pat_completeness auto
termination
proof (relation "measure length", goal_cases)
  case (2 s)
  then show ?case using ws_front_le [of s] by simp
qed simp

function trim_end :: "string \<Rightarrow> string" where
  "trim_end s = (if ws_back s = 0 then s else trim_end (take (length s - ws_back s) s))"
  by pat_completeness auto
termination
proof (relation "measure length", goal_cases)
  case (2 s)
  then show ?case using ws_back_le [of s] by simp
qed simp

declare trim_start.simps [simp del] trim_end.simps [simp del]

definition trim :: "string \<Rightarrow> string" where
  "trim s = trim_end (trim_start s)"

text \<open>\<open>trim_start_matches\<close> with one ASCII character.\<close>

definition trim_start_matches :: "char \<Rightarrow> string \<Rightarrow> string" where
  "trim_start_matches c s = dropWhile (\<lambda>x. x = c) s"

lemma ws_front_trim_start: "ws_front (trim_start s) = 0"
  by (induction s rule: trim_start.induct) (subst trim_start.simps, simp)

lemma ws_back_trim_end: "ws_back (trim_end s) = 0"
  by (induction s rule: trim_end.induct) (subst trim_end.simps, simp)

lemma trim_start_id: "ws_front s = 0 \<Longrightarrow> trim_start s = s"
  by (subst trim_start.simps) simp

lemma trim_end_id: "ws_back s = 0 \<Longrightarrow> trim_end s = s"
  by (subst trim_end.simps) simp

lemma suffix_trim_start: "suffix (trim_start s) s"
proof (induction s rule: trim_start.induct)
  case (1 s)
  then show ?case
    by (subst trim_start.simps) (auto intro: suffix_order.order_trans suffix_drop)
qed

lemma prefix_trim_end: "prefix (trim_end s) s"
proof (induction s rule: trim_end.induct)
  case (1 s)
  then show ?case
    by (subst trim_end.simps) (auto intro: prefix_order.order_trans take_is_prefix)
qed

text \<open>Trimming the end uncovers no white space at the front.\<close>

lemma ws_front_prefix: "prefix t s \<Longrightarrow> ws_front s = 0 \<Longrightarrow> ws_front t = 0"
  unfolding ws_front_def ws_hit_0 using prefix_order.order_trans by blast

lemma ws_front_trim: "ws_front (trim s) = 0"
  unfolding trim_def using prefix_trim_end ws_front_trim_start by (rule ws_front_prefix)

lemma ws_back_trim: "ws_back (trim s) = 0"
  by (simp add: trim_def ws_back_trim_end)

lemma trim_id: "ws_front s = 0 \<Longrightarrow> ws_back s = 0 \<Longrightarrow> trim s = s"
  by (simp add: trim_def trim_start_id trim_end_id)

lemma trim_trim [simp]: "trim (trim s) = trim s"
  by (rule trim_id) (rule ws_front_trim ws_back_trim)+

lemma sublist_trim: "sublist (trim s) s"
  unfolding trim_def
  using prefix_trim_end suffix_trim_start
  by (meson prefix_imp_sublist sublist_order.order_trans suffix_imp_sublist)

lemma set_trim: "set (trim s) \<subseteq> set s"
  using sublist_trim by (rule set_mono_sublist)

lemma length_trim: "length (trim s) \<le> length s"
  using sublist_trim by (rule sublist_length_le)

section \<open>Splitting\<close>

text \<open>
  \<open>split_whitespace\<close>: the maximal runs of other characters, in order; \<open>acc\<close> holds the
  current run backwards.
\<close>

function split_ws :: "string \<Rightarrow> string \<Rightarrow> string list" where
  "split_ws acc [] = (if acc = [] then [] else [rev acc])"
| "split_ws acc (c # s) =
     (if ws_front (c # s) = 0 then split_ws (c # acc) s
      else (if acc = [] then [] else [rev acc]) @ split_ws [] (drop (ws_front (c # s)) (c # s)))"
  by pat_completeness auto
termination
proof (relation "measure (\<lambda>(acc, s). length s)", goal_cases)
  case (3 acc c s)
  then have "length (drop (ws_front (c # s)) (c # s)) < length (c # s)"
    by (simp only: length_drop) simp
  then show ?case by simp
qed simp_all

definition split_whitespace :: "string \<Rightarrow> string list" where
  "split_whitespace s = split_ws [] s"

text \<open>\<open>split_once(c)\<close> for an ASCII character: at its first occurrence.\<close>

fun split_once :: "char \<Rightarrow> string \<Rightarrow> (string \<times> string) option" where
  "split_once c [] = None"
| "split_once c (x # s) =
     (if x = c then Some ([], s)
      else (case split_once c s of None \<Rightarrow> None | Some (a, b) \<Rightarrow> Some (x # a, b)))"

lemma split_once_append: "c \<notin> set a \<Longrightarrow> split_once c (a @ c # b) = Some (a, b)"
  by (induction a) auto

lemma split_once_SomeD: "split_once c s = Some (a, b) \<Longrightarrow> s = a @ c # b \<and> c \<notin> set a"
  by (induction c s arbitrary: a rule: split_once.induct) (auto split: option.splits if_splits)

lemma split_once_Some_iff: "split_once c s = Some (a, b) \<longleftrightarrow> s = a @ c # b \<and> c \<notin> set a"
  using split_once_append split_once_SomeD by metis

lemma split_once_None_iff: "split_once c s = None \<longleftrightarrow> c \<notin> set s"
  by (induction c s rule: split_once.induct) (auto split: option.splits)

section \<open>Decimal numbers\<close>

definition digit_char :: "nat \<Rightarrow> char" where
  "digit_char n = char_of (48 + n)"

definition digit_val :: "char \<Rightarrow> nat option" where
  "digit_val c = (let n = of_char c :: nat in if 48 \<le> n \<and> n \<le> 57 then Some (n - 48) else None)"

fun show_nat :: "nat \<Rightarrow> string" where
  "show_nat n = (if n < 10 then [digit_char n] else show_nat (n div 10) @ [digit_char (n mod 10)])"

declare show_nat.simps [simp del]

text \<open>
  \<open>str::parse\<close> at an unsigned type with values below \<open>bound\<close>: one optional \<open>+\<close>, then
  digits; empty input, a lone sign, another character and overflow are errors.
\<close>

fun parse_digits :: "nat \<Rightarrow> nat \<Rightarrow> string \<Rightarrow> nat option" where
  "parse_digits bound acc [] = Some acc"
| "parse_digits bound acc (c # s) =
     (case digit_val c of
        None \<Rightarrow> None
      | Some d \<Rightarrow>
          if acc * 10 < bound \<and> acc * 10 + d < bound then parse_digits bound (acc * 10 + d) s
          else None)"

fun parse_uint :: "nat \<Rightarrow> string \<Rightarrow> nat option" where
  "parse_uint bound [] = None"
| "parse_uint bound [c] = parse_digits bound 0 [c]"
| "parse_uint bound (c # d # s) =
     (if c = CHR ''+'' then parse_digits bound 0 (d # s) else parse_digits bound 0 (c # d # s))"

lemma digit_val_char: "n < 10 \<Longrightarrow> digit_val (digit_char n) = Some n"
  by (simp add: digit_val_def digit_char_def Let_def)

lemma digit_char_not_plus: "n < 10 \<Longrightarrow> digit_char n \<noteq> CHR ''+''"
  using digit_val_char [of n] by (auto simp: digit_val_def)

lemma parse_digits_snoc:
  "parse_digits b a (s @ [c]) =
     (case parse_digits b a s of None \<Rightarrow> None | Some v \<Rightarrow> parse_digits b v [c])"
  by (induction b a s rule: parse_digits.induct) (auto split: option.splits)

lemma parse_digits_show: "n < b \<Longrightarrow> parse_digits b 0 (show_nat n) = Some n"
proof (induction n rule: show_nat.induct)
  case (1 n)
  show ?case
  proof (cases "n < 10")
    case True
    then show ?thesis using 1 by (subst show_nat.simps) (simp add: digit_val_char)
  next
    case False
    then have "parse_digits b 0 (show_nat (n div 10)) = Some (n div 10)" using 1 by simp
    moreover have "n div 10 * 10 < b" using \<open>n < b\<close> by linarith
    ultimately show ?thesis
      using False \<open>n < b\<close>
      by (subst show_nat.simps) (simp add: parse_digits_snoc digit_val_char)
  qed
qed

lemma show_nat_hd: "\<exists>d s. show_nat n = digit_char d # s \<and> d < 10"
proof (induction n rule: show_nat.induct)
  case (1 n)
  show ?case
  proof (cases "n < 10")
    case False
    then obtain d t where "show_nat (n div 10) = digit_char d # t" "d < 10" using 1 by blast
    then show ?thesis using False by (subst show_nat.simps) auto
  qed (subst show_nat.simps, auto)
qed

lemma parse_uint_digits:
  "s \<noteq> [] \<Longrightarrow> hd s \<noteq> CHR ''+'' \<Longrightarrow> parse_uint b s = parse_digits b 0 s"
  by (cases "(b, s)" rule: parse_uint.cases) auto

interpretation decimal: codec show_nat "parse_uint b" "\<lambda>n. n < b" for b
proof
  fix n :: nat assume "n < b"
  moreover have "show_nat n \<noteq> []" "hd (show_nat n) \<noteq> CHR ''+''"
    using show_nat_hd [of n] digit_char_not_plus by auto
  ultimately show "parse_uint b (show_nat n) = Some n"
    by (simp add: parse_uint_digits parse_digits_show)
qed

lemma parse_digits_bound: "parse_digits b a s = Some n \<Longrightarrow> a < b \<Longrightarrow> n < b"
  by (induction b a s rule: parse_digits.induct) (auto split: option.splits if_splits)

lemma parse_uint_bound: "parse_uint b s = Some n \<Longrightarrow> 0 < b \<Longrightarrow> n < b"
  by (cases "(b, s)" rule: parse_uint.cases)
    (auto split: if_splits option.splits dest: parse_digits_bound)

section \<open>Bytes of a string\<close>

definition as_bytes :: "string \<Rightarrow> byte list" where
  "as_bytes s = map of_char s"

lemma unat_of_char: "unat (of_char c :: byte) = of_char c"
proof -
  have "unat (of_nat (of_char c) :: byte) = of_char c" by (simp only: unat_of_nat) simp
  then show ?thesis by (simp only: of_nat_of_char)
qed

lemma of_char_byte_inj: "(of_char c :: byte) = of_char d \<longleftrightarrow> c = d"
  by (metis unat_of_char of_char_eq_iff)

lemma as_bytes_eq_iff [simp]: "as_bytes s = as_bytes t \<longleftrightarrow> s = t"
  by (auto simp: as_bytes_def of_char_byte_inj inj_def intro: map_injective)

lemma length_as_bytes [simp]: "length (as_bytes s) = length s"
  by (simp add: as_bytes_def)

end
