(* ===== verification/PinData.thy ===== *)
theory PinData imports RustStrings begin

text \<open>
  \<open>pinpam-core/src/pinconstants.rs\<close> and \<open>pinpam-core/src/pindata.rs\<close>: the constants,
  the PinFail payload stored in the TPM and its byte format, and the attempt counters shown to
  users.  A \<open>c_int\<close> is kept as its 32 bits and read with \<^const>\<open>sint\<close>.
\<close>

section \<open>Constants\<close>

definition PIN_NV_INDEX_BASE :: u32 where "PIN_NV_INDEX_BASE = 0x01000000"

definition PIN_VERSION_UID_MAX :: u32 where "PIN_VERSION_UID_MAX = 0x007FFFFF"

definition PIN_VERSION_NV_INDEX_OFFSET :: u32 where
  "PIN_VERSION_NV_INDEX_OFFSET = PIN_VERSION_UID_MAX + 1"

definition PIN_VERSION_CURRENT :: u8 where "PIN_VERSION_CURRENT = 2"

definition PIN_VERSION_TAG_SIZE :: nat where "PIN_VERSION_TAG_SIZE = 1"

definition DEFAULT_PINUTIL_PATH :: string where "DEFAULT_PINUTIL_PATH = ''/usr/bin/pinutil''"

lemmas pin_constants =
  PIN_NV_INDEX_BASE_def PIN_VERSION_UID_MAX_def PIN_VERSION_NV_INDEX_OFFSET_def
  PIN_VERSION_CURRENT_def PIN_VERSION_TAG_SIZE_def

section \<open>The PinFail payload\<close>

record pin_data =
  pinCount :: u32
  pinLimit :: u32

definition pin_data_new :: "u32 \<Rightarrow> u32 \<Rightarrow> pin_data" where
  "pin_data_new pin_count pin_limit = \<lparr>pinCount = pin_count, pinLimit = pin_limit\<rparr>"

definition PIN_DATA_SIZE :: nat where "PIN_DATA_SIZE = 8"

text \<open>\<open>bytes.get(i..j)\<close>.\<close>

definition slice :: "nat \<Rightarrow> nat \<Rightarrow> 'a list \<Rightarrow> 'a list option" where
  "slice i j xs = (if i \<le> j \<and> j \<le> length xs then Some (take (j - i) (drop i xs)) else None)"

definition from_bytes :: "byte list \<Rightarrow> pin_data option" where
  "from_bytes bytes =
     Option.bind (slice 0 4 bytes) (\<lambda>count.
     Option.bind (slice 4 8 bytes) (\<lambda>limit.
     Option.bind (from_be_bytes count) (\<lambda>c.
     Option.bind (from_be_bytes limit) (\<lambda>l.
       Some \<lparr>pinCount = c, pinLimit = l\<rparr>))))"

definition to_bytes :: "pin_data \<Rightarrow> byte list" where
  "to_bytes value = to_be_bytes (pinCount value) @ to_be_bytes (pinLimit value)"

text \<open>The test \<open>slot.pinCount >= slot.pinLimit\<close>, on signed integers.\<close>

definition slot_locked :: "pin_data \<Rightarrow> bool" where
  "slot_locked slot \<longleftrightarrow> sint (pinLimit slot) \<le> sint (pinCount slot)"

section \<open>Attempt counters\<close>

record attempt_info =
  ai_used :: u32
  ai_limit :: u32

definition from_pin_data :: "pin_data \<Rightarrow> attempt_info" where
  "from_pin_data slot =
     \<lparr>ai_used = (if sint (pinCount slot) < 0 then 0 else pinCount slot),
      ai_limit = (if sint (pinLimit slot) \<le> 0 then 0 else pinLimit slot)\<rparr>"

definition locked :: "attempt_info \<Rightarrow> bool" where
  "locked info \<longleftrightarrow> 0 < ai_limit info \<and> ai_limit info \<le> ai_used info"

definition prompt_tuple :: "attempt_info \<Rightarrow> u32 \<times> u32" where
  "prompt_tuple info = (ai_used info, ai_limit info)"

section \<open>Lemmas\<close>

lemma length_to_bytes [simp]: "length (to_bytes s) = PIN_DATA_SIZE"
  by (simp add: to_bytes_def PIN_DATA_SIZE_def)

lemma from_bytes_None_iff: "from_bytes bs = None \<longleftrightarrow> length bs < PIN_DATA_SIZE"
proof -
  have *: "from_be_bytes xs \<noteq> None" if "length xs = 4" for xs
    using that by (auto simp: length_Suc_conv numeral_eq_Suc)
  show ?thesis
    using * [of "take 4 bs"] * [of "take 4 (drop 4 bs)"]
    by (auto simp: from_bytes_def slice_def PIN_DATA_SIZE_def split: bind_splits)
qed

lemma from_bytes_Some_iff: "from_bytes bs = Some s \<longleftrightarrow> (\<exists>rest. bs = to_bytes s @ rest)"
proof
  assume a: "from_bytes bs = Some s"
  then have l: "8 \<le> length bs"
    using from_bytes_None_iff [of bs] by (cases "length bs < 8") (simp_all add: PIN_DATA_SIZE_def)
  from a have "from_be_bytes (take 4 bs) = Some (pinCount s)"
    "from_be_bytes (take 4 (drop 4 bs)) = Some (pinLimit s)"
    by (auto simp: from_bytes_def slice_def split: bind_splits if_splits)
  then have "to_bytes s = take 4 bs @ take 4 (drop 4 bs)"
    by (simp add: to_bytes_def to_from_be_bytes)
  also have "\<dots> = take 8 bs" by (simp flip: take_add)
  finally show "\<exists>rest. bs = to_bytes s @ rest" by (metis append_take_drop_id)
next
  assume "\<exists>rest. bs = to_bytes s @ rest"
  then show "from_bytes bs = Some s"
    by (auto simp: from_bytes_def to_bytes_def slice_def)
qed

interpretation pin_data_codec: codec to_bytes from_bytes "\<lambda>_. True"
  by unfold_locales (auto simp: from_bytes_Some_iff)

lemma from_bytes_to_bytes [simp]: "from_bytes (to_bytes s) = Some s"
  by (rule pin_data_codec.dec_enc) simp

lemma from_bytes_8: "length bs = PIN_DATA_SIZE \<Longrightarrow> from_bytes bs = Some s \<Longrightarrow> bs = to_bytes s"
  by (auto simp: from_bytes_Some_iff)

text \<open>On limits a policy can set sensibly, the two lock tests agree.\<close>

lemma locked_from_pin_data:
  "locked (from_pin_data s) \<longleftrightarrow> 0 < sint (pinLimit s) \<and> slot_locked s"
proof (cases "0 < sint (pinLimit s)")
  case True
  then have l: "0 < unat (pinLimit s)" "unat (pinLimit s) < 2 ^ 31"
    by (simp_all only: zero_less_sint_iff)
  show ?thesis
  proof (cases "sint (pinCount s) < 0")
    case neg: True
    then show ?thesis using True by (auto simp: locked_def from_pin_data_def slot_locked_def)
  next
    case False
    then have "unat (pinCount s) < 2 ^ 31" by (simp only: sint_less_0_iff not_not)
    then have "slot_locked s \<longleftrightarrow> pinLimit s \<le> pinCount s"
      using l by (simp only: slot_locked_def sint_le_iff word_le_nat_alt)
    moreover have "0 < pinLimit s" using l(1) by (simp add: word_less_nat_alt)
    ultimately show ?thesis
      using True False by (simp add: locked_def from_pin_data_def)
  qed
next
  case False
  then show ?thesis by (simp add: locked_def from_pin_data_def)
qed

lemma slot_locked_nat:
  "unat (pinLimit s) < 2 ^ 31 \<Longrightarrow> unat (pinCount s) < 2 ^ 31 \<Longrightarrow>
     slot_locked s \<longleftrightarrow> unat (pinLimit s) \<le> unat (pinCount s)"
  by (simp only: slot_locked_def sint_le_iff)

section \<open>Properties\<close>

text \<open>C33: The PinFail payload's byte format is exact: eight bytes or more decode, to the record whose
  encoding they start with, and anything shorter does not.\<close>
theorem pin_data_format:
  "(from_bytes bs = Some s \<longleftrightarrow> (\<exists>rest. bs = to_bytes s @ rest)) \<and>
   (from_bytes bs = None \<longleftrightarrow> length bs < PIN_DATA_SIZE) \<and> from_bytes (to_bytes s) = Some s"
  using from_bytes_Some_iff [of bs s] from_bytes_None_iff [of bs] by simp


end
