(* ===== verification/Tss.thy ===== *)
theory Tss imports PinData begin

text \<open>
  The third-party interface of \<open>pinpam-core\<close>: the calls of the crate \<open>tss-esapi\<close> (an
  \<open>ESAPI\<close> context talking to the TPM) and the \<open>t!\<close> macro of \<open>rust-i18n\<close>.  None of it
  is under \<open>src/\<close>, so it is a parameter: a record of functions over a world \<^typ>\<open>'w\<close>
  that holds the TPM, the connection and its sessions.  What the program relies on is stated in
  theory \<open>TpmLaws\<close>, as hypotheses.
\<close>

section \<open>Types of the interface\<close>

text \<open>The response-code kinds the program tests for; every other kind is an \<open>RcOther\<close>.\<close>

datatype rc_kind = RcHandle | RcNvUninitialized | RcAuthFail | RcBadAuth | RcOther nat

datatype wrapper_kind = WrongValueFromTpm | InvalidParam | ParamsMissing | OtherWrapper nat

text \<open>\<open>tss_esapi::Error\<close>: an error of the wrapper, or a TPM response code.\<close>

datatype tss_error = Tss2Error u32 | WrapperError wrapper_kind

type_synonym esys_tr = u32
type_synonym nv_handle = u32
type_synonym digest = "byte list"

datatype nv_type = Ordinary | PinFail

text \<open>The attributes the program sets; the builder leaves the others clear.\<close>

record nv_attributes =
  nv_index_type :: nv_type
  auth_read :: bool
  owner_read :: bool
  owner_write :: bool
  policy_write :: bool
  no_da :: bool

record nv_public =
  nv_index :: nv_handle
  index_attributes :: nv_attributes
  data_area_size :: nat
  index_auth_policy :: digest

datatype nv_auth = AuthOwner | AuthNvIndex esys_tr

datatype session_type = Trial | Policy

datatype command_code = CcNvWrite | CcOther nat

section \<open>The calls\<close>

record 'w tss =
  tr :: "string \<Rightarrow> (string \<times> string) list \<Rightarrow> string"
  tss_text :: "tss_error \<Rightarrow> string"
  rc_kind :: "u32 \<Rightarrow> rc_kind option"
  nv_index_check :: "u32 \<Rightarrow> tss_error option"
  auth_check :: "byte list \<Rightarrow> tss_error option"
  max_nv_buffer_check :: "byte list \<Rightarrow> tss_error option"
  attributes_check :: "nv_attributes \<Rightarrow> tss_error option"
  nv_public_check :: "nv_public \<Rightarrow> tss_error option"
  policy_session_check :: "esys_tr \<Rightarrow> tss_error option"
  tcti_check :: "string \<Rightarrow> tss_error option"
  context_new :: "string \<Rightarrow> ('w, unit, tss_error) eff"
  ctx_clear_sessions :: "'w \<Rightarrow> 'w"
  nullauth_begin :: "('w, unit, tss_error) eff"
  nullauth_end :: "('w, unit, tss_error) eff"
  no_session_begin :: "'w \<Rightarrow> 'w"
  no_session_end :: "'w \<Rightarrow> 'w"
  session_begin :: "esys_tr \<Rightarrow> 'w \<Rightarrow> 'w"
  session_end :: "'w \<Rightarrow> 'w"
  start_auth_session :: "session_type \<Rightarrow> ('w, esys_tr option, tss_error) eff"
  tr_sess_set_attributes :: "esys_tr \<Rightarrow> ('w, unit, tss_error) eff"
  policy_command_code :: "esys_tr \<Rightarrow> command_code \<Rightarrow> ('w, unit, tss_error) eff"
  policy_nv_written :: "esys_tr \<Rightarrow> bool \<Rightarrow> ('w, unit, tss_error) eff"
  policy_get_digest :: "esys_tr \<Rightarrow> ('w, digest, tss_error) eff"
  flush_context :: "esys_tr \<Rightarrow> ('w, unit, tss_error) eff"
  tr_from_tpm_public :: "nv_handle \<Rightarrow> ('w, esys_tr, tss_error) eff"
  tr_set_auth :: "esys_tr \<Rightarrow> byte list \<Rightarrow> ('w, unit, tss_error) eff"
  nv_read :: "nv_auth \<Rightarrow> esys_tr \<Rightarrow> nat \<Rightarrow> nat \<Rightarrow> ('w, byte list, tss_error) eff"
  nv_read_full :: "nv_auth \<Rightarrow> nv_handle \<Rightarrow> ('w, byte list, tss_error) eff"
  nv_write :: "nv_auth \<Rightarrow> esys_tr \<Rightarrow> byte list \<Rightarrow> nat \<Rightarrow> ('w, unit, tss_error) eff"
  nv_define_space :: "byte list option \<Rightarrow> nv_public \<Rightarrow> ('w, unit, tss_error) eff"
  nv_undefine_space :: "esys_tr \<Rightarrow> ('w, unit, tss_error) eff"

text \<open>
  The fields named \<open>_check\<close> are the fallible conversions and builders whose value on success
  is the argument itself (\<open>NvIndexTpmHandle::new\<close>, \<open>Auth::try_from\<close>,
  \<open>MaxNvBuffer::try_from\<close>, \<open>NvIndexAttributesBuilder::build\<close> with \<open>validate\<close>,
  \<open>NvPublicBuilder::build\<close>, \<open>PolicySession::try_from\<close>, \<open>TctiNameConf::from_str\<close>):
  \<^const>\<open>None\<close> means they succeed.
\<close>

definition checked :: "tss_error option \<Rightarrow> 'a \<Rightarrow> ('w, 'a, tss_error) eff" where
  "checked c x = (case c of None \<Rightarrow> ok x | Some e \<Rightarrow> err e)"

text \<open>
  The three \<open>execute_*\<close> methods run a closure between a prologue and an epilogue, which set
  and restore the context's sessions.  Only the null-auth variant's prologue and epilogue make
  TPM calls (start and flush a session) and can fail.
\<close>

definition with_nullauth :: "('w, 'z) tss_scheme \<Rightarrow> ('w, 'a, tss_error) eff \<Rightarrow> ('w, 'a, tss_error) eff" where
  "with_nullauth T f =
     andThen (nullauth_begin T) (\<lambda>_.
     matchRes f
       (\<lambda>x. andThen (nullauth_end T) (\<lambda>_. ok x))
       (\<lambda>e. andThen (nullauth_end T) (\<lambda>_. err e)))"

definition without_session :: "('w, 'z) tss_scheme \<Rightarrow> ('w, 'a, tss_error) eff \<Rightarrow> ('w, 'a, tss_error) eff" where
  "without_session T f =
     andThen (act (no_session_begin T)) (\<lambda>_.
     matchRes f
       (\<lambda>x. andThen (act (no_session_end T)) (\<lambda>_. ok x))
       (\<lambda>e. andThen (act (no_session_end T)) (\<lambda>_. err e)))"

definition with_session ::
  "('w, 'z) tss_scheme \<Rightarrow> esys_tr \<Rightarrow> ('w, 'a, tss_error) eff \<Rightarrow> ('w, 'a, tss_error) eff"
where
  "with_session T s f =
     andThen (act (session_begin T s)) (\<lambda>_.
     matchRes f
       (\<lambda>x. andThen (act (session_end T)) (\<lambda>_. ok x))
       (\<lambda>e. andThen (act (session_end T)) (\<lambda>_. err e)))"

lemma wp_checked [wp_simps]:
  "wp (checked c x) Q w \<longleftrightarrow> (case c of None \<Rightarrow> Q (Ok x) w | Some e \<Rightarrow> Q (Err e) w)"
  by (simp add: checked_def wp_simps split: option.splits)

end
