(* ===== verification/TpmLaws.thy ===== *)
theory TpmLaws imports Tss begin

text \<open>
  What the program relies on of \<open>tss-esapi\<close> and of a TPM 2.0, as hypotheses on the parameter
  \<^typ>\<open>'w tss\<close>.  A \<open>view\<close> reads off a world what the laws talk about: the NV indices, the
  ESYS handles bound to them with their authorisation values, the policies of open sessions, and
  the session in use.

  \<open>tss_sound\<close> holds of a faulty TPM too: a call that fails may or may not have taken effect
  (a lost response), but every effect is one the TPM specification allows.  \<open>tss_live\<close> adds
  that calls succeed when their documented preconditions hold, and how they fail when an index
  is missing, unwritten or its authorisation is wrong.
\<close>

section \<open>Views\<close>

record nv_entry =
  e_public :: nv_public
  e_auth :: "byte list"
  e_data :: "byte list option"

type_synonym nv_map = "nv_handle \<Rightarrow> nv_entry option"

datatype policy_cmd = PcCommandCode command_code | PcNvWritten bool

record 'w view =
  nvs :: "'w \<Rightarrow> nv_map"
  objs :: "'w \<Rightarrow> esys_tr \<Rightarrow> (nv_handle \<times> byte list) option"
  pols :: "'w \<Rightarrow> esys_tr \<Rightarrow> policy_cmd list option"
  cur :: "'w \<Rightarrow> esys_tr option"
  policy_digest :: "policy_cmd list \<Rightarrow> digest"

text \<open>The TPM ignores trailing zero octets of an authorisation value.\<close>

definition auth_norm :: "byte list \<Rightarrow> byte list" where
  "auth_norm a = rev (dropWhile (\<lambda>b. b = 0) (rev a))"

definition auth_eq :: "byte list \<Rightarrow> byte list \<Rightarrow> bool" where
  "auth_eq a b \<longleftrightarrow> auth_norm a = auth_norm b"

text \<open>The counters of an entry: present when the index is written with eight bytes.\<close>

definition entry_pin :: "nv_entry \<Rightarrow> pin_data option" where
  "entry_pin e = Option.bind (e_data e) from_bytes"

definition is_pin_entry :: "nv_entry \<Rightarrow> bool" where
  "is_pin_entry e \<longleftrightarrow>
     nv_index_type (index_attributes (e_public e)) = PinFail \<and>
     (\<forall>d. e_data e = Some d \<longrightarrow> length d = PIN_DATA_SIZE)"

definition set_pin :: "pin_data \<Rightarrow> nv_entry \<Rightarrow> nv_entry" where
  "set_pin s e = e\<lparr>e_data := Some (to_bytes s)\<rparr>"

text \<open>
  A PinFail index and a use of its authorisation value \<open>a\<close>: accepted (right value, counter below
  the limit: the counter is cleared), rejected (wrong value: the counter is incremented), or
  refused (the counter has reached the limit: nothing is compared).
\<close>

definition pin_open :: "pin_data \<Rightarrow> bool" where
  "pin_open s \<longleftrightarrow> pinCount s < pinLimit s"

definition pin_accept :: "byte list \<Rightarrow> nv_handle \<Rightarrow> nv_map \<Rightarrow> nv_map \<Rightarrow> bool" where
  "pin_accept a i N N' \<longleftrightarrow>
     (\<exists>e s. N i = Some e \<and> entry_pin e = Some s \<and> auth_eq (e_auth e) a \<and> pin_open s \<and>
        N' = N(i \<mapsto> set_pin (s\<lparr>pinCount := 0\<rparr>) e))"

definition pin_reject :: "byte list \<Rightarrow> nv_handle \<Rightarrow> nv_map \<Rightarrow> nv_map \<Rightarrow> bool" where
  "pin_reject a i N N' \<longleftrightarrow>
     (\<exists>e s. N i = Some e \<and> entry_pin e = Some s \<and> \<not> auth_eq (e_auth e) a \<and> pin_open s \<and>
        N' = N(i \<mapsto> set_pin (s\<lparr>pinCount := pinCount s + 1\<rparr>) e))"

definition pin_refuse :: "nv_handle \<Rightarrow> nv_map \<Rightarrow> bool" where
  "pin_refuse i N \<longleftrightarrow> (\<exists>e s. N i = Some e \<and> entry_pin e = Some s \<and> \<not> pin_open s)"

text \<open>A policy command's condition on the index being written.\<close>

fun policy_cmd_holds :: "policy_cmd \<Rightarrow> nv_entry \<Rightarrow> bool" where
  "policy_cmd_holds (PcCommandCode c) e \<longleftrightarrow> c = CcNvWrite"
| "policy_cmd_holds (PcNvWritten b) e \<longleftrightarrow> b = (e_data e \<noteq> None)"

section \<open>Safety of the calls\<close>

text \<open>A call that leaves the NV indices, and one that leaves the bound handles.\<close>

abbreviation keeps_nv :: "('w, 'v) view_scheme \<Rightarrow> ('w, 'a, 'e) eff \<Rightarrow> bool" where
  "keeps_nv V \<equiv> evolves (nvs V) (=)"

abbreviation keeps_objs :: "('w, 'v) view_scheme \<Rightarrow> ('w, 'a, 'e) eff \<Rightarrow> bool" where
  "keeps_objs V \<equiv> evolves (objs V) (=)"

definition law_keeps_nv :: "('w, 'z) tss_scheme \<Rightarrow> ('w, 'v) view_scheme \<Rightarrow> bool" where
  "law_keeps_nv T V \<longleftrightarrow>
     (\<forall>c. keeps_nv V (context_new T c)) \<and>
     (\<forall>w. nvs V (ctx_clear_sessions T w) = nvs V w) \<and>
     keeps_nv V (nullauth_begin T) \<and> keeps_nv V (nullauth_end T) \<and>
     (\<forall>w. nvs V (no_session_begin T w) = nvs V w) \<and>
     (\<forall>w. nvs V (no_session_end T w) = nvs V w) \<and>
     (\<forall>s w. nvs V (session_begin T s w) = nvs V w) \<and>
     (\<forall>w. nvs V (session_end T w) = nvs V w) \<and>
     (\<forall>st. keeps_nv V (start_auth_session T st)) \<and>
     (\<forall>s. keeps_nv V (tr_sess_set_attributes T s)) \<and>
     (\<forall>s c. keeps_nv V (policy_command_code T s c)) \<and>
     (\<forall>s b. keeps_nv V (policy_nv_written T s b)) \<and>
     (\<forall>s. keeps_nv V (policy_get_digest T s)) \<and>
     (\<forall>s. keeps_nv V (flush_context T s)) \<and>
     (\<forall>i. keeps_nv V (tr_from_tpm_public T i)) \<and>
     (\<forall>h a. keeps_nv V (tr_set_auth T h a)) \<and>
     (\<forall>a i. keeps_nv V (nv_read_full T a i))"

text \<open>Opening sessions leaves the handles bound to indices.\<close>

definition law_keeps_objs :: "('w, 'z) tss_scheme \<Rightarrow> ('w, 'v) view_scheme \<Rightarrow> bool" where
  "law_keeps_objs T V \<longleftrightarrow>
     keeps_objs V (nullauth_begin T) \<and> (\<forall>s w. objs V (session_begin T s w) = objs V w)"

text \<open>
  Opening or flushing the null-auth session, and the two calls that never reach the TPM
  (\<open>Auth::try_from\<close>, \<open>tr_set_auth\<close>), do not fail with one of the kinds the program tests
  for: those speak of the index and its authorisation.
\<close>

definition plain_error :: "('w, 'z) tss_scheme \<Rightarrow> tss_error \<Rightarrow> bool" where
  "plain_error T e \<longleftrightarrow>
     (\<forall>rc. e = Tss2Error rc \<longrightarrow>
        rc_kind T rc \<notin> {Some RcHandle, Some RcNvUninitialized, Some RcAuthFail, Some RcBadAuth})"

definition law_plain_errors :: "('w, 'z) tss_scheme \<Rightarrow> bool" where
  "law_plain_errors T \<longleftrightarrow>
     (\<forall>w e. fst (nullauth_begin T w) = Err e \<longrightarrow> plain_error T e) \<and>
     (\<forall>w e. fst (nullauth_end T w) = Err e \<longrightarrow> plain_error T e) \<and>
     (\<forall>a e. auth_check T a = Some e \<longrightarrow> plain_error T e) \<and>
     (\<forall>h a w e. fst (tr_set_auth T h a w) = Err e \<longrightarrow> plain_error T e)"

text \<open>A fresh handle names the index; its authorisation value is the one last set.\<close>

definition law_handles :: "('w, 'z) tss_scheme \<Rightarrow> ('w, 'v) view_scheme \<Rightarrow> bool" where
  "law_handles T V \<longleftrightarrow>
     (\<forall>i w. wp (tr_from_tpm_public T i)
        (\<lambda>r w'. \<forall>h. r = Ok h \<longrightarrow>
           objs V w' = (objs V w)(h \<mapsto> (i, [])) \<and> pols V w h = None \<and> pols V w' = pols V w) w) \<and>
     (\<forall>h a w. wp (tr_set_auth T h a)
        (\<lambda>r w'. r = Ok () \<longrightarrow>
           objs V w' =
             (case objs V w h of None \<Rightarrow> objs V w | Some (i, _) \<Rightarrow> (objs V w)(h \<mapsto> (i, a)))) w)"

definition read_outcome ::
  "('w, 'z) tss_scheme \<Rightarrow> byte list \<Rightarrow> nv_handle \<Rightarrow> nv_map \<Rightarrow> nv_map \<Rightarrow>
     (byte list, tss_error) res \<Rightarrow> bool"
where
  "read_outcome T a i N N' r \<longleftrightarrow>
     (\<forall>d. r = Ok d \<longrightarrow> pin_accept a i N N' \<and> (\<exists>e. N' i = Some e \<and> e_data e = Some d)) \<and>
     (\<forall>rc. r = Err (Tss2Error rc) \<longrightarrow> rc_kind T rc \<in> {Some RcAuthFail, Some RcBadAuth} \<longrightarrow>
        pin_reject a i N N' \<or> N' = N \<and> pin_refuse i N) \<and>
     (N' = N \<or> pin_accept a i N N' \<or> pin_reject a i N N')"

text \<open>Reading a PinFail index, or an index that is not there, under its own authorisation.\<close>

definition law_nv_read :: "('w, 'z) tss_scheme \<Rightarrow> ('w, 'v) view_scheme \<Rightarrow> bool" where
  "law_nv_read T V \<longleftrightarrow>
     (\<forall>h i a w. objs V w h = Some (i, a) \<longrightarrow> (\<forall>e. nvs V w i = Some e \<longrightarrow> is_pin_entry e) \<longrightarrow>
        wp (nv_read T (AuthNvIndex h) h PIN_DATA_SIZE 0)
          (\<lambda>r w'. read_outcome T a i (nvs V w) (nvs V w') r) w)"

definition law_nv_read_full :: "('w, 'z) tss_scheme \<Rightarrow> ('w, 'v) view_scheme \<Rightarrow> bool" where
  "law_nv_read_full T V \<longleftrightarrow>
     (\<forall>i w. wp (nv_read_full T AuthOwner i)
        (\<lambda>r w'. (\<forall>d. r = Ok d \<longrightarrow> (\<exists>e. nvs V w i = Some e \<and> e_data e = Some d)) \<and>
           (\<forall>rc. r = Err (Tss2Error rc) \<longrightarrow>
              rc_kind T rc \<in> {Some RcHandle, Some RcNvUninitialized} \<longrightarrow>
              (\<forall>e. nvs V w i = Some e \<longrightarrow> e_data e = None))) w)"

definition fresh_entry :: "byte list option \<Rightarrow> nv_public \<Rightarrow> nv_entry" where
  "fresh_entry auth pub =
     \<lparr>e_public = pub, e_auth = (case auth of None \<Rightarrow> [] | Some a \<Rightarrow> a), e_data = None\<rparr>"

definition law_nv_space :: "('w, 'z) tss_scheme \<Rightarrow> ('w, 'v) view_scheme \<Rightarrow> bool" where
  "law_nv_space T V \<longleftrightarrow>
     (\<forall>auth pub w. wp (nv_define_space T auth pub)
        (\<lambda>r w'.
           let N = nvs V w; i = nv_index pub;
               done = (N i = None \<and> nvs V w' = N(i \<mapsto> fresh_entry auth pub))
           in (r = Ok () \<longrightarrow> done) \<and> (nvs V w' = N \<or> done)) w) \<and>
     (\<forall>h i a w. objs V w h = Some (i, a) \<longrightarrow>
        wp (nv_undefine_space T h)
          (\<lambda>r w'.
             let N = nvs V w; done = (N i \<noteq> None \<and> nvs V w' = N(i := None))
             in (r = Ok () \<longrightarrow> done) \<and> (nvs V w' = N \<or> done)) w)"

text \<open>
  Writing all of an index: by the owner where the attributes allow it, or under a policy session
  whose digest is the index's and whose conditions hold.
\<close>

definition may_write ::
  "('w, 'v) view_scheme \<Rightarrow> nv_auth \<Rightarrow> 'w \<Rightarrow> nv_entry \<Rightarrow> bool"
where
  "may_write V auth w e \<longleftrightarrow>
     (case auth of
        AuthOwner \<Rightarrow> owner_write (index_attributes (e_public e))
      | AuthNvIndex _ \<Rightarrow>
          policy_write (index_attributes (e_public e)) \<and>
          (\<exists>s cmds. cur V w = Some s \<and> pols V w s = Some cmds \<and>
             policy_digest V cmds = index_auth_policy (e_public e) \<and>
             (\<forall>c \<in> set cmds. policy_cmd_holds c e)))"

definition law_nv_write :: "('w, 'z) tss_scheme \<Rightarrow> ('w, 'v) view_scheme \<Rightarrow> bool" where
  "law_nv_write T V \<longleftrightarrow>
     (\<forall>auth h i a d w. objs V w h = Some (i, a) \<longrightarrow>
        wp (nv_write T auth h d 0)
          (\<lambda>r w'.
             let N = nvs V w;
                 done = (\<exists>e. N i = Some e \<and> may_write V auth w e \<and>
                   length d \<le> data_area_size (e_public e) \<and>
                   (\<exists>d'. nvs V w' = N(i \<mapsto> e\<lparr>e_data := Some d'\<rparr>) \<and>
                      length d' = data_area_size (e_public e) \<and> take (length d) d' = d))
             in (r = Ok () \<longrightarrow> done) \<and> (nvs V w' = N \<or> done)) w)"

definition tss_sound :: "('w, 'z) tss_scheme \<Rightarrow> ('w, 'v) view_scheme \<Rightarrow> bool" where
  "tss_sound T V \<longleftrightarrow>
     law_keeps_nv T V \<and> law_keeps_objs T V \<and> law_plain_errors T \<and> law_handles T V \<and>
     law_nv_read T V \<and> law_nv_read_full T V \<and> law_nv_space T V \<and> law_nv_write T V"

section \<open>Progress of the calls\<close>

text \<open>Sizes and ranges the conversions accept, and attribute sets a TPM accepts.\<close>

definition live_checks :: "('w, 'z) tss_scheme \<Rightarrow> bool" where
  "live_checks T \<longleftrightarrow>
     (\<forall>v. 0x01000000 \<le> unat v \<longrightarrow> unat v \<le> 0x01FFFFFF \<longrightarrow> nv_index_check T v = None) \<and>
     (\<forall>a. length a \<le> 64 \<longrightarrow> auth_check T a = None) \<and>
     (\<forall>d. length d \<le> 2048 \<longrightarrow> max_nv_buffer_check T d = None) \<and>
     (\<forall>at. (nv_index_type at = PinFail \<longrightarrow> no_da at) \<longrightarrow> auth_read at \<or> owner_read at \<longrightarrow>
        owner_write at \<or> policy_write at \<longrightarrow> attributes_check T at = None) \<and>
     (\<forall>pub. attributes_check T (index_attributes pub) = None \<longrightarrow> data_area_size pub \<le> 2048 \<longrightarrow>
        nv_public_check T pub = None)"

definition live_sessions :: "('w, 'z) tss_scheme \<Rightarrow> ('w, 'v) view_scheme \<Rightarrow> bool" where
  "live_sessions T V \<longleftrightarrow>
     (\<forall>c w. tcti_check T c = None \<longrightarrow> fst (context_new T c w) = Ok ()) \<and>
     (\<forall>w. fst (nullauth_begin T w) = Ok ()) \<and>
     (\<forall>w. fst (nullauth_end T w) = Ok ()) \<and>
     (\<forall>st w. wp (start_auth_session T st)
        (\<lambda>r w'. \<exists>s. r = Ok (Some s) \<and> pols V w' s = Some [] \<and> objs V w' s = None \<and>
           policy_session_check T s = None) w) \<and>
     (\<forall>s w. pols V w s \<noteq> None \<longrightarrow>
        wp (tr_sess_set_attributes T s)
          (\<lambda>r w'. r = Ok () \<and> pols V w' = pols V w \<and> objs V w' = objs V w) w) \<and>
     (\<forall>s c cs w. pols V w s = Some cs \<longrightarrow>
        wp (policy_command_code T s c)
          (\<lambda>r w'. r = Ok () \<and> pols V w' s = Some (cs @ [PcCommandCode c]) \<and>
             objs V w' = objs V w) w) \<and>
     (\<forall>s b cs w. pols V w s = Some cs \<longrightarrow>
        wp (policy_nv_written T s b)
          (\<lambda>r w'. r = Ok () \<and> pols V w' s = Some (cs @ [PcNvWritten b]) \<and>
             objs V w' = objs V w) w) \<and>
     (\<forall>s cs w. pols V w s = Some cs \<longrightarrow>
        wp (policy_get_digest T s)
          (\<lambda>r w'. r = Ok (policy_digest V cs) \<and> pols V w' s = Some cs) w) \<and>
     (\<forall>w. pols V (ctx_clear_sessions T w) = pols V w) \<and>
     (\<forall>s w. pols V w s \<noteq> None \<longrightarrow> fst (flush_context T s w) = Ok ()) \<and>
     (\<forall>s w. cur V (session_begin T s w) = Some s \<and> pols V (session_begin T s w) = pols V w)"

definition live_handles :: "('w, 'z) tss_scheme \<Rightarrow> ('w, 'v) view_scheme \<Rightarrow> bool" where
  "live_handles T V \<longleftrightarrow>
     (\<forall>i w. wp (tr_from_tpm_public T i)
        (\<lambda>r w'. (nvs V w i \<noteq> None \<longrightarrow> (\<exists>h. r = Ok h)) \<and>
           (nvs V w i = None \<longrightarrow>
              (\<exists>rc. r = Err (Tss2Error rc) \<and> rc_kind T rc = Some RcHandle))) w) \<and>
     (\<forall>h a w. objs V w h \<noteq> None \<or> pols V w h \<noteq> None \<longrightarrow>
        wp (tr_set_auth T h a)
          (\<lambda>r w'. r = Ok () \<and> pols V w' = pols V w \<and> cur V w' = cur V w) w)"

definition live_nv :: "('w, 'z) tss_scheme \<Rightarrow> ('w, 'v) view_scheme \<Rightarrow> bool" where
  "live_nv T V \<longleftrightarrow>
     (\<forall>h i a e s w. objs V w h = Some (i, a) \<longrightarrow> nvs V w i = Some e \<longrightarrow> is_pin_entry e \<longrightarrow>
        auth_read (index_attributes (e_public e)) \<longrightarrow> entry_pin e = Some s \<longrightarrow>
        wp (nv_read T (AuthNvIndex h) h PIN_DATA_SIZE 0)
          (\<lambda>r w'. (auth_eq (e_auth e) a \<and> pin_open s \<longrightarrow> (\<exists>d. r = Ok d)) \<and>
             (\<not> (auth_eq (e_auth e) a \<and> pin_open s) \<longrightarrow>
                (\<exists>rc. r = Err (Tss2Error rc) \<and>
                   rc_kind T rc \<in> {Some RcAuthFail, Some RcBadAuth}))) w) \<and>
     (\<forall>i w. wp (nv_read_full T AuthOwner i)
        (\<lambda>r w'. (\<forall>e d. nvs V w i = Some e \<longrightarrow> owner_read (index_attributes (e_public e)) \<longrightarrow>
              e_data e = Some d \<longrightarrow> r = Ok d) \<and>
           ((\<forall>e. nvs V w i = Some e \<longrightarrow>
                owner_read (index_attributes (e_public e)) \<and> e_data e = None) \<longrightarrow>
              (\<exists>rc. r = Err (Tss2Error rc) \<and>
                 rc_kind T rc \<in> {Some RcHandle, Some RcNvUninitialized}))) w) \<and>
     (\<forall>auth pub w. wp (nv_define_space T auth pub)
        (\<lambda>r w'. (nvs V w (nv_index pub) = None \<longrightarrow>
              nv_index_check T (nv_index pub) = None \<longrightarrow>
              attributes_check T (index_attributes pub) = None \<longrightarrow> r = Ok ()) \<and>
           (nvs V w (nv_index pub) \<noteq> None \<longrightarrow> (\<exists>e. r = Err e))) w) \<and>
     (\<forall>h i a w. objs V w h = Some (i, a) \<longrightarrow> nvs V w i \<noteq> None \<longrightarrow>
        fst (nv_undefine_space T h w) = Ok ()) \<and>
     (\<forall>auth h i a e d w. objs V w h = Some (i, a) \<longrightarrow> nvs V w i = Some e \<longrightarrow>
        may_write V auth w e \<longrightarrow> length d \<le> data_area_size (e_public e) \<longrightarrow>
        fst (nv_write T auth h d 0 w) = Ok ())"

definition tss_live :: "('w, 'z) tss_scheme \<Rightarrow> ('w, 'v) view_scheme \<Rightarrow> bool" where
  "tss_live T V \<longleftrightarrow>
     tss_sound T V \<and> live_checks T \<and> live_sessions T V \<and> live_handles T V \<and> live_nv T V"

section \<open>The laws as rules\<close>

text \<open>A result that says nothing about an index: a plain error, or a panic.\<close>

definition plain :: "('w, 'z) tss_scheme \<Rightarrow> ('a, tss_error) res \<Rightarrow> bool" where
  "plain T r \<longleftrightarrow> (case r of Ok _ \<Rightarrow> False | Err e \<Rightarrow> plain_error T e | Panic _ \<Rightarrow> True)"

lemma plain_simps [simp]:
  "plain T (Ok x) = False" "plain T (Err e) = plain_error T e" "plain T (Panic s) = True"
  by (simp_all add: plain_def)

lemma keeps_checked: "keeps_nv V (checked c x)"
  by (simp add: checked_def unchanged.evolves_intros split: option.splits)

lemma sound_keeps:
  assumes "tss_sound T V"
  shows "keeps_nv V (context_new T c)" "keeps_nv V (act (ctx_clear_sessions T))"
    "keeps_nv V (nullauth_begin T)" "keeps_nv V (nullauth_end T)"
    "keeps_nv V (act (no_session_begin T))" "keeps_nv V (act (no_session_end T))"
    "keeps_nv V (act (session_begin T s))" "keeps_nv V (act (session_end T))"
    "keeps_nv V (start_auth_session T st)" "keeps_nv V (tr_sess_set_attributes T s)"
    "keeps_nv V (policy_command_code T s cc)" "keeps_nv V (policy_nv_written T s b)"
    "keeps_nv V (policy_get_digest T s)" "keeps_nv V (flush_context T s)"
    "keeps_nv V (tr_from_tpm_public T i)" "keeps_nv V (tr_set_auth T h a)"
    "keeps_nv V (nv_read_full T na i)"
proof -
  from assms have "law_keeps_nv T V" by (simp add: tss_sound_def)
  note L = this [unfolded law_keeps_nv_def]
  show "keeps_nv V (context_new T c)" "keeps_nv V (act (ctx_clear_sessions T))"
    "keeps_nv V (nullauth_begin T)" "keeps_nv V (nullauth_end T)"
    "keeps_nv V (act (no_session_begin T))" "keeps_nv V (act (no_session_end T))"
    "keeps_nv V (act (session_begin T s))" "keeps_nv V (act (session_end T))"
    "keeps_nv V (start_auth_session T st)" "keeps_nv V (tr_sess_set_attributes T s)"
    "keeps_nv V (policy_command_code T s cc)" "keeps_nv V (policy_nv_written T s b)"
    "keeps_nv V (policy_get_digest T s)" "keeps_nv V (flush_context T s)"
    "keeps_nv V (tr_from_tpm_public T i)" "keeps_nv V (tr_set_auth T h a)"
    "keeps_nv V (nv_read_full T na i)"
    using L by (simp_all add: evolves_act)
qed

lemmas keep_rules = unchanged.evolves_intros keeps_checked sound_keeps

lemma plain_nullauth:
  assumes "tss_sound T V" and "r \<noteq> Ok ()"
  shows "nullauth_begin T w = (r, w') \<Longrightarrow> plain T r"
    and "nullauth_end T w = (r, w') \<Longrightarrow> plain T r"
    and "tr_set_auth T h a w = (r, w') \<Longrightarrow> plain T r"
proof -
  from assms have "law_plain_errors T" by (simp add: tss_sound_def)
  note L = this [unfolded law_plain_errors_def]
  show "plain T r" if "nullauth_begin T w = (r, w')"
    using L assms(2) that by (cases r) (auto dest: spec [of _ w])
  show "plain T r" if "nullauth_end T w = (r, w')"
    using L assms(2) that by (cases r) (auto dest: spec [of _ w])
  show "plain T r" if "tr_set_auth T h a w = (r, w')"
    using L assms(2) that by (cases r) (simp_all, metis fst_conv)
qed

text \<open>
  A closure run in a null-auth session: the session's own failures are plain and leave the
  indices, so a postcondition on result and indices that plain results meet carries over.
\<close>

lemma wp_with_nullauth:
  assumes S: "tss_sound T V"
    and start: "\<And>r. plain T r \<Longrightarrow> P r (nvs V w)"
    and f: "\<And>w1. nvs V w1 = nvs V w \<Longrightarrow> objs V w1 = objs V w \<Longrightarrow>
      wp f (\<lambda>r w2. P r (nvs V w2) \<and> (\<forall>r'. plain T r' \<longrightarrow> P r' (nvs V w2))) w1"
  shows "wp (with_nullauth T f) (\<lambda>r w'. P r (nvs V w')) w"
proof -
  have fin: "wp (andThen (nullauth_end T) (\<lambda>_. m)) (\<lambda>r w'. P r (nvs V w')) w2"
    if P: "P r (nvs V w2)" "\<forall>r'. plain T r' \<longrightarrow> P r' (nvs V w2)" and m: "m = ok x \<and> r = Ok x \<or> m = err e \<and> r = Err e"
    for m r x e w2
  proof -
    obtain r3 w3 where e: "nullauth_end T w2 = (r3, w3)" by fastforce
    then have "nvs V w3 = nvs V w2"
      using evolvesD [OF sound_keeps(4) [OF S]] by metis
    moreover have "plain T r3" if "r3 \<noteq> Ok ()"
      using plain_nullauth(2) [OF S that e] .
    ultimately show ?thesis
      using P m e by (cases r3) (auto simp: wp_simps wp_def [of "nullauth_end T"])
  qed
  obtain r1 w1 where b: "nullauth_begin T w = (r1, w1)" by fastforce
  then have w1: "nvs V w1 = nvs V w" "objs V w1 = objs V w"
    using S evolvesD [OF sound_keeps(3) [OF S]]
    by (auto simp: tss_sound_def law_keeps_objs_def dest: evolvesD)
  show ?thesis
  proof (cases r1)
    case (Ok u)
    obtain r2 w2 where 2: "f w1 = (r2, w2)" by fastforce
    then have P: "P r2 (nvs V w2)" "\<forall>r'. plain T r' \<longrightarrow> P r' (nvs V w2)"
      using f [OF w1] by (auto simp: wp_def)
    then show ?thesis
      using b Ok 2 fin [OF P]
      by (cases r2) (auto simp: with_nullauth_def wp_simps wp_def [of "nullauth_begin T"] wp_def [of f])
  next
    case (Err e)
    then have "plain_error T e" using plain_nullauth(1) [OF S _ b] by simp
    then show ?thesis
      using b Err w1 start by (simp add: with_nullauth_def wp_def andThen_def)
  next
    case (Panic s)
    then show ?thesis using b w1 start by (simp add: with_nullauth_def wp_def andThen_def)
  qed
qed

end
