(* ===== verification/SimTpm.thy ===== *)
theory SimTpm imports TpmLaws begin

text \<open>
  A small TPM that meets every law of \<open>TpmLaws\<close>: its state is the NV memory, the handles
  bound to indices with their authorisation values, one policy session and the session in use.
  It shows that the laws can hold together and is what the witnesses run on.  An index's ESYS
  handle is the index itself; the policy session's handle is outside the NV range.
\<close>

record sim =
  sim_nvs :: nv_map
  sim_auths :: "esys_tr \<Rightarrow> byte list option"
  sim_policy :: "policy_cmd list option"
  sim_session :: "esys_tr option"

definition nv_range :: "u32 \<Rightarrow> bool" where
  "nv_range i \<longleftrightarrow> 0x01000000 \<le> i \<and> i \<le> 0x01FFFFFF"

definition sim_session_handle :: esys_tr where "sim_session_handle = 0x03000000"

definition RC_HANDLE :: u32 where "RC_HANDLE = 0x18B"
definition RC_NV_UNINITIALIZED :: u32 where "RC_NV_UNINITIALIZED = 0x14A"
definition RC_AUTH_FAIL :: u32 where "RC_AUTH_FAIL = 0x98E"
definition RC_BAD_AUTH :: u32 where "RC_BAD_AUTH = 0x9A2"
definition RC_NV_DEFINED :: u32 where "RC_NV_DEFINED = 0x14C"
definition RC_NV_AUTHORIZATION :: u32 where "RC_NV_AUTHORIZATION = 0x149"

lemmas sim_rc_defs =
  RC_HANDLE_def RC_NV_UNINITIALIZED_def RC_AUTH_FAIL_def RC_BAD_AUTH_def RC_NV_DEFINED_def
  RC_NV_AUTHORIZATION_def

definition sim_rc_kind :: "u32 \<Rightarrow> rc_kind option" where
  "sim_rc_kind rc =
     (if rc = RC_HANDLE then Some RcHandle
      else if rc = RC_NV_UNINITIALIZED then Some RcNvUninitialized
      else if rc = RC_AUTH_FAIL then Some RcAuthFail
      else if rc = RC_BAD_AUTH then Some RcBadAuth
      else None)"

fun cmd_byte :: "policy_cmd \<Rightarrow> byte" where
  "cmd_byte (PcCommandCode CcNvWrite) = 1"
| "cmd_byte (PcCommandCode (CcOther n)) = 2"
| "cmd_byte (PcNvWritten False) = 3"
| "cmd_byte (PcNvWritten True) = 4"

definition sim_digest :: "policy_cmd list \<Rightarrow> digest" where
  "sim_digest cs = map cmd_byte cs"

definition sim_view :: "'z sim_scheme view" where
  "sim_view =
     \<lparr>nvs = (\<lambda>w i. if nv_range i then sim_nvs w i else None),
      objs = (\<lambda>w h. if nv_range h then map_option (\<lambda>a. (h, a)) (sim_auths w h) else None),
      pols = (\<lambda>w h. if h = sim_session_handle then sim_policy w else None),
      cur = sim_session,
      policy_digest = sim_digest\<rparr>"

definition sim_err :: "u32 \<Rightarrow> ('a, tss_error) res" where "sim_err rc = Err (Tss2Error rc)"

section \<open>Sessions\<close>

definition sim_context_new :: "string \<Rightarrow> ('z sim_scheme, unit, tss_error) eff" where
  "sim_context_new c w = (Ok (), w\<lparr>sim_auths := Map.empty, sim_policy := None, sim_session := None\<rparr>)"

definition sim_start_session :: "session_type \<Rightarrow> ('z sim_scheme, esys_tr option, tss_error) eff" where
  "sim_start_session st w = (Ok (Some sim_session_handle), w\<lparr>sim_policy := Some []\<rparr>)"

definition sim_add_policy :: "esys_tr \<Rightarrow> policy_cmd \<Rightarrow> ('z sim_scheme, unit, tss_error) eff" where
  "sim_add_policy s c w =
     (case pols sim_view w s of
        None \<Rightarrow> (sim_err RC_HANDLE, w)
      | Some cs \<Rightarrow> (Ok (), w\<lparr>sim_policy := Some (cs @ [c])\<rparr>))"

definition sim_get_digest :: "esys_tr \<Rightarrow> ('z sim_scheme, digest, tss_error) eff" where
  "sim_get_digest s w =
     (case pols sim_view w s of
        None \<Rightarrow> (sim_err RC_HANDLE, w)
      | Some cs \<Rightarrow> (Ok (sim_digest cs), w))"

definition sim_flush :: "esys_tr \<Rightarrow> ('z sim_scheme, unit, tss_error) eff" where
  "sim_flush s w = (Ok (), if s = sim_session_handle then w\<lparr>sim_policy := None\<rparr> else w)"

section \<open>NV memory\<close>

definition sim_tr_from :: "nv_handle \<Rightarrow> ('z sim_scheme, esys_tr, tss_error) eff" where
  "sim_tr_from i w =
     (if nvs sim_view w i = None then (sim_err RC_HANDLE, w)
      else (Ok i, w\<lparr>sim_auths := (sim_auths w)(i \<mapsto> [])\<rparr>))"

definition sim_set_auth :: "esys_tr \<Rightarrow> byte list \<Rightarrow> ('z sim_scheme, unit, tss_error) eff" where
  "sim_set_auth h a w =
     (if objs sim_view w h = None then (Ok (), w)
      else (Ok (), w\<lparr>sim_auths := (sim_auths w)(h \<mapsto> a)\<rparr>))"

definition sim_read_pin :: "nv_handle \<Rightarrow> byte list \<Rightarrow> nat \<Rightarrow> nat \<Rightarrow> ('z sim_scheme, byte list, tss_error) eff" where
  "sim_read_pin i a n off w =
     (case nvs sim_view w i of
        None \<Rightarrow> (sim_err RC_HANDLE, w)
      | Some e \<Rightarrow>
          (case entry_pin e of
             None \<Rightarrow> (sim_err RC_NV_UNINITIALIZED, w)
           | Some s \<Rightarrow>
               if \<not> auth_read (index_attributes (e_public e)) then (sim_err RC_NV_AUTHORIZATION, w)
               else if \<not> pin_open s then (sim_err RC_AUTH_FAIL, w)
               else if auth_eq (e_auth e) a then
                 (Ok (take n (drop off (to_bytes (s\<lparr>pinCount := 0\<rparr>)))),
                  w\<lparr>sim_nvs := (sim_nvs w)(i \<mapsto> set_pin (s\<lparr>pinCount := 0\<rparr>) e)\<rparr>)
               else
                 (sim_err RC_AUTH_FAIL,
                  w\<lparr>sim_nvs := (sim_nvs w)(i \<mapsto> set_pin (s\<lparr>pinCount := pinCount s + 1\<rparr>) e)\<rparr>)))"

definition sim_nv_read :: "nv_auth \<Rightarrow> esys_tr \<Rightarrow> nat \<Rightarrow> nat \<Rightarrow> ('z sim_scheme, byte list, tss_error) eff" where
  "sim_nv_read auth h n off w =
     (case objs sim_view w h of
        None \<Rightarrow> (sim_err RC_HANDLE, w)
      | Some (i, a) \<Rightarrow>
          (case auth of
             AuthOwner \<Rightarrow> (sim_err RC_NV_AUTHORIZATION, w)
           | AuthNvIndex _ \<Rightarrow> sim_read_pin i a n off w))"

definition sim_nv_read_full :: "nv_auth \<Rightarrow> nv_handle \<Rightarrow> ('z sim_scheme, byte list, tss_error) eff" where
  "sim_nv_read_full auth i w =
     (case nvs sim_view w i of
        None \<Rightarrow> (sim_err RC_HANDLE, w)
      | Some e \<Rightarrow>
          if \<not> owner_read (index_attributes (e_public e)) then (sim_err RC_NV_AUTHORIZATION, w)
          else
            (case e_data e of
               None \<Rightarrow> (sim_err RC_NV_UNINITIALIZED, w)
             | Some d \<Rightarrow> (Ok d, w)))"

definition sim_may_write :: "nv_auth \<Rightarrow> 'z sim_scheme \<Rightarrow> nv_entry \<Rightarrow> bool" where
  "sim_may_write auth w e =
     (case auth of
        AuthOwner \<Rightarrow> owner_write (index_attributes (e_public e))
      | AuthNvIndex _ \<Rightarrow>
          policy_write (index_attributes (e_public e)) \<and>
          (case sim_session w of
             None \<Rightarrow> False
           | Some s \<Rightarrow>
               (case pols sim_view w s of
                  None \<Rightarrow> False
                | Some cs \<Rightarrow>
                    sim_digest cs = index_auth_policy (e_public e) \<and>
                    list_all (\<lambda>c. policy_cmd_holds c e) cs)))"

definition old_data :: "nv_entry \<Rightarrow> byte list" where
  "old_data e =
     take (data_area_size (e_public e))
       ((case e_data e of None \<Rightarrow> [] | Some d \<Rightarrow> d) @ replicate (data_area_size (e_public e)) 0)"

definition sim_nv_write :: "nv_auth \<Rightarrow> esys_tr \<Rightarrow> byte list \<Rightarrow> nat \<Rightarrow> ('z sim_scheme, unit, tss_error) eff" where
  "sim_nv_write auth h d off w =
     (case objs sim_view w h of
        None \<Rightarrow> (sim_err RC_HANDLE, w)
      | Some (i, a) \<Rightarrow>
          (case nvs sim_view w i of
             None \<Rightarrow> (sim_err RC_HANDLE, w)
           | Some e \<Rightarrow>
               if sim_may_write auth w e \<and> off + length d \<le> data_area_size (e_public e) then
                 (Ok (), w\<lparr>sim_nvs := (sim_nvs w)(i \<mapsto>
                    e\<lparr>e_data := Some (take off (old_data e) @ d @ drop (off + length d) (old_data e))\<rparr>)\<rparr>)
               else (sim_err RC_NV_AUTHORIZATION, w)))"

definition sim_attributes_check :: "nv_attributes \<Rightarrow> tss_error option" where
  "sim_attributes_check at =
     (if (nv_index_type at = PinFail \<longrightarrow> no_da at) \<and> (auth_read at \<or> owner_read at) \<and>
         (owner_write at \<or> policy_write at) then None
      else Some (WrapperError InvalidParam))"

definition sim_index_check :: "u32 \<Rightarrow> tss_error option" where
  "sim_index_check v = (if nv_range v then None else Some (WrapperError InvalidParam))"

definition sim_define :: "byte list option \<Rightarrow> nv_public \<Rightarrow> ('z sim_scheme, unit, tss_error) eff" where
  "sim_define auth pub w =
     (if nv_range (nv_index pub) \<and> sim_nvs w (nv_index pub) = None \<and>
         sim_attributes_check (index_attributes pub) = None then
        (Ok (), w\<lparr>sim_nvs := (sim_nvs w)(nv_index pub \<mapsto> fresh_entry auth pub)\<rparr>)
      else (sim_err RC_NV_DEFINED, w))"

definition sim_undefine :: "esys_tr \<Rightarrow> ('z sim_scheme, unit, tss_error) eff" where
  "sim_undefine h w =
     (case objs sim_view w h of
        None \<Rightarrow> (sim_err RC_HANDLE, w)
      | Some (i, a) \<Rightarrow>
          if nvs sim_view w i = None then (sim_err RC_HANDLE, w)
          else (Ok (), w\<lparr>sim_nvs := (sim_nvs w)(i := None)\<rparr>))"

definition sim_tss :: "'z sim_scheme tss" where
  "sim_tss =
     \<lparr>tr = (\<lambda>key args. key),
      tss_text = (\<lambda>e. ''tpm''),
      rc_kind = sim_rc_kind,
      nv_index_check = sim_index_check,
      auth_check = (\<lambda>a. if length a \<le> 64 then None else Some (WrapperError InvalidParam)),
      max_nv_buffer_check = (\<lambda>d. if length d \<le> 2048 then None else Some (WrapperError InvalidParam)),
      attributes_check = sim_attributes_check,
      nv_public_check = (\<lambda>pub. None),
      policy_session_check = (\<lambda>s. None),
      tcti_check = (\<lambda>c. if c = [] then Some (WrapperError InvalidParam) else None),
      context_new = sim_context_new,
      ctx_clear_sessions = (\<lambda>w. w),
      nullauth_begin = ok (),
      nullauth_end = ok (),
      no_session_begin = (\<lambda>w. w),
      no_session_end = (\<lambda>w. w),
      session_begin = (\<lambda>s w. w\<lparr>sim_session := Some s\<rparr>),
      session_end = (\<lambda>w. w\<lparr>sim_session := None\<rparr>),
      start_auth_session = sim_start_session,
      tr_sess_set_attributes = (\<lambda>s. ok ()),
      policy_command_code = (\<lambda>s c. sim_add_policy s (PcCommandCode c)),
      policy_nv_written = (\<lambda>s b. sim_add_policy s (PcNvWritten b)),
      policy_get_digest = sim_get_digest,
      flush_context = sim_flush,
      tr_from_tpm_public = sim_tr_from,
      tr_set_auth = sim_set_auth,
      nv_read = sim_nv_read,
      nv_read_full = sim_nv_read_full,
      nv_write = sim_nv_write,
      nv_define_space = sim_define,
      nv_undefine_space = sim_undefine\<rparr>"

section \<open>It meets the laws\<close>

lemma sim_tss_sel [simp]:
  "tr sim_tss = (\<lambda>key args. key)" "tss_text sim_tss = (\<lambda>e. ''tpm'')"
  "rc_kind sim_tss = sim_rc_kind" "nv_index_check sim_tss = sim_index_check"
  "auth_check sim_tss = (\<lambda>a. if length a \<le> 64 then None else Some (WrapperError InvalidParam))"
  "max_nv_buffer_check sim_tss = (\<lambda>d. if length d \<le> 2048 then None else Some (WrapperError InvalidParam))"
  "attributes_check sim_tss = sim_attributes_check" "nv_public_check sim_tss = (\<lambda>pub. None)"
  "policy_session_check sim_tss = (\<lambda>s. None)"
  "tcti_check sim_tss = (\<lambda>c. if c = [] then Some (WrapperError InvalidParam) else None)"
  "context_new sim_tss = sim_context_new" "ctx_clear_sessions sim_tss = (\<lambda>w. w)"
  "nullauth_begin sim_tss = ok ()" "nullauth_end sim_tss = ok ()"
  "no_session_begin sim_tss = (\<lambda>w. w)" "no_session_end sim_tss = (\<lambda>w. w)"
  "session_begin sim_tss = (\<lambda>s w. w\<lparr>sim_session := Some s\<rparr>)"
  "session_end sim_tss = (\<lambda>w. w\<lparr>sim_session := None\<rparr>)"
  "start_auth_session sim_tss = sim_start_session"
  "tr_sess_set_attributes sim_tss = (\<lambda>s. ok ())"
  "policy_command_code sim_tss = (\<lambda>s c. sim_add_policy s (PcCommandCode c))"
  "policy_nv_written sim_tss = (\<lambda>s b. sim_add_policy s (PcNvWritten b))"
  "policy_get_digest sim_tss = sim_get_digest" "flush_context sim_tss = sim_flush"
  "tr_from_tpm_public sim_tss = sim_tr_from" "tr_set_auth sim_tss = sim_set_auth"
  "nv_read sim_tss = sim_nv_read" "nv_read_full sim_tss = sim_nv_read_full"
  "nv_write sim_tss = sim_nv_write" "nv_define_space sim_tss = sim_define"
  "nv_undefine_space sim_tss = sim_undefine"
  by (simp_all add: sim_tss_def)

lemma sim_view_sel [simp]:
  "nvs sim_view = (\<lambda>w i. if nv_range i then sim_nvs w i else None)"
  "objs sim_view = (\<lambda>w h. if nv_range h then map_option (\<lambda>a. (h, a)) (sim_auths w h) else None)"
  "pols sim_view = (\<lambda>w h. if h = sim_session_handle then sim_policy w else None)"
  "cur sim_view = sim_session" "policy_digest sim_view = sim_digest"
  by (simp_all add: sim_view_def)

lemma session_handle_range [simp]: "\<not> nv_range sim_session_handle"
  by (simp add: nv_range_def sim_session_handle_def)

lemma sim_err_sel [simp]: "sim_err rc = Err (Tss2Error rc)"
  by (simp add: sim_err_def)

lemma sim_rc_kind_simps [simp]:
  "sim_rc_kind RC_HANDLE = Some RcHandle" "sim_rc_kind RC_NV_UNINITIALIZED = Some RcNvUninitialized"
  "sim_rc_kind RC_AUTH_FAIL = Some RcAuthFail" "sim_rc_kind RC_BAD_AUTH = Some RcBadAuth"
  "sim_rc_kind RC_NV_DEFINED = None" "sim_rc_kind RC_NV_AUTHORIZATION = None"
  by (simp_all add: sim_rc_kind_def sim_rc_defs)

lemmas sim_calls =
  sim_context_new_def sim_start_session_def sim_add_policy_def sim_get_digest_def sim_flush_def
  sim_tr_from_def sim_set_auth_def sim_nv_read_def sim_read_pin_def sim_nv_read_full_def sim_nv_write_def
  sim_define_def sim_undefine_def

lemma upd_range:
  "nv_range j \<Longrightarrow> (\<lambda>i. if nv_range i then (N(j := x)) i else None) =
     (\<lambda>i. if nv_range i then N i else None)(j := x)"
  by auto

lemma sim_keeps_nv: "law_keeps_nv sim_tss sim_view"
  unfolding law_keeps_nv_def
  by (intro conjI allI)
    (auto simp: evolves_def sim_context_new_def sim_start_session_def sim_add_policy_def
      sim_get_digest_def sim_flush_def sim_tr_from_def sim_set_auth_def sim_nv_read_full_def ok_def
      fun_eq_iff split: option.splits if_splits)

lemma sim_keeps_objs: "law_keeps_objs sim_tss sim_view"
  by (auto simp: law_keeps_objs_def evolves_def ok_def fun_eq_iff)

lemma sim_plain_errors: "law_plain_errors sim_tss"
  by (simp add: law_plain_errors_def plain_error_def ok_def sim_set_auth_def)

lemma sim_handles: "law_handles sim_tss sim_view"
  unfolding law_handles_def
  by (auto simp: wp_def sim_tr_from_def sim_set_auth_def fun_eq_iff split: if_splits option.splits)

lemma sim_nv_read: "law_nv_read sim_tss sim_view"
  unfolding law_nv_read_def
proof (intro allI impI)
  fix h i a w
  assume h: "objs sim_view w h = Some (i, a)"
    and pin: "\<forall>e. nvs sim_view w i = Some e \<longrightarrow> is_pin_entry e"
  from h have i: "nv_range i" "h = i" by (auto split: if_splits)
  have full: "take PIN_DATA_SIZE (drop 0 (to_bytes s)) = to_bytes s" for s
    by (simp add: PIN_DATA_SIZE_def)
  show "wp (nv_read sim_tss (AuthNvIndex h) h PIN_DATA_SIZE 0)
     (\<lambda>r w'. read_outcome sim_tss a i (nvs sim_view w) (nvs sim_view w') r) w"
    using h i unfolding wp_def
    by (auto simp: sim_nv_read_def sim_read_pin_def upd_range full read_outcome_def pin_accept_def
        pin_reject_def pin_refuse_def set_pin_def simp del: drop0 split: option.splits)
qed

lemma sim_nv_read_full: "law_nv_read_full sim_tss sim_view"
  unfolding law_nv_read_full_def
  by (auto simp: wp_def sim_nv_read_full_def split: option.splits)

lemma sim_nv_space: "law_nv_space sim_tss sim_view"
  unfolding law_nv_space_def
  by (auto simp: wp_def sim_define_def sim_undefine_def upd_range Let_def
      split: option.splits if_splits)

lemma length_old_data [simp]: "length (old_data e) = data_area_size (e_public e)"
  by (simp add: old_data_def)

lemma sim_may_write_iff: "sim_may_write auth w e = may_write sim_view auth w e"
  by (auto simp: sim_may_write_def may_write_def list_all_iff split: nv_auth.splits option.splits)

lemma nvs_upd:
  "nv_range i \<Longrightarrow> nvs sim_view (w\<lparr>sim_nvs := (sim_nvs w)(i := x)\<rparr>) = (nvs sim_view w)(i := x)"
  by (auto simp: fun_eq_iff)

lemma objs_index: "objs sim_view w h = Some (i, a) \<Longrightarrow> nv_range i \<and> h = i"
  by (auto split: if_splits)

lemma sim_nv_write: "law_nv_write sim_tss sim_view"
  unfolding law_nv_write_def
proof (intro allI impI)
  fix auth h i a and d :: "byte list" and w assume h: "objs sim_view w h = Some (i, a)"
  note i = objs_index [OF h]
  define ok_write where "ok_write = (\<lambda>e. may_write sim_view auth w e \<and> length d \<le> data_area_size (e_public e))"
  show "wp (nv_write sim_tss auth h d 0)
     (\<lambda>r w'. let N = nvs sim_view w;
        done = (\<exists>e. N i = Some e \<and> may_write sim_view auth w e \<and> length d \<le> data_area_size (e_public e) \<and>
          (\<exists>d'. nvs sim_view w' = N(i \<mapsto> e\<lparr>e_data := Some d'\<rparr>) \<and>
             length d' = data_area_size (e_public e) \<and> take (length d) d' = d))
        in (r = Ok () \<longrightarrow> done) \<and> (nvs sim_view w' = N \<or> done)) w"
  proof (cases "\<exists>e. nvs sim_view w i = Some e \<and> ok_write e")
    case True
    then obtain e where e: "nvs sim_view w i = Some e" "ok_write e" by blast
    let ?d = "d @ drop (length d) (old_data e)"
    have "sim_nv_write auth h d 0 w = (Ok (), w\<lparr>sim_nvs := (sim_nvs w)(i \<mapsto> e\<lparr>e_data := Some ?d\<rparr>)\<rparr>)"
      using h e by (simp add: sim_nv_write_def sim_may_write_iff ok_write_def del: sim_view_sel)
    then show ?thesis
      using e i nvs_upd [of i w "Some (e\<lparr>e_data := Some ?d\<rparr>)"]
      by (auto simp: wp_def Let_def ok_write_def simp del: sim_view_sel intro!: exI [of _ ?d])
  next
    case False
    then have "\<exists>rc. sim_nv_write auth h d 0 w = (Err (Tss2Error rc), w)"
      using h by (auto simp: sim_nv_write_def sim_may_write_iff ok_write_def
          simp del: sim_view_sel split: option.splits)
    then show ?thesis by (auto simp: wp_def)
  qed
qed

theorem sim_sound: "tss_sound sim_tss sim_view"
  unfolding tss_sound_def
  by (intro conjI sim_keeps_nv sim_keeps_objs sim_plain_errors sim_handles sim_nv_read
      sim_nv_read_full sim_nv_space sim_nv_write)

lemma sim_live_checks: "live_checks sim_tss"
  by (auto simp: live_checks_def sim_index_check_def nv_range_def word_le_nat_alt
      sim_attributes_check_def)

lemma sim_live_sessions: "live_sessions sim_tss sim_view"
  unfolding live_sessions_def
  by (intro conjI allI impI)
    (auto simp: wp_def sim_context_new_def sim_start_session_def sim_add_policy_def sim_get_digest_def
      sim_flush_def ok_def fun_eq_iff split: if_splits)

lemma sim_live_handles: "live_handles sim_tss sim_view"
  unfolding live_handles_def
  by (intro conjI allI impI) (auto simp: wp_def sim_tr_from_def sim_set_auth_def split: if_splits)

lemma sim_live_read:
  assumes h: "objs sim_view w h = Some (i, a)" and e: "nvs sim_view w i = Some e"
    and r: "auth_read (index_attributes (e_public e))" and s: "entry_pin e = Some s"
  shows "wp (nv_read sim_tss (AuthNvIndex h) h PIN_DATA_SIZE 0)
    (\<lambda>r w'. (auth_eq (e_auth e) a \<and> pin_open s \<longrightarrow> (\<exists>d. r = Ok d)) \<and>
       (\<not> (auth_eq (e_auth e) a \<and> pin_open s) \<longrightarrow>
          (\<exists>rc. r = Err (Tss2Error rc) \<and>
             rc_kind sim_tss rc \<in> {Some RcAuthFail, Some RcBadAuth}))) w"
  using assms by (simp add: wp_def sim_nv_read_def sim_read_pin_def del: sim_view_sel)

lemma sim_live_nv: "live_nv sim_tss sim_view"
  unfolding live_nv_def
proof (intro conjI)
  show "\<forall>h i a e s w. objs sim_view w h = Some (i, a) \<longrightarrow> nvs sim_view w i = Some e \<longrightarrow> is_pin_entry e \<longrightarrow>
        auth_read (index_attributes (e_public e)) \<longrightarrow> entry_pin e = Some s \<longrightarrow>
        wp (nv_read sim_tss (AuthNvIndex h) h PIN_DATA_SIZE 0)
          (\<lambda>r w'. (auth_eq (e_auth e) a \<and> pin_open s \<longrightarrow> (\<exists>d. r = Ok d)) \<and>
             (\<not> (auth_eq (e_auth e) a \<and> pin_open s) \<longrightarrow>
                (\<exists>rc. r = Err (Tss2Error rc) \<and>
                   rc_kind sim_tss rc \<in> {Some RcAuthFail, Some RcBadAuth}))) w"
    using sim_live_read by blast
next
  show "\<forall>i w. wp (nv_read_full sim_tss AuthOwner i)
        (\<lambda>r w'. (\<forall>e d. nvs sim_view w i = Some e \<longrightarrow> owner_read (index_attributes (e_public e)) \<longrightarrow>
              e_data e = Some d \<longrightarrow> r = Ok d) \<and>
           ((\<forall>e. nvs sim_view w i = Some e \<longrightarrow>
                owner_read (index_attributes (e_public e)) \<and> e_data e = None) \<longrightarrow>
              (\<exists>rc. r = Err (Tss2Error rc) \<and>
                 rc_kind sim_tss rc \<in> {Some RcHandle, Some RcNvUninitialized}))) w"
    by (auto simp: wp_def sim_nv_read_full_def split: option.splits)
next
  show "\<forall>auth pub w. wp (nv_define_space sim_tss auth pub)
        (\<lambda>r w'. (nvs sim_view w (nv_index pub) = None \<longrightarrow>
              nv_index_check sim_tss (nv_index pub) = None \<longrightarrow>
              attributes_check sim_tss (index_attributes pub) = None \<longrightarrow> r = Ok ()) \<and>
           (nvs sim_view w (nv_index pub) \<noteq> None \<longrightarrow> (\<exists>e. r = Err e))) w"
    by (auto simp: wp_def sim_define_def sim_index_check_def split: if_splits)
next
  show "\<forall>h i a w. objs sim_view w h = Some (i, a) \<longrightarrow> nvs sim_view w i \<noteq> None \<longrightarrow>
        fst (nv_undefine_space sim_tss h w) = Ok ()"
    by (simp add: sim_undefine_def del: sim_view_sel)
next
  show "\<forall>auth h i a e d w. objs sim_view w h = Some (i, a) \<longrightarrow> nvs sim_view w i = Some e \<longrightarrow>
        may_write sim_view auth w e \<longrightarrow> length d \<le> data_area_size (e_public e) \<longrightarrow>
        fst (nv_write sim_tss auth h d 0 w) = Ok ()"
    by (simp add: sim_nv_write_def sim_may_write_iff del: sim_view_sel)
qed

theorem sim_live: "tss_live sim_tss sim_view"
  unfolding tss_live_def
  by (intro conjI sim_sound sim_live_checks sim_live_sessions sim_live_handles sim_live_nv)

end
