(* ===== verification/Utf8.thy ===== *)
theory Utf8 imports RustStrings begin

text \<open>
  UTF-8 as Rust's standard library reads it: which byte strings are valid (\<open>CStr::to_str\<close>),
  and the replacing decoder \<open>String::from_utf8_lossy\<close>.
\<close>

text \<open>
  The next character of a byte string: its length, and whether it is valid.  An invalid one is the
  longest start of a character that the following bytes do not complete.
\<close>

definition byte_in :: "nat \<Rightarrow> nat \<Rightarrow> string \<Rightarrow> nat \<Rightarrow> bool" where
  "byte_in lo hi s k \<longleftrightarrow> k < length s \<and> lo \<le> of_char (s ! k) \<and> of_char (s ! k) \<le> hi"

definition utf8_next :: "string \<Rightarrow> nat \<times> bool" where
  "utf8_next s =
     (let first = (\<lambda>lo hi. byte_in lo hi s 0); cont = byte_in 0x80 0xBF s in
      if first 0 0x7F then (1, True)
      else if first 0xC2 0xDF then (if cont 1 then (2, True) else (1, False))
      else if first 0xE0 0xEF then
        (if \<not> (if first 0xE0 0xE0 then byte_in 0xA0 0xBF s 1
               else if first 0xED 0xED then byte_in 0x80 0x9F s 1
               else cont 1) then (1, False)
         else if cont 2 then (3, True) else (2, False))
      else if first 0xF0 0xF4 then
        (if \<not> (if first 0xF0 0xF0 then byte_in 0x90 0xBF s 1
               else if first 0xF4 0xF4 then byte_in 0x80 0x8F s 1
               else cont 1) then (1, False)
         else if \<not> cont 2 then (2, False)
         else if cont 3 then (4, True) else (3, False))
      else (1, False))"

lemma utf8_next_pos: "0 < fst (utf8_next s)"
  by (simp add: utf8_next_def Let_def)

lemma drop_next: "s \<noteq> [] \<Longrightarrow> length (drop (fst (utf8_next s)) s) < length s"
  using utf8_next_pos [of s] by (cases s) auto

function valid_utf8 :: "string \<Rightarrow> bool" where
  "valid_utf8 s =
     (if s = [] then True
      else if snd (utf8_next s) then valid_utf8 (drop (fst (utf8_next s)) s)
      else False)"
  by pat_completeness auto
termination by (relation "measure length") (use drop_next in auto)

definition replacement :: string where "replacement = [CHR 0xEF, CHR 0xBF, CHR 0xBD]"

function from_utf8_lossy :: "string \<Rightarrow> string" where
  "from_utf8_lossy s =
     (if s = [] then []
      else
        (if snd (utf8_next s) then take (fst (utf8_next s)) s else replacement) @
        from_utf8_lossy (drop (fst (utf8_next s)) s))"
  by pat_completeness auto
termination by (relation "measure length") (use drop_next in auto)

declare valid_utf8.simps [simp del] from_utf8_lossy.simps [simp del]

lemma lossy_valid: "valid_utf8 s \<Longrightarrow> from_utf8_lossy s = s"
proof (induction s rule: valid_utf8.induct)
  case (1 s)
  show ?case
  proof (cases "s = []")
    case False
    then have "snd (utf8_next s)" "valid_utf8 (drop (fst (utf8_next s)) s)"
      using 1(2) valid_utf8.simps [of s] by (auto split: if_splits)
    then show ?thesis using 1(1) [OF False] False by (subst from_utf8_lossy.simps) simp
  qed (simp add: from_utf8_lossy.simps)
qed

text \<open>ASCII text is valid.\<close>

lemma utf8_ascii: "valid_utf8 s" if "\<forall>c \<in> set s. (of_char c :: nat) < 0x80"
  using that
proof (induction s)
  case (Cons c s)
  then have "utf8_next (c # s) = (1, True)" by (simp add: utf8_next_def byte_in_def Let_def)
  then show ?case using Cons by (subst valid_utf8.simps) simp
qed (simp add: valid_utf8.simps)

end
