(* ===== verification/PinError.thy ===== *)
theory PinError imports Tss begin

text \<open>
  \<open>pinpam-core/src/pinerror.rs\<close>: the error type of every operation, the results of
  verification and authenticated deletion, the conversion from TSS errors, and the messages
  (\<open>Display\<close>) through the translation table \<^const>\<open>tr\<close>.
\<close>

datatype verification_result =
  VerifySuccess pin_data
| VerifyInvalid bool
| VerifyLockedOut

datatype delete_result =
  DeleteSuccess
| DeleteInvalid bool
| DeleteLockedOut

datatype pin_error =
  UserNotFound
| PermissionDenied
| PinAlreadySet
| NoPinSet
| PinsDontMatch
| PinIsLocked
| IncorrectPin bool
| PinIsEmpty
| PinContainsNonDigits
| GetUsernameForUidFailed u32
| CannotDeletePin delete_result
| PinTooShort nat nat
| PinTooLong nat nat
| AlreadyProvisioned u32
| UidOverflow u32
| NotProvisioned u32
| TpmError string
| IoError string
| TermIoError string
| PinutilOutputDecodeError string

definition from_tss :: "('w, 'z) tss_scheme \<Rightarrow> tss_error \<Rightarrow> pin_error" where
  "from_tss T e = TpmError (tss_text T e)"

text \<open>\<open>io::Error\<close> and \<open>Errno\<close> come as their messages.\<close>

definition from_io :: "string \<Rightarrow> pin_error" where
  "from_io e = IoError e"

definition from_errno :: "string \<Rightarrow> pin_error" where
  "from_errno e = TermIoError e"

fun show_delete_result :: "('w, 'z) tss_scheme \<Rightarrow> delete_result \<Rightarrow> string" where
  "show_delete_result T DeleteSuccess = tr T ''pin_del_success'' []"
| "show_delete_result T (DeleteInvalid False) = tr T ''pin_del_invalid'' []"
| "show_delete_result T (DeleteInvalid True) = tr T ''pin_del_invalid_locked'' []"
| "show_delete_result T DeleteLockedOut = tr T ''pin_del_locked_out'' []"

definition show_u32 :: "u32 \<Rightarrow> string" where
  "show_u32 n = show_nat (unat n)"

fun show_pin_error :: "('w, 'z) tss_scheme \<Rightarrow> pin_error \<Rightarrow> string" where
  "show_pin_error T UserNotFound = tr T ''user_not_found'' []"
| "show_pin_error T PermissionDenied = tr T ''permission_denied'' []"
| "show_pin_error T PinAlreadySet = tr T ''pin_already_set'' []"
| "show_pin_error T NoPinSet = tr T ''no_pin_set'' []"
| "show_pin_error T PinsDontMatch = tr T ''pins_dont_match'' []"
| "show_pin_error T PinIsLocked = tr T ''pin_is_locked'' []"
| "show_pin_error T (IncorrectPin False) = tr T ''incorrect_pin'' []"
| "show_pin_error T (IncorrectPin True) = tr T ''incorrect_pin_locked'' []"
| "show_pin_error T PinIsEmpty = tr T ''pin_is_empty'' []"
| "show_pin_error T PinContainsNonDigits = tr T ''pin_contains_non_digits'' []"
| "show_pin_error T (GetUsernameForUidFailed uid) =
     tr T ''get_username_failed'' [(''uid'', show_u32 uid)]"
| "show_pin_error T (CannotDeletePin e) =
     tr T ''cannot_delete_pin'' [(''error'', show_delete_result T e)]"
| "show_pin_error T (PinTooShort _ limit) = tr T ''pin_too_short'' [(''limit'', show_nat limit)]"
| "show_pin_error T (PinTooLong _ limit) = tr T ''pin_too_long'' [(''limit'', show_nat limit)]"
| "show_pin_error T (AlreadyProvisioned uid) =
     tr T ''already_provisioned'' [(''uid'', show_u32 uid)]"
| "show_pin_error T (UidOverflow uid) = tr T ''uid_overflow'' [(''uid'', show_u32 uid)]"
| "show_pin_error T (NotProvisioned uid) = tr T ''not_provisioned'' [(''uid'', show_u32 uid)]"
| "show_pin_error T (TpmError e) = tr T ''tpm_error'' [(''error'', e)]"
| "show_pin_error T (IoError e) = tr T ''io_error'' [(''error'', e)]"
| "show_pin_error T (TermIoError e) = tr T ''term_io_error'' [(''error'', e)]"
| "show_pin_error T (PinutilOutputDecodeError e) = tr T ''pinutil_decode_error'' [(''error'', e)]"

text \<open>\<open>m?\<close> where \<open>m\<close> fails with a TSS error.\<close>

abbreviation liftTss ::
  "('w, 'z) tss_scheme \<Rightarrow> ('w, 'a, tss_error) eff \<Rightarrow> ('w, 'a, pin_error) eff"
where
  "liftTss T \<equiv> mapErr (from_tss T)"

end
