(* ===== verification/PinPolicy.thy ===== *)
theory PinPolicy imports PinError begin

text \<open>
  \<open>pinpam-core/src/pinpolicy.rs\<close>, \<open>tcti.rs\<close> and \<open>pin.rs\<close>: the policy, its
  configuration language, the security checks on the policy file, and the canonical PIN.
  The file system of Rust's standard library is the record \<open>file_sys\<close>: what \<open>File::open\<close>
  with \<open>metadata\<close> and \<open>read_to_string\<close>, and \<open>fs::metadata\<close>, answer for each path.
\<close>

section \<open>Backend selection\<close>

definition DEFAULT_TCTI_SPEC :: string where "DEFAULT_TCTI_SPEC = ''device:/dev/tpmrm0''"

definition parse_tcti_spec :: "('w, 'z) tss_scheme \<Rightarrow> string \<Rightarrow> (string, pin_error) res" where
  "parse_tcti_spec T spec =
     (case tcti_check T spec of None \<Rightarrow> Ok spec | Some e \<Rightarrow> Err (from_tss T e))"

section \<open>The policy\<close>

record pin_policy =
  min_length :: nat
  max_length :: "nat option"
  max_attempts :: u32
  pinutil_path :: string
  tcti :: "string option"

definition default_policy :: pin_policy where
  "default_policy =
     \<lparr>min_length = 4, max_length = Some 8, max_attempts = 3,
      pinutil_path = DEFAULT_PINUTIL_PATH, tcti = None\<rparr>"

definition invalid_param :: "('w, 'z) tss_scheme \<Rightarrow> pin_error" where
  "invalid_param T = from_tss T (WrapperError InvalidParam)"

definition missing_param :: "('w, 'z) tss_scheme \<Rightarrow> pin_error" where
  "missing_param T = from_tss T (WrapperError ParamsMissing)"

definition policy_new :: "nat \<Rightarrow> nat option \<Rightarrow> u32 \<Rightarrow> string \<Rightarrow> pin_policy" where
  "policy_new mn mx attempts path =
     \<lparr>min_length = mn, max_length = mx, max_attempts = attempts,
      pinutil_path = path, tcti = None\<rparr>"

definition tcti_spec :: "pin_policy \<Rightarrow> string" where
  "tcti_spec p = (case tcti p of Some s \<Rightarrow> s | None \<Rightarrow> DEFAULT_TCTI_SPEC)"

definition validate :: "pin_policy \<Rightarrow> string \<Rightarrow> (unit, pin_error) res" where
  "validate p pin =
     (if pin = [] then Err PinIsEmpty
      else if length pin < min_length p then Err (PinTooShort (length pin) (min_length p))
      else
        (case max_length p of
           Some max_len \<Rightarrow>
             if max_len < length pin then Err (PinTooLong (length pin) max_len) else Ok ()
         | None \<Rightarrow> Ok ()))"

section \<open>The file system\<close>

record metadata =
  is_file :: bool
  md_uid :: u32
  md_mode :: u32

record open_file =
  file_metadata :: "metadata option"
  file_text :: "string option"

record file_sys =
  fs_open :: "string \<Rightarrow> open_file option"
  fs_metadata :: "string \<Rightarrow> metadata option"

section \<open>Settings\<close>

text \<open>\<open>Path::is_absolute\<close> on Unix.\<close>

fun is_absolute :: "string \<Rightarrow> bool" where
  "is_absolute [] = False"
| "is_absolute (c # _) = (c = CHR ''/'')"

definition parse_tcti_setting ::
  "('w, 'z) tss_scheme \<Rightarrow> string \<Rightarrow> (string, pin_error) res"
where
  "parse_tcti_setting T value =
     (if value = [] then Err (invalid_param T)
      else
        (case parse_tcti_spec T value of
           Ok _ \<Rightarrow> Ok value
         | Err e \<Rightarrow> Err e
         | Panic s \<Rightarrow> Panic s))"

definition parse_pinutil_path ::
  "('w, 'z) tss_scheme \<Rightarrow> file_sys \<Rightarrow> string \<Rightarrow> (string, pin_error) res"
where
  "parse_pinutil_path T fs value =
     (if \<not> is_absolute value then Err (invalid_param T)
      else
        (case fs_metadata fs value of
           Some md \<Rightarrow> if is_file md then Ok value else Err (invalid_param T)
         | None \<Rightarrow> Err (invalid_param T)))"

definition parse_setting ::
  "('w, 'z) tss_scheme \<Rightarrow> file_sys \<Rightarrow> string \<Rightarrow> string \<Rightarrow> pin_policy \<Rightarrow> (pin_policy, pin_error) res"
where
  "parse_setting T fs key val p =
     (if key = ''pin_min_length'' then
        (case parse_uint (2 ^ 64) val of
           Some n \<Rightarrow> Ok (p\<lparr>min_length := n\<rparr>)
         | None \<Rightarrow> Err (invalid_param T))
      else if key = ''pin_max_length'' then
        (case parse_uint (2 ^ 64) val of
           Some n \<Rightarrow> Ok (p\<lparr>max_length := Some n\<rparr>)
         | None \<Rightarrow> Err (invalid_param T))
      else if key = ''pin_lockout_max_attempts'' then
        (case parse_uint (2 ^ 32) val of
           Some n \<Rightarrow> Ok (p\<lparr>max_attempts := of_nat n\<rparr>)
         | None \<Rightarrow> Err (invalid_param T))
      else if key = ''pinutil_path'' then
        (case parse_pinutil_path T fs val of
           Ok path \<Rightarrow> Ok (p\<lparr>pinutil_path := path\<rparr>)
         | Err e \<Rightarrow> Err e
         | Panic s \<Rightarrow> Panic s)
      else if key = ''tcti'' then
        (case parse_tcti_setting T val of
           Ok spec \<Rightarrow> Ok (p\<lparr>tcti := Some spec\<rparr>)
         | Err e \<Rightarrow> Err e
         | Panic s \<Rightarrow> Panic s)
      else Ok p)"

fun parse_parts ::
  "('w, 'z) tss_scheme \<Rightarrow> file_sys \<Rightarrow> pin_policy \<Rightarrow> string list \<Rightarrow> (pin_policy, pin_error) res"
where
  "parse_parts T fs p [] = Ok p"
| "parse_parts T fs p (part # parts) =
     (case split_once (CHR ''='') part of
        None \<Rightarrow> Err (missing_param T)
      | Some (key, val) \<Rightarrow>
          (case parse_setting T fs key val p of
             Ok p' \<Rightarrow> parse_parts T fs p' parts
           | Err e \<Rightarrow> Err e
           | Panic s \<Rightarrow> Panic s))"

definition parse_config ::
  "('w, 'z) tss_scheme \<Rightarrow> file_sys \<Rightarrow> string \<Rightarrow> (pin_policy, pin_error) res"
where
  "parse_config T fs config = parse_parts T fs default_policy (split_whitespace config)"

section \<open>Loading the policy file\<close>

definition metadata_is_secure :: "metadata \<Rightarrow> bool" where
  "metadata_is_secure md =
     (if md_uid md \<noteq> 0 then False
      else
        (let mode = md_mode md AND 0x1FF in
         if mode AND 0x5B \<noteq> 0 then False else True))"

definition read_policy_if_secure :: "file_sys \<Rightarrow> string \<Rightarrow> string option" where
  "read_policy_if_secure fs path =
     (case fs_open fs path of
        None \<Rightarrow> None
      | Some f \<Rightarrow>
          (case file_metadata f of
             None \<Rightarrow> None
           | Some md \<Rightarrow>
               if \<not> is_file md then None
               else if \<not> metadata_is_secure md then None
               else file_text f))"

definition load_from_path :: "('w, 'z) tss_scheme \<Rightarrow> file_sys \<Rightarrow> string \<Rightarrow> pin_policy option" where
  "load_from_path T fs path =
     (case read_policy_if_secure fs path of
        None \<Rightarrow> None
      | Some config \<Rightarrow>
          (case parse_config T fs config of Ok p \<Rightarrow> Some p | Err _ \<Rightarrow> None | Panic _ \<Rightarrow> None))"

definition POLICY_PATHS :: "string list" where "POLICY_PATHS = [''/etc/pinpam/policy'']"

fun load_first :: "('w, 'z) tss_scheme \<Rightarrow> file_sys \<Rightarrow> string list \<Rightarrow> pin_policy" where
  "load_first T fs [] = default_policy"
| "load_first T fs (path # paths) =
     (case load_from_path T fs path of Some p \<Rightarrow> p | None \<Rightarrow> load_first T fs paths)"

definition load_from_standard_locations :: "('w, 'z) tss_scheme \<Rightarrow> file_sys \<Rightarrow> pin_policy" where
  "load_from_standard_locations T fs = load_first T fs POLICY_PATHS"

text \<open>\<open>cached\<close>: the first call loads, later ones return the stored policy.\<close>

definition cached ::
  "('w, 'z) tss_scheme \<Rightarrow> file_sys \<Rightarrow> pin_policy option \<Rightarrow> pin_policy \<times> pin_policy option"
where
  "cached T fs cell =
     (case cell of
        Some p \<Rightarrow> (p, Some p)
      | None \<Rightarrow> (let p = load_from_standard_locations T fs in (p, Some p)))"

section \<open>The canonical PIN\<close>

text \<open>\<open>struct Pin(String)\<close>: a PIN is its text; only \<open>Pin::new\<close> makes one.\<close>

type_synonym pin = string

definition pin_new :: "string \<Rightarrow> pin_policy \<Rightarrow> (pin, pin_error) res" where
  "pin_new input policy =
     (let normalized = trim input in
      case validate policy normalized of
        Ok _ \<Rightarrow> Ok normalized
      | Err e \<Rightarrow> Err e
      | Panic s \<Rightarrow> Panic s)"

definition pin_as_bytes :: "pin \<Rightarrow> byte list" where
  "pin_as_bytes pin = as_bytes pin"

section \<open>Properties\<close>

lemma validate_Ok_iff:
  "validate p pin = Ok u \<longleftrightarrow> pin \<noteq> [] \<and> min_length p \<le> length pin \<and>
     (case max_length p of None \<Rightarrow> True | Some m \<Rightarrow> length pin \<le> m)"
  by (auto simp: validate_def split: option.splits)

text \<open>C37: A \<open>Pin\<close> is made from exactly the inputs whose trimmed text is not empty and within the
  policy's length bounds, and it is that text; making it again from itself changes nothing.\<close>
theorem pin_new_spec:
  "(pin_new input p = Ok pin \<longleftrightarrow>
     pin = trim input \<and> pin \<noteq> [] \<and> min_length p \<le> length pin \<and>
     (case max_length p of None \<Rightarrow> True | Some m \<Rightarrow> length pin \<le> m)) \<and>
   pin_new (trim input) p = pin_new input p"
proof -
  have "pin_new input p = Ok pin \<longleftrightarrow> pin = trim input \<and> (\<exists>u. validate p (trim input) = Ok u)"
    by (auto simp: pin_new_def Let_def split: res.splits)
  then show ?thesis by (auto simp: validate_Ok_iff pin_new_def)
qed

text \<open>Which error a rejected PIN gets.\<close>

lemma pin_new_errors:
  "pin_new input p =
     (if trim input = [] then Err PinIsEmpty
      else if length (trim input) < min_length p then Err (PinTooShort (length (trim input)) (min_length p))
      else case max_length p of
             None \<Rightarrow> Ok (trim input)
           | Some m \<Rightarrow> if m < length (trim input) then Err (PinTooLong (length (trim input)) m) else Ok (trim input))"
  by (simp add: pin_new_def validate_def Let_def split: option.splits)

lemma parse_append:
  "parse_parts T fs p (xs @ ys) =
     (case parse_parts T fs p xs of
        Ok p' \<Rightarrow> parse_parts T fs p' ys | Err e \<Rightarrow> Err e | Panic s \<Rightarrow> Panic s)"
  by (induction xs arbitrary: p) (simp_all split: option.splits res.splits prod.splits)

text \<open>In a policy text the last valid setting of a key wins over earlier ones: a decimal minimum
  length put after any valid settings is the minimum length in force, the other fields kept.\<close>
lemma last_setting_wins:
  assumes "parse_parts T fs default_policy parts = Ok p" and "n < 2 ^ 64"
  shows "parse_parts T fs default_policy (parts @ [''pin_min_length='' @ show_nat n]) = Ok (p\<lparr>min_length := n\<rparr>)"
proof -
  have "split_once (CHR ''='') (''pin_min_length='' @ show_nat n) = Some (''pin_min_length'', show_nat n)"
    using split_once_append [of "CHR ''=''" "''pin_min_length''" "show_nat n"] by simp
  then show ?thesis
    using assms decimal.dec_enc [of n "2 ^ 64"] by (simp add: parse_append parse_setting_def)
qed

text \<open>The helper path of a policy is the built-in one or an absolute path of a file.\<close>

definition path_checked :: "file_sys \<Rightarrow> pin_policy \<Rightarrow> bool" where
  "path_checked fs p \<longleftrightarrow>
     pinutil_path p = DEFAULT_PINUTIL_PATH \<or>
     is_absolute (pinutil_path p) \<and> (\<exists>md. fs_metadata fs (pinutil_path p) = Some md \<and> is_file md)"

lemma parse_setting_path:
  "path_checked fs p \<Longrightarrow> parse_setting T fs key val p = Ok p' \<Longrightarrow> path_checked fs p'"
  by (auto simp: parse_setting_def parse_pinutil_path_def parse_tcti_setting_def parse_tcti_spec_def
      path_checked_def split: if_splits option.splits res.splits)

lemma parse_parts_path:
  "path_checked fs p \<Longrightarrow> parse_parts T fs p parts = Ok p' \<Longrightarrow> path_checked fs p'"
  by (induction parts arbitrary: p)
    (auto split: option.splits res.splits prod.splits dest: parse_setting_path)

text \<open>The permission bits a policy file must not have: execution by anyone, writing by others.\<close>

lemma mode_mask_bits:
  "(mode AND 0x1FF) AND 0x5B = (0 :: u32) \<longleftrightarrow>
     \<not> bit mode 0 \<and> \<not> bit mode 1 \<and> \<not> bit mode 3 \<and> \<not> bit mode 4 \<and> \<not> bit mode 6"
proof -
  have m: "(mode AND 0x1FF) AND 0x5B = mode AND (0x5B :: u32)"
    by (simp add: and.assoc)
  have e: "(0x5B :: u32) = 2 ^ 0 OR 2 ^ 1 OR 2 ^ 3 OR 2 ^ 4 OR 2 ^ 6" by simp
  have b: "bit (0x5B :: u32) n \<longleftrightarrow> n \<in> {0, 1, 3, 4, 6}" for n
    unfolding e bit_or_iff bit_exp_iff by auto
  show ?thesis
  proof
    assume "(mode AND 0x1FF) AND 0x5B = 0"
    then have "\<not> (bit mode n \<and> bit (0x5B :: u32) n)" for n
      unfolding m using bit_and_iff [of mode "0x5B" n] by simp
    from this [of 0] this [of 1] this [of 3] this [of 4] this [of 6]
    show "\<not> bit mode 0 \<and> \<not> bit mode 1 \<and> \<not> bit mode 3 \<and> \<not> bit mode 4 \<and> \<not> bit mode 6"
      unfolding b by blast
  next
    assume "\<not> bit mode 0 \<and> \<not> bit mode 1 \<and> \<not> bit mode 3 \<and> \<not> bit mode 4 \<and> \<not> bit mode 6"
    then have "\<not> (bit mode n \<and> n \<in> {0, 1, 3, 4, 6})" for n by blast
    then show "(mode AND 0x1FF) AND 0x5B = 0"
      unfolding m bit_eq_iff bit_and_iff b by simp
  qed
qed

lemma read_policy_iff:
  "read_policy_if_secure fs path = Some cfg \<longleftrightarrow>
     (\<exists>f md. fs_open fs path = Some f \<and> file_metadata f = Some md \<and> is_file md \<and>
        metadata_is_secure md \<and> file_text f = Some cfg)"
  by (auto simp: read_policy_if_secure_def split: option.splits)

lemma metadata_secure_bits:
  "metadata_is_secure md \<longleftrightarrow> md_uid md = 0 \<and> \<not> bit (md_mode md) 0 \<and> \<not> bit (md_mode md) 1 \<and>
     \<not> bit (md_mode md) 3 \<and> \<not> bit (md_mode md) 4 \<and> \<not> bit (md_mode md) 6"
  using mode_mask_bits [of "md_mode md"] by (simp add: metadata_is_secure_def Let_def)

text \<open>C35: The policy in force is the default one or the parse of a regular file at the standard path
  that root owns and that is not executable nor writable by group or others; and the helper it
  names is the built-in path or an absolute path of an existing file.\<close>
theorem policy_in_force_trusted:
  "(load_from_standard_locations T fs = default_policy \<or>
    (\<exists>f md cfg. fs_open fs ''/etc/pinpam/policy'' = Some f \<and> file_metadata f = Some md \<and> is_file md \<and>
       md_uid md = 0 \<and> \<not> bit (md_mode md) 1 \<and> \<not> bit (md_mode md) 4 \<and>
       \<not> bit (md_mode md) 0 \<and> \<not> bit (md_mode md) 3 \<and> \<not> bit (md_mode md) 6 \<and>
       file_text f = Some cfg \<and> parse_config T fs cfg = Ok (load_from_standard_locations T fs))) \<and>
   path_checked fs (load_from_standard_locations T fs)"
proof (cases "load_from_path T fs ''/etc/pinpam/policy''")
  case None
  then have "load_from_standard_locations T fs = default_policy"
    by (simp add: load_from_standard_locations_def POLICY_PATHS_def)
  then show ?thesis by (simp add: path_checked_def default_policy_def)
next
  case (Some p)
  then obtain cfg where r: "read_policy_if_secure fs ''/etc/pinpam/policy'' = Some cfg"
      and c: "parse_config T fs cfg = Ok p"
    by (auto simp: load_from_path_def split: option.splits res.splits)
  have l: "load_from_standard_locations T fs = p"
    using Some by (simp add: load_from_standard_locations_def POLICY_PATHS_def)
  have "path_checked fs p"
    using parse_parts_path [of fs default_policy T "split_whitespace cfg" p] c
    by (simp add: parse_config_def path_checked_def default_policy_def)
  moreover obtain f md where "fs_open fs ''/etc/pinpam/policy'' = Some f" "file_metadata f = Some md"
      "is_file md" "metadata_is_secure md" "file_text f = Some cfg"
    using r by (auto simp: read_policy_iff)
  ultimately show ?thesis using l c by (auto simp: metadata_secure_bits)
qed

text \<open>C36: One bad token anywhere voids the whole policy: a helper path that is relative or no file
  leaves the default policy in force, whatever else the file sets.\<close>
theorem bad_token_voids_policy:
  assumes "read_policy_if_secure fs ''/etc/pinpam/policy'' = Some cfg"
    and "part \<in> set (split_whitespace cfg)"
    and "split_once (CHR ''='') part = None \<or>
      (\<exists>v. split_once (CHR ''='') part = Some (''pinutil_path'', v) \<and> parse_pinutil_path T fs v \<noteq> Ok v)"
  shows "load_from_standard_locations T fs = default_policy"
proof -
  obtain xs ys where parts: "split_whitespace cfg = xs @ part # ys"
    using assms(2) by (auto dest: split_list)
  have "parse_pinutil_path T fs v = Ok v" if "parse_pinutil_path T fs v = Ok u" for v u
    using that by (auto simp: parse_pinutil_path_def split: if_splits option.splits)
  then have part: "parse_parts T fs p (part # ys) \<noteq> Ok q" for p q
    using assms(3) by (auto simp: parse_setting_def split: res.splits)
  have "parse_config T fs cfg \<noteq> Ok q" for q
    using part by (auto simp: parse_config_def parts parse_append split: res.splits)
  then show ?thesis
    using assms(1) by (auto simp: load_from_standard_locations_def POLICY_PATHS_def load_from_path_def
        split: res.splits)
qed

end
