(* ===== verification/Util.thy ===== *)
theory Util imports PinPolicy begin

text \<open>
  \<open>pinpam-core/src/util.rs\<close>: the pre-0.0.4 PIN normalisation, who may manage or attempt a
  PIN, and the user database.  The process's real and effective user ids and the database
  (\<open>getpwnam\<close>, \<open>getpwuid\<close>) are arguments.
\<close>

definition normalize_legacy_pin :: "string \<Rightarrow> string" where
  "normalize_legacy_pin pin =
     (let normalized = trim_start_matches (CHR ''0'') pin in
      if normalized = [] then ''0'' else normalized)"

record process =
  real_uid :: u32
  effective_uid :: u32

definition get_uid :: "process \<Rightarrow> u32" where
  "get_uid ps = real_uid ps"

definition can_manage_pin :: "process \<Rightarrow> u32 \<Rightarrow> bool" where
  "can_manage_pin ps target_uid \<longleftrightarrow> (let current_uid = get_uid ps in
     current_uid = 0 \<or> current_uid = target_uid)"

definition can_attempt_pin :: "process \<Rightarrow> u32 \<Rightarrow> bool" where
  "can_attempt_pin ps target_uid \<longleftrightarrow> effective_uid ps = 0 \<or> get_uid ps = target_uid"

text \<open>The user database: a lookup can fail (\<open>Err\<close>) or find nobody.\<close>

record user_db =
  user_from_name :: "string \<Rightarrow> (u32 option, string) res"
  user_from_uid :: "u32 \<Rightarrow> (string option, string) res"

definition get_uid_from_username :: "user_db \<Rightarrow> string \<Rightarrow> (u32, pin_error) res" where
  "get_uid_from_username db username =
     (case user_from_name db username of
        Err _ \<Rightarrow> Err UserNotFound
      | Ok None \<Rightarrow> Err UserNotFound
      | Ok (Some uid) \<Rightarrow> Ok uid
      | Panic s \<Rightarrow> Panic s)"

definition get_username_from_uid :: "user_db \<Rightarrow> u32 \<Rightarrow> string option" where
  "get_username_from_uid db uid =
     (case user_from_uid db uid of Ok (Some name) \<Rightarrow> Some name | _ \<Rightarrow> None)"

section \<open>Properties\<close>

lemma normalize_drop: "normalize_legacy_pin (CHR ''0'' # p) = normalize_legacy_pin p"
  by (simp add: normalize_legacy_pin_def trim_start_matches_def)

lemma normalize_fixed: "p \<noteq> [] \<Longrightarrow> hd p \<noteq> CHR ''0'' \<Longrightarrow> normalize_legacy_pin p = p"
  by (cases p) (simp_all add: normalize_legacy_pin_def trim_start_matches_def)

lemma normalize_cases: "normalize_legacy_pin p = ''0'' \<or>
    normalize_legacy_pin p \<noteq> [] \<and> hd (normalize_legacy_pin p) \<noteq> CHR ''0''"
  using hd_dropWhile [of "\<lambda>x. x = CHR ''0''" p]
  by (auto simp: normalize_legacy_pin_def trim_start_matches_def Let_def)

text \<open>Legacy normalisation picks a canonical form: leading zeros never matter, it is idempotent,
  never empty, and starts with a zero only when it is \<open>0\<close>.\<close>
lemma normalize_legacy_canonical:
  "normalize_legacy_pin (replicate n (CHR ''0'') @ p) = normalize_legacy_pin p \<and>
   normalize_legacy_pin (normalize_legacy_pin p) = normalize_legacy_pin p \<and>
   normalize_legacy_pin p \<noteq> [] \<and>
   (hd (normalize_legacy_pin p) = CHR ''0'' \<longleftrightarrow> normalize_legacy_pin p = ''0'')"
proof -
  have "normalize_legacy_pin (replicate n (CHR ''0'') @ p) = normalize_legacy_pin p"
    by (induction n) (simp_all add: normalize_drop)
  moreover have "normalize_legacy_pin ''0'' = ''0''"
    by (simp add: normalize_legacy_pin_def trim_start_matches_def)
  ultimately show ?thesis using normalize_cases [of p] normalize_fixed [of "normalize_legacy_pin p"] by auto
qed

end
