(* ===== verification/PamPin.thy ===== *)
theory PamPin imports Utf8 Util begin

text \<open>
  \<open>pinpam-pam/src/lib.rs\<close>: the PAM module that authenticates a user by PIN through
  \<open>pinutil\<close>.

  The record \<open>pam\<close> holds what the module calls: libpam (items, user name and the
  conversation function), \<open>std::process::Command\<close> running the helper, the JSON decoder
  (\<open>serde_json\<close>), the translations of this crate, the user database and the policy file.
  Pointers are option values, C strings their bytes; freeing memory has no model.
\<close>

section \<open>The PAM interface\<close>

datatype pam_code =
  SUCCESS
| AUTH_ERR
| AUTHINFO_UNAVAIL
| USER_UNKNOWN
| MAXTRIES
| CONV_ERR
| SYSTEM_ERR
| IGNORE
| OtherCode nat

datatype message_style = PROMPT_ECHO_OFF | TEXT_INFO | ERROR_MSG

text \<open>A response carries a C string or null; the response pointer itself can be null too.\<close>

type_synonym response = "string option"

text \<open>A C call: its status and what it leaves in its out-parameter.\<close>

type_synonym ('w, 'a) c_call = "'w \<Rightarrow> (pam_code \<times> 'a) \<times> 'w"

type_synonym 'w conv_fn = "message_style \<Rightarrow> string \<Rightarrow> ('w, response option) c_call"

text \<open>\<open>if status != SUCCESS { return Err(status) }\<close>.\<close>

definition ffi :: "('w, 'a) c_call \<Rightarrow> ('w, 'a, pam_code) eff" where
  "ffi m w = (case m w of ((status, x), w') \<Rightarrow> (if status \<noteq> SUCCESS then Err status else Ok x, w'))"

text \<open>\<open>struct PamIo\<close>: the conversation structure, whose function pointer can be null.\<close>

type_synonym 'w pam_io = "'w conv_fn option"

datatype pipe_error = BrokenPipe string | PipeOther string

record process_output =
  exit_success :: bool
  status_text :: string
  out_bytes :: string
  err_bytes :: string

record 'w pam = "'w tss" +
  pam_tr :: "string \<Rightarrow> (string \<times> string) list \<Rightarrow> string"
  pam_user_table :: user_db
  pam_policy_files :: file_sys
  pam_overflow_checks :: bool
  json_info :: "string \<Rightarrow> string + (pin_error + attempt_info option)"
  json_unit :: "string \<Rightarrow> string + (pin_error + unit)"
  get_item_conv :: "('w, 'w pam_io option) c_call"
  get_item_authtok :: "('w, string option) c_call"
  pam_get_user :: "('w, string option) c_call"
  command_output :: "string \<Rightarrow> string list \<Rightarrow> ('w, process_output, string) eff"
  command_spawn :: "string \<Rightarrow> string list \<Rightarrow> ('w, nat, string) eff"
  take_stdin :: "nat \<Rightarrow> ('w, bool, string) eff"
  pipe_write :: "nat \<Rightarrow> string \<Rightarrow> ('w, unit, pipe_error) eff"
  pipe_flush :: "nat \<Rightarrow> ('w, unit, pipe_error) eff"
  close_stdin :: "nat \<Rightarrow> 'w \<Rightarrow> 'w"
  wait_with_output :: "nat \<Rightarrow> ('w, process_output, string) eff"

definition pam_policy :: "('w, 'z) pam_scheme \<Rightarrow> pin_policy" where
  "pam_policy P = fst (cached P (pam_policy_files P) None)"

definition helper_path :: "('w, 'z) pam_scheme \<Rightarrow> string" where
  "helper_path P = pinutil_path (pam_policy P)"

section \<open>Asking the helper\<close>

datatype pin_status =
  StUnavailable pin_error
| StLockedOut
| StNotProvisioned
| StAvailable u32 u32

text \<open>\<open>From<Result<Option<AttemptInfo>, PinError>>\<close>.\<close>

fun pin_status_of :: "pin_error + attempt_info option \<Rightarrow> pin_status" where
  "pin_status_of (Inl PinIsLocked) = StLockedOut"
| "pin_status_of (Inl e) = StUnavailable e"
| "pin_status_of (Inr None) = StNotProvisioned"
| "pin_status_of (Inr (Some info)) =
     (if locked info then StLockedOut else StAvailable (ai_used info) (ai_limit info))"

datatype test_outcome =
  TestSuccess
| TestInvalidPin
| TestLockedOut
| TestNewlyLockedOut
| TestNotConfigured
| TestUnavailable

fun test_outcome_of :: "pin_error + unit \<Rightarrow> test_outcome" where
  "test_outcome_of (Inr _) = TestSuccess"
| "test_outcome_of (Inl PinIsLocked) = TestLockedOut"
| "test_outcome_of (Inl (IncorrectPin l)) = (if l then TestNewlyLockedOut else TestInvalidPin)"
| "test_outcome_of (Inl (NotProvisioned _)) = TestNotConfigured"
| "test_outcome_of (Inl _) = TestUnavailable"

definition run_pinutil_status ::
  "('w, 'z) pam_scheme \<Rightarrow> string \<Rightarrow> ('w, pin_status, 'e) eff"
where
  "run_pinutil_status P username =
     matchRes (command_output P (helper_path P) [''-m'', ''status'', username])
       (\<lambda>output.
          if \<not> exit_success output then
            ok (StUnavailable (IoError (''output status: '' @ status_text output)))
          else
            (case json_info P (from_utf8_lossy (out_bytes output)) of
               Inr info \<Rightarrow> ok (pin_status_of info)
             | Inl e \<Rightarrow> ok (StUnavailable (PinutilOutputDecodeError e))))
       (\<lambda>e. ok (StUnavailable (from_io e)))"

text \<open>A write to the child that may find the pipe closed.\<close>

definition tolerate_broken_pipe ::
  "string \<Rightarrow> ('w, unit, pipe_error) eff \<Rightarrow> ('w, unit, string) eff"
where
  "tolerate_broken_pipe what m =
     matchRes m ok (\<lambda>e. case e of BrokenPipe _ \<Rightarrow> ok () | PipeOther s \<Rightarrow> err (what @ s))"

text \<open>Running the helper on an input line, up to its output.\<close>

definition feed_helper ::
  "('w, 'z) pam_scheme \<Rightarrow> string list \<Rightarrow> string \<Rightarrow> ('w, process_output, string) eff"
where
  "feed_helper P args pin =
     andThen (mapErr (\<lambda>e. ''failed to execute pinutil test via '' @ helper_path P @ '': '' @ e)
       (command_spawn P (helper_path P) args)) (\<lambda>child.
     andThen (take_stdin P child) (\<lambda>has_stdin.
     if \<not> has_stdin then err ''failed to open stdin pipe to pinutil''
     else
       andThen (tolerate_broken_pipe ''failed to send PIN to pinutil: ''
         (pipe_write P child (pin @ [CHR 0x0A]))) (\<lambda>_.
       andThen (tolerate_broken_pipe ''failed to flush PIN to pinutil: '' (pipe_flush P child)) (\<lambda>_.
       andThen (act (close_stdin P child)) (\<lambda>_.
       mapErr (\<lambda>e. ''failed to wait for pinutil test: '' @ e) (wait_with_output P child))))))"

definition run_pinutil_test ::
  "('w, 'z) pam_scheme \<Rightarrow> string \<Rightarrow> pin \<Rightarrow> ('w, test_outcome, string) eff"
where
  "run_pinutil_test P username pin =
     andThen (feed_helper P [''-m'', ''test'', username] pin) (\<lambda>output.
     case json_unit P (from_utf8_lossy (out_bytes output)) of
       Inl _ \<Rightarrow> err ''pinutil output isn't valid JSON or is malformed''
     | Inr result \<Rightarrow> ok (test_outcome_of result))"

section \<open>Module arguments\<close>

record module_args =
  try_first_pass :: bool
  use_first_pass :: bool

definition default_args :: module_args where
  "default_args = \<lparr>try_first_pass = False, use_first_pass = False\<rparr>"

definition from_str :: "string \<Rightarrow> module_args \<Rightarrow> module_args" where
  "from_str arg out =
     (if arg = ''try_first_pass'' then out\<lparr>try_first_pass := True\<rparr>
      else if arg = ''use_first_pass'' then out\<lparr>use_first_pass := True\<rparr>
      else out)"

definition from_strs :: "string list \<Rightarrow> module_args" where
  "from_strs args = fold from_str args default_args"

definition wants_first_pass :: "module_args \<Rightarrow> bool" where
  "wants_first_pass a \<longleftrightarrow> try_first_pass a \<or> use_first_pass a"

datatype first_pass_decision = TryFirstPass pin | PromptUser | Deny

fun is_try_first_pass :: "first_pass_decision \<Rightarrow> bool" where
  "is_try_first_pass (TryFirstPass _) = True"
| "is_try_first_pass _ = False"

fun is_prompt_user :: "first_pass_decision \<Rightarrow> bool" where
  "is_prompt_user PromptUser = True"
| "is_prompt_user _ = False"

fun is_deny :: "first_pass_decision \<Rightarrow> bool" where
  "is_deny Deny = True"
| "is_deny _ = False"

fun decision_pin :: "first_pass_decision \<Rightarrow> pin option" where
  "decision_pin (TryFirstPass pin) = Some pin"
| "decision_pin _ = None"

text \<open>\<open>Pin::new(t, policy).ok()\<close>.\<close>

definition usable_pin :: "string \<Rightarrow> pin_policy \<Rightarrow> pin option" where
  "usable_pin t p = (case pin_new t p of Ok pin \<Rightarrow> Some pin | _ \<Rightarrow> None)"

definition decide_first_pass ::
  "module_args \<Rightarrow> string option \<Rightarrow> pin_policy \<Rightarrow> first_pass_decision"
where
  "decide_first_pass a authtok p =
     (if \<not> wants_first_pass a then PromptUser
      else
        (case (Option.bind authtok (\<lambda>t. usable_pin t p), use_first_pass a) of
           (Some pin, _) \<Rightarrow> TryFirstPass pin
         | (None, True) \<Rightarrow> Deny
         | (None, False) \<Rightarrow> PromptUser))"

definition argv_to_strings :: "int \<Rightarrow> string option list option \<Rightarrow> string list" where
  "argv_to_strings argc argv =
     (case argv of
        None \<Rightarrow> []
      | Some ptrs \<Rightarrow>
          if argc \<le> 0 then []
          else filter valid_utf8 (List.map_filter (\<lambda>x. x) (take (nat argc) ptrs)))"

section \<open>Talking to PAM\<close>

definition get_pam_authtok :: "('w, 'z) pam_scheme \<Rightarrow> ('w, string option, pam_code) eff" where
  "get_pam_authtok P =
     andThen (ffi (get_item_authtok P)) (\<lambda>item.
     ok (case item of None \<Rightarrow> None | Some s \<Rightarrow> if valid_utf8 s then Some s else None))"

definition pam_io_new :: "('w, 'z) pam_scheme \<Rightarrow> ('w, 'w pam_io, pam_code) eff" where
  "pam_io_new P =
     andThen (ffi (get_item_conv P)) (\<lambda>item. case item of None \<Rightarrow> err CONV_ERR | Some io \<Rightarrow> ok io)"

definition converse ::
  "'w pam_io \<Rightarrow> message_style \<Rightarrow> string \<Rightarrow> ('w, response option, pam_code) eff"
where
  "converse io style txt =
     (case io of
        None \<Rightarrow> err CONV_ERR
      | Some conv_fn \<Rightarrow> if CHR 0x00 \<in> set txt then err SYSTEM_ERR else ffi (conv_fn style txt))"

definition prompt_hidden :: "'w pam_io \<Rightarrow> string \<Rightarrow> ('w, string, pam_code) eff" where
  "prompt_hidden io prompt =
     andThen (converse io PROMPT_ECHO_OFF prompt) (\<lambda>r.
     case r of
       None \<Rightarrow> err CONV_ERR
     | Some None \<Rightarrow> err CONV_ERR
     | Some (Some s) \<Rightarrow> if valid_utf8 s then ok (trim s) else err AUTH_ERR)"

definition send_message :: "'w pam_io \<Rightarrow> message_style \<Rightarrow> string \<Rightarrow> ('w, unit, pam_code) eff" where
  "send_message io style txt = andThen (converse io style txt) (\<lambda>_. ok ())"

definition io_info :: "'w pam_io \<Rightarrow> string \<Rightarrow> ('w, unit, pam_code) eff" where
  "io_info io txt = send_message io TEXT_INFO txt"

definition io_err :: "'w pam_io \<Rightarrow> string \<Rightarrow> ('w, unit, pam_code) eff" where
  "io_err io txt = send_message io ERROR_MSG txt"

definition get_username :: "('w, 'z) pam_scheme \<Rightarrow> ('w, string, pam_code) eff" where
  "get_username P =
     andThen (ffi (pam_get_user P)) (\<lambda>u.
     case u of
       None \<Rightarrow> err USER_UNKNOWN
     | Some s \<Rightarrow> if valid_utf8 s then ok s else err USER_UNKNOWN)"

text \<open>The prompt and the PIN of its answer.\<close>

definition ask_pin ::
  "('w, 'z) pam_scheme \<Rightarrow> 'w pam_io \<Rightarrow> string \<Rightarrow> ('w, pin, pam_code) eff"
where
  "ask_pin P io prompt =
     andThen (prompt_hidden io prompt) (\<lambda>pin_text.
     case pin_new pin_text (pam_policy P) of
       Ok pin \<Rightarrow> ok pin
     | Err PinIsEmpty \<Rightarrow> andThen (io_err io (pam_tr P ''pin_empty'' [])) (\<lambda>_. err AUTH_ERR)
     | Err _ \<Rightarrow> andThen (io_err io (pam_tr P ''pin_digits'' [])) (\<lambda>_. err AUTH_ERR)
     | Panic s \<Rightarrow> panic s)"

definition prompt_for_pin ::
  "('w, 'z) pam_scheme \<Rightarrow> 'w pam_io \<Rightarrow> u32 \<Rightarrow> u32 \<Rightarrow> ('w, pin, pam_code) eff"
where
  "prompt_for_pin P io used limit =
     andThen (sub_u32 (pam_overflow_checks P) limit used) (\<lambda>left.
     if left = 0 then err AUTHINFO_UNAVAIL
     else if left = 1 then ask_pin P io (pam_tr P ''pin_prompt_last'' [])
     else if left = 2 then
       ask_pin P io (pam_tr P ''pin_prompt_remaining'' [(''remaining'', show_u32 left)])
     else ask_pin P io (pam_tr P ''pin_prompt'' []))"

section \<open>Authentication\<close>

text \<open>\<open>let _ = pam_io.error(text); return code;\<close>\<close>

definition refuse_with ::
  "('w, unit, pam_code) eff \<Rightarrow> pam_code \<Rightarrow> ('w, pam_code, pam_code) eff"
where
  "refuse_with msg code = andThen (ignore msg) (\<lambda>_. ok code)"

fun finalize_outcome ::
  "('w, 'z) pam_scheme \<Rightarrow> 'w pam_io \<Rightarrow> test_outcome \<Rightarrow> ('w, pam_code, pam_code) eff"
where
  "finalize_outcome P io TestSuccess = ok SUCCESS"
| "finalize_outcome P io TestInvalidPin =
     refuse_with (io_err io (pam_tr P ''auth_failure'' [])) AUTH_ERR"
| "finalize_outcome P io TestNewlyLockedOut =
     refuse_with (io_err io (pam_tr P ''account_locked'' [])) MAXTRIES"
| "finalize_outcome P io TestLockedOut =
     refuse_with (io_err io (pam_tr P ''account_locked'' [])) MAXTRIES"
| "finalize_outcome P io TestNotConfigured =
     refuse_with (io_info io (pam_tr P ''pin_not_conf_for_user'' [])) AUTHINFO_UNAVAIL"
| "finalize_outcome P io TestUnavailable =
     refuse_with (io_err io (pam_tr P ''pin_auth_unavail'' [])) AUTHINFO_UNAVAIL"

text \<open>\<open>run_pinutil_test\<close> with its failure answered.\<close>

definition test_or_unavailable ::
  "('w, 'z) pam_scheme \<Rightarrow> 'w pam_io \<Rightarrow> string \<Rightarrow> pin \<Rightarrow>
     (test_outcome \<Rightarrow> ('w, pam_code, pam_code) eff) \<Rightarrow> ('w, pam_code, pam_code) eff"
where
  "test_or_unavailable P io username pin k =
     matchRes (run_pinutil_test P username pin) k
       (\<lambda>_. refuse_with (io_err io (pam_tr P ''pin_auth_unavail'' [])) AUTHINFO_UNAVAIL)"

text \<open>The second phase, after the first-pass attempt if there was one.\<close>

definition prompt_and_test ::
  "('w, 'z) pam_scheme \<Rightarrow> 'w pam_io \<Rightarrow> string \<Rightarrow> u32 \<Rightarrow> u32 \<Rightarrow> ('w, pam_code, pam_code) eff"
where
  "prompt_and_test P io username used limit =
     (if limit \<le> used then refuse_with (io_err io (pam_tr P ''account_locked'' [])) MAXTRIES
      else
        matchRes (prompt_for_pin P io used limit)
          (\<lambda>pin. test_or_unavailable P io username pin (finalize_outcome P io))
          ok)"

definition after_first_pass ::
  "('w, 'z) pam_scheme \<Rightarrow> 'w pam_io \<Rightarrow> module_args \<Rightarrow> string \<Rightarrow> u32 \<Rightarrow> u32 \<Rightarrow> test_outcome \<Rightarrow>
     ('w, pam_code, pam_code) eff"
where
  "after_first_pass P io a username used limit outcome =
     (if outcome = TestSuccess then ok SUCCESS
      else if use_first_pass a then finalize_outcome P io outcome
      else if outcome = TestInvalidPin then
        prompt_and_test P io username (saturating_add32 used 1) limit
      else finalize_outcome P io outcome)"

definition authenticate_user ::
  "('w, 'z) pam_scheme \<Rightarrow> 'w pam_io \<Rightarrow> string \<Rightarrow> module_args \<Rightarrow> string option \<Rightarrow>
     ('w, pam_code, pam_code) eff"
where
  "authenticate_user P io username a authtok =
     (case get_uid_from_username (pam_user_table P) username of
        Err _ \<Rightarrow> refuse_with (io_err io (pam_tr P ''auth_failure'' [])) USER_UNKNOWN
      | Panic s \<Rightarrow> panic s
      | Ok uid \<Rightarrow>
          andThen (run_pinutil_status P username) (\<lambda>status.
          case status of
            StUnavailable _ \<Rightarrow>
              refuse_with (io_err io (pam_tr P ''pin_auth_unavail'' [])) AUTHINFO_UNAVAIL
          | StNotProvisioned \<Rightarrow>
              refuse_with (io_info io (pam_tr P ''pin_not_conf_for_user'' [])) AUTHINFO_UNAVAIL
          | StLockedOut \<Rightarrow> refuse_with (io_err io (pam_tr P ''account_locked'' [])) MAXTRIES
          | StAvailable used limit \<Rightarrow>
              (case decide_first_pass a authtok (pam_policy P) of
                 Deny \<Rightarrow> refuse_with (io_err io (pam_tr P ''auth_failure'' [])) AUTH_ERR
               | TryFirstPass pin \<Rightarrow>
                   test_or_unavailable P io username pin
                     (after_first_pass P io a username used limit)
               | PromptUser \<Rightarrow> prompt_and_test P io username used limit)))"

definition pam_sm_authenticate ::
  "('w, 'z) pam_scheme \<Rightarrow> int \<Rightarrow> string option list option \<Rightarrow> ('w, pam_code, pam_code) eff"
where
  "pam_sm_authenticate P argc argv =
     (let a = from_strs (argv_to_strings argc argv) in
      matchRes (pam_io_new P)
        (\<lambda>io.
           matchRes (get_username P)
             (\<lambda>username.
                matchRes (if wants_first_pass a then get_pam_authtok P else ok None)
                  (\<lambda>authtok. authenticate_user P io username a authtok)
                  ok)
             (\<lambda>code. andThen (ignore (io_err io (pam_tr P ''auth_failure'' []))) (\<lambda>_. ok code)))
        ok)"

text \<open>The entry points that do nothing.\<close>

definition pam_sm_acct_mgmt :: pam_code where "pam_sm_acct_mgmt = SUCCESS"

definition pam_sm_open_session :: pam_code where "pam_sm_open_session = SUCCESS"

definition pam_sm_close_session :: pam_code where "pam_sm_close_session = SUCCESS"

definition pam_sm_chauthtok :: pam_code where "pam_sm_chauthtok = AUTH_ERR"

definition pam_sm_setcred :: pam_code where "pam_sm_setcred = SUCCESS"

end
