(* ===== verification/MasterKey.thy ===== *)
theory MasterKey imports Util begin

text \<open>
  \<open>pinpam-core/src/master_key.rs\<close>: the TPM-backed master key, its provisioning, the sealed
  recovery file and the per-user tokens.

  The record \<open>platform\<close> extends the TSS interface with what this module uses of third-party
  crates (persistent TPM objects of \<open>tss-esapi\<close>, \<open>argon2\<close>, \<open>aes_gcm\<close>,
  \<open>base64\<close>, \<open>serde_json\<close>, the BIP39 word list, \<open>hex\<close>) and of the operating system
  (files, clock, random numbers).  Zeroing a buffer has no model.
\<close>

section \<open>Constants and types\<close>

definition MASTER_KEY_RSA_PARENT_HANDLE :: u32 where "MASTER_KEY_RSA_PARENT_HANDLE = 0x81000080"

definition MASTER_KEY_HMAC_HANDLE :: u32 where "MASTER_KEY_HMAC_HANDLE = 0x81000081"

definition MASTER_KEY_SEALED_FILE :: string where
  "MASTER_KEY_SEALED_FILE = ''/var/pinpam/sealed_master_key''"

definition SEALED_FILE_VERSION :: u32 where "SEALED_FILE_VERSION = 1"

definition HMAC_KEY_LEN :: nat where "HMAC_KEY_LEN = 32"

record master_key_status =
  sealed_file_present :: bool
  rsa_parent_present :: bool
  hmac_key_present :: bool
  sealed_file_path :: string
  rsa_handle :: u32
  hmac_handle :: u32

record master_key_init_result =
  recovery_phrase :: string
  init_status :: master_key_status

record sealed_master_key_file =
  version :: u32
  created_unix_ms :: nat
  salt_b64 :: string
  nonce_b64 :: string
  ciphertext_b64 :: string

section \<open>The platform\<close>

record object_attributes =
  fixed_tpm :: bool
  fixed_parent :: bool
  sign_encrypt :: bool
  user_with_auth :: bool
  sensitive_data_origin :: bool
  restricted :: bool
  decrypt :: bool

datatype hash_alg = Sha256

datatype keyed_hash_scheme = HmacSha256

text \<open>The two public areas the program builds.\<close>

datatype key_public =
  RestrictedRsa nat nat nat
| KeyedHash hash_alg object_attributes keyed_hash_scheme "byte list"

datatype io_error = IoNotFound string | IoOther string

fun io_text :: "io_error \<Rightarrow> string" where
  "io_text (IoNotFound s) = s"
| "io_text (IoOther s) = s"

record 'w platform = "'w tss" +
  rc_text :: "u32 \<Rightarrow> string"
  password_session :: esys_tr
  esys_none :: esys_tr
  persistent_check :: "u32 \<Rightarrow> tss_error option"
  key_public_check :: "key_public \<Rightarrow> tss_error option"
  object_attributes_check :: "object_attributes \<Rightarrow> tss_error option"
  digest_check :: "byte list \<Rightarrow> tss_error option"
  sensitive_check :: "byte list \<Rightarrow> tss_error option"
  max_buffer_check :: "byte list \<Rightarrow> tss_error option"
  tr_from_persistent :: "u32 \<Rightarrow> ('w, esys_tr, tss_error) eff"
  create_primary :: "key_public \<Rightarrow> ('w, esys_tr, tss_error) eff"
  evict_control :: "esys_tr \<Rightarrow> u32 \<Rightarrow> ('w, esys_tr, tss_error) eff"
  tr_close :: "esys_tr \<Rightarrow> ('w, unit, tss_error) eff"
  create_key :: "esys_tr \<Rightarrow> key_public \<Rightarrow> byte list \<Rightarrow> ('w, byte list \<times> key_public, tss_error) eff"
  load_key :: "esys_tr \<Rightarrow> byte list \<Rightarrow> key_public \<Rightarrow> ('w, esys_tr, tss_error) eff"
  hmac :: "esys_tr \<Rightarrow> byte list \<Rightarrow> hash_alg \<Rightarrow> ('w, byte list, tss_error) eff"
  hex_encode :: "byte list \<Rightarrow> string"
  os_rng :: "nat \<Rightarrow> ('w, byte list, pin_error) eff"
  mnemonic24 :: "('w, string, string) eff"
  argon2_params_check :: "nat \<Rightarrow> nat \<Rightarrow> nat \<Rightarrow> nat \<Rightarrow> string option"
  argon2id_v13 :: "nat \<Rightarrow> nat \<Rightarrow> nat \<Rightarrow> byte list \<Rightarrow> byte list \<Rightarrow> nat \<Rightarrow> (byte list, string) res"
  aes_key_check :: "byte list \<Rightarrow> string option"
  aes_encrypt :: "byte list \<Rightarrow> byte list \<Rightarrow> byte list \<Rightarrow> (byte list, string) res"
  aes_decrypt :: "byte list \<Rightarrow> byte list \<Rightarrow> byte list \<Rightarrow> (byte list, string) res"
  b64_encode :: "byte list \<Rightarrow> string"
  b64_decode :: "string \<Rightarrow> (byte list, string) res"
  sealed_to_json :: "sealed_master_key_file \<Rightarrow> (byte list, string) res"
  sealed_of_json :: "byte list \<Rightarrow> (sealed_master_key_file, string) res"
  unix_time_ms :: "'w \<Rightarrow> nat option"
  path_exists :: "string \<Rightarrow> 'w \<Rightarrow> bool"
  remove_file :: "string \<Rightarrow> ('w, unit, io_error) eff"
  create_dir_all :: "string \<Rightarrow> ('w, unit, string) eff"
  set_permissions :: "string \<Rightarrow> u32 \<Rightarrow> ('w, unit, string) eff"
  chown :: "string \<Rightarrow> u32 \<Rightarrow> u32 \<Rightarrow> ('w, unit, string) eff"
  open_create_new :: "string \<Rightarrow> u32 \<Rightarrow> ('w, nat, string) eff"
  write_all :: "nat \<Rightarrow> byte list \<Rightarrow> ('w, unit, string) eff"
  read_file :: "string \<Rightarrow> ('w, byte list, string) eff"

text \<open>A fallible conversion to \<open>string\<close>-like errors, and errors turned into \<open>IoError\<close>.\<close>

abbreviation liftIo :: "('w, 'a, string) eff \<Rightarrow> ('w, 'a, pin_error) eff" where
  "liftIo \<equiv> mapErr from_io"

definition checked_io :: "string option \<Rightarrow> 'a \<Rightarrow> ('w, 'a, pin_error) eff" where
  "checked_io c x = (case c of None \<Rightarrow> ok x | Some e \<Rightarrow> err (IoError e))"

text \<open>Looking at the world without changing it.\<close>

definition peek :: "('w \<Rightarrow> 'a) \<Rightarrow> ('w, 'a, 'e) eff" where
  "peek f w = (Ok (f w), w)"

abbreviation with_password ::
  "('w, 'z) platform_scheme \<Rightarrow> ('w, 'a, tss_error) eff \<Rightarrow> ('w, 'a, pin_error) eff"
where
  "with_password E f \<equiv> liftTss E (with_session E (password_session E) f)"

section \<open>Helpers\<close>

definition ensure_root_real_uid :: "process \<Rightarrow> ('w, unit, pin_error) eff" where
  "ensure_root_real_uid ps = (if real_uid ps \<noteq> 0 then err PermissionDenied else ok ())"

definition now_unix_ms :: "('w, 'z) platform_scheme \<Rightarrow> 'w \<Rightarrow> nat" where
  "now_unix_ms E w = (case unix_time_ms E w of None \<Rightarrow> 0 | Some t \<Rightarrow> t) mod 2 ^ 64"

definition new_context :: "('w, 'z) platform_scheme \<Rightarrow> pin_policy \<Rightarrow> ('w, unit, pin_error) eff" where
  "new_context E p =
     andThen (pure (parse_tcti_spec E (tcti_spec p))) (\<lambda>spec. liftTss E (context_new E spec))"

definition persistent_present :: "('w, 'z) platform_scheme \<Rightarrow> u32 \<Rightarrow> ('w, bool, pin_error) eff" where
  "persistent_present E handle =
     andThen (liftTss E (checked (persistent_check E handle) handle)) (\<lambda>h.
     matchRes (without_session E (tr_from_persistent E h))
       (\<lambda>_. ok True)
       (\<lambda>e. case e of
              Tss2Error rc \<Rightarrow>
                (case rc_kind E rc of
                   Some RcHandle \<Rightarrow> ok False
                 | _ \<Rightarrow> err (TpmError (rc_text E rc)))
            | WrapperError _ \<Rightarrow> err (from_tss E e)))"

definition tpm_status :: "('w, 'z) platform_scheme \<Rightarrow> pin_policy \<Rightarrow> ('w, bool \<times> bool, pin_error) eff" where
  "tpm_status E p =
     andThen (new_context E p) (\<lambda>_.
     andThen (persistent_present E MASTER_KEY_RSA_PARENT_HANDLE) (\<lambda>rsa.
     andThen (persistent_present E MASTER_KEY_HMAC_HANDLE) (\<lambda>hmac.
     ok (rsa, hmac))))"

definition mk_status ::
  "('w, 'z) platform_scheme \<Rightarrow> pin_policy \<Rightarrow> ('w, master_key_status, pin_error) eff"
where
  "mk_status E p =
     andThen (peek (path_exists E MASTER_KEY_SEALED_FILE)) (\<lambda>sealed.
     andThen (tpm_status E p) (\<lambda>(rsa, hmac).
     ok \<lparr>sealed_file_present = sealed, rsa_parent_present = rsa, hmac_key_present = hmac,
         sealed_file_path = MASTER_KEY_SEALED_FILE, rsa_handle = MASTER_KEY_RSA_PARENT_HANDLE,
         hmac_handle = MASTER_KEY_HMAC_HANDLE\<rparr>))"

section \<open>Provisioning the TPM\<close>

definition rsa_parent_public :: key_public where
  "rsa_parent_public = RestrictedRsa 256 2048 0"

definition create_and_persist_rsa_parent ::
  "('w, 'z) platform_scheme \<Rightarrow> ('w, unit, pin_error) eff"
where
  "create_and_persist_rsa_parent E =
     andThen (liftTss E (checked (key_public_check E rsa_parent_public) rsa_parent_public)) (\<lambda>public.
     andThen (with_password E (create_primary E public)) (\<lambda>primary.
     andThen (liftTss E (checked (persistent_check E MASTER_KEY_RSA_PARENT_HANDLE)
        MASTER_KEY_RSA_PARENT_HANDLE)) (\<lambda>persistent.
     andThen (with_password E (evict_control E primary persistent)) (\<lambda>object.
     andThen (ignore (flush_context E primary)) (\<lambda>_.
     andThen (ignore (tr_close E object)) (\<lambda>_. ok ()))))))"

definition hmac_key_attributes :: object_attributes where
  "hmac_key_attributes =
     \<lparr>fixed_tpm = True, fixed_parent = True, sign_encrypt = True, user_with_auth = True,
      sensitive_data_origin = False, restricted = False, decrypt = False\<rparr>"

definition hmac_key_public :: "byte list \<Rightarrow> key_public" where
  "hmac_key_public unique = KeyedHash Sha256 hmac_key_attributes HmacSha256 unique"

definition create_and_persist_hmac_key ::
  "('w, 'z) platform_scheme \<Rightarrow> byte list \<Rightarrow> ('w, unit, pin_error) eff"
where
  "create_and_persist_hmac_key E hmac_key =
     andThen (liftTss E (checked (persistent_check E MASTER_KEY_RSA_PARENT_HANDLE)
        MASTER_KEY_RSA_PARENT_HANDLE)) (\<lambda>ph.
     andThen (liftTss E (without_session E (tr_from_persistent E ph))) (\<lambda>parent.
     andThen (liftTss E (checked (object_attributes_check E hmac_key_attributes) ())) (\<lambda>_.
     andThen (liftTss E (checked (digest_check E (replicate 32 0)) (replicate 32 0))) (\<lambda>unique.
     andThen (liftTss E (checked (key_public_check E (hmac_key_public unique))
        (hmac_key_public unique))) (\<lambda>public.
     andThen (liftTss E (checked (sensitive_check E hmac_key) hmac_key)) (\<lambda>sensitive.
     andThen (with_password E (create_key E parent public sensitive)) (\<lambda>(out_private, out_public).
     andThen (with_password E (load_key E parent out_private out_public)) (\<lambda>transient.
     andThen (liftTss E (checked (persistent_check E MASTER_KEY_HMAC_HANDLE)
        MASTER_KEY_HMAC_HANDLE)) (\<lambda>persistent.
     andThen (with_password E (evict_control E transient persistent)) (\<lambda>object.
     andThen (ignore (flush_context E transient)) (\<lambda>_.
     andThen (ignore (tr_close E object)) (\<lambda>_. ok ()))))))))))))"

definition provision_tpm_objects ::
  "('w, 'z) platform_scheme \<Rightarrow> pin_policy \<Rightarrow> byte list \<Rightarrow> ('w, unit, pin_error) eff"
where
  "provision_tpm_objects E p hmac_key =
     andThen (new_context E p) (\<lambda>_.
     andThen (persistent_present E MASTER_KEY_RSA_PARENT_HANDLE) (\<lambda>rsa.
     andThen (if \<not> rsa then create_and_persist_rsa_parent E else ok ()) (\<lambda>_.
     andThen (persistent_present E MASTER_KEY_HMAC_HANDLE) (\<lambda>present.
     if present then err (TpmError (tr E ''mk_hmac_handle_already_exists'' []))
     else andThen (create_and_persist_hmac_key E hmac_key) (\<lambda>_. ok ())))))"

definition evict_persistent_if_present ::
  "('w, 'z) platform_scheme \<Rightarrow> u32 \<Rightarrow> ('w, unit, pin_error) eff"
where
  "evict_persistent_if_present E handle =
     andThen (persistent_present E handle) (\<lambda>present.
     if \<not> present then ok ()
     else
       andThen (liftTss E (checked (persistent_check E handle) handle)) (\<lambda>persistent.
       andThen (liftTss E (without_session E (tr_from_persistent E persistent))) (\<lambda>object.
       andThen (with_password E (evict_control E object persistent)) (\<lambda>out.
       if out \<noteq> esys_none E then andThen (ignore (tr_close E out)) (\<lambda>_. ok ()) else ok ()))))"

definition clear_from_tpm ::
  "('w, 'z) platform_scheme \<Rightarrow> process \<Rightarrow> pin_policy \<Rightarrow> ('w, unit, pin_error) eff"
where
  "clear_from_tpm E ps p =
     andThen (ensure_root_real_uid ps) (\<lambda>_.
     andThen (new_context E p) (\<lambda>_.
     andThen (ignore (evict_persistent_if_present E MASTER_KEY_HMAC_HANDLE)) (\<lambda>_.
     andThen (ignore (evict_persistent_if_present E MASTER_KEY_RSA_PARENT_HANDLE)) (\<lambda>_.
     ok ()))))"

section \<open>The sealed file\<close>

definition derive_aes_key_from_phrase ::
  "('w, 'z) platform_scheme \<Rightarrow> string \<Rightarrow> byte list \<Rightarrow> ('w, byte list, pin_error) eff"
where
  "derive_aes_key_from_phrase E phrase salt =
     andThen (checked_io (argon2_params_check E (32 * 1024) 3 1 32) ()) (\<lambda>_.
     liftIo (pure (argon2id_v13 E (32 * 1024) 3 1 (as_bytes phrase) salt 32)))"

text \<open>\<open>Path::parent\<close>, for paths without \<open>.\<close> components: the path less its last component.\<close>

definition strip_slashes :: "string \<Rightarrow> string" where
  "strip_slashes s = rev (dropWhile (\<lambda>c. c = CHR ''/'') (rev s))"

definition path_parent :: "string \<Rightarrow> string option" where
  "path_parent path =
     (let p = strip_slashes path in
      if p = [] then None
      else
        (let dir = rev (dropWhile (\<lambda>c. c \<noteq> CHR ''/'') (rev p)) in
         if dir = [] then Some []
         else if strip_slashes dir = [] then Some ''/''
         else Some (strip_slashes dir)))"

definition ensure_dir_for_path ::
  "('w, 'z) platform_scheme \<Rightarrow> string \<Rightarrow> bool \<Rightarrow> ('w, string, pin_error) eff"
where
  "ensure_dir_for_path E path tighten_for_system_dir =
     (case path_parent path of
        None \<Rightarrow> err (IoError (tr E ''mk_invalid_sealed_file_path'' []))
      | Some parent \<Rightarrow>
          andThen (liftIo (create_dir_all E parent)) (\<lambda>_.
          andThen
            (if tighten_for_system_dir then
               andThen (ignore (set_permissions E parent 0x1C0)) (\<lambda>_.
               ignore (chown E parent 0 0))
             else ok ())
            (\<lambda>_. ok parent)))"

definition seal_key_bytes_to_path ::
  "('w, 'z) platform_scheme \<Rightarrow> byte list \<Rightarrow> string \<Rightarrow> string \<Rightarrow> ('w, unit, pin_error) eff"
where
  "seal_key_bytes_to_path E key_bytes phrase path =
     andThen (ensure_dir_for_path E path False) (\<lambda>_.
     andThen (os_rng E 16) (\<lambda>salt.
     andThen (os_rng E 12) (\<lambda>nonce.
     andThen (derive_aes_key_from_phrase E phrase salt) (\<lambda>aes_key.
     andThen (checked_io (aes_key_check E aes_key) ()) (\<lambda>_.
     andThen (liftIo (pure (aes_encrypt E aes_key nonce key_bytes))) (\<lambda>ciphertext.
     andThen (peek (now_unix_ms E)) (\<lambda>created.
     let sealed = \<lparr>version = SEALED_FILE_VERSION, created_unix_ms = created,
           salt_b64 = b64_encode E salt, nonce_b64 = b64_encode E nonce,
           ciphertext_b64 = b64_encode E ciphertext\<rparr> in
     andThen (liftIo (pure (sealed_to_json E sealed))) (\<lambda>json.
     andThen (liftIo (open_create_new E path 0x180)) (\<lambda>file.
     andThen (liftIo (write_all E file json)) (\<lambda>_.
     andThen (liftIo (write_all E file [10])) (\<lambda>_.
     andThen (ignore (set_permissions E path 0x180)) (\<lambda>_.
     andThen (ignore (chown E path 0 0)) (\<lambda>_.
     ok ())))))))))))))"

definition unseal_key_bytes_from_path ::
  "('w, 'z) platform_scheme \<Rightarrow> string \<Rightarrow> string \<Rightarrow> ('w, byte list, pin_error) eff"
where
  "unseal_key_bytes_from_path E phrase path =
     andThen (liftIo (read_file E path)) (\<lambda>data.
     andThen (liftIo (pure (sealed_of_json E data))) (\<lambda>sealed.
     if version sealed \<noteq> SEALED_FILE_VERSION then
       err (IoError (tr E ''mk_unsupported_sealed_file_version'' []))
     else
       andThen (liftIo (pure (b64_decode E (salt_b64 sealed)))) (\<lambda>salt.
       andThen (liftIo (pure (b64_decode E (nonce_b64 sealed)))) (\<lambda>nonce.
       andThen (liftIo (pure (b64_decode E (ciphertext_b64 sealed)))) (\<lambda>ciphertext.
       if length nonce \<noteq> 12 then err (IoError (tr E ''mk_invalid_nonce_length'' []))
       else
         andThen (derive_aes_key_from_phrase E phrase salt) (\<lambda>aes_key.
         andThen (checked_io (aes_key_check E aes_key) ()) (\<lambda>_.
         liftIo (pure (aes_decrypt E aes_key nonce ciphertext)))))))))"

section \<open>The operations\<close>

definition generate_recovery_phrase ::
  "('w, 'z) platform_scheme \<Rightarrow> ('w, string, pin_error) eff"
where
  "generate_recovery_phrase E = liftIo (mnemonic24 E)"

definition mk_init ::
  "('w, 'z) platform_scheme \<Rightarrow> process \<Rightarrow> pin_policy \<Rightarrow> ('w, master_key_init_result, pin_error) eff"
where
  "mk_init E ps p =
     andThen (ensure_root_real_uid ps) (\<lambda>_.
     andThen (peek (path_exists E MASTER_KEY_SEALED_FILE)) (\<lambda>exists.
     if exists then err (IoError (tr E ''mk_sealed_file_already_exists'' []))
     else
       andThen (os_rng E HMAC_KEY_LEN) (\<lambda>hmac_key.
       andThen (generate_recovery_phrase E) (\<lambda>phrase.
       andThen (provision_tpm_objects E p hmac_key) (\<lambda>_.
       andThen (ignore (ensure_dir_for_path E MASTER_KEY_SEALED_FILE True)) (\<lambda>_.
       andThen
         (matchRes (seal_key_bytes_to_path E hmac_key phrase MASTER_KEY_SEALED_FILE)
            (\<lambda>_. ok ())
            (\<lambda>e. andThen (ignore (clear_from_tpm E ps p)) (\<lambda>_. err e)))
         (\<lambda>_.
       andThen (mk_status E p) (\<lambda>st.
       ok \<lparr>recovery_phrase = phrase, init_status = st\<rparr>))))))))"

definition import_to_tpm ::
  "('w, 'z) platform_scheme \<Rightarrow> process \<Rightarrow> pin_policy \<Rightarrow> string \<Rightarrow> ('w, master_key_status, pin_error) eff"
where
  "import_to_tpm E ps p phrase =
     andThen (ensure_root_real_uid ps) (\<lambda>_.
     andThen (mk_status E p) (\<lambda>current.
     if rsa_parent_present current then
       err (TpmError (tr E ''mk_rsa_parent_already_present_refuse_import'' []))
     else if hmac_key_present current then
       err (TpmError (tr E ''mk_hmac_handle_already_present_refuse_import'' []))
     else if \<not> sealed_file_present current then
       err (IoError (tr E ''mk_sealed_file_not_present'' []))
     else
       andThen (unseal_key_bytes_from_path E phrase MASTER_KEY_SEALED_FILE) (\<lambda>key_bytes.
       if length key_bytes \<noteq> HMAC_KEY_LEN then
         err (IoError (tr E ''mk_sealed_data_unexpected_length'' []))
       else
         andThen (provision_tpm_objects E p key_bytes) (\<lambda>_.
         mk_status E p))))"

definition clear_from_disk ::
  "('w, 'z) platform_scheme \<Rightarrow> process \<Rightarrow> ('w, unit, pin_error) eff"
where
  "clear_from_disk E ps =
     andThen (ensure_root_real_uid ps) (\<lambda>_.
     matchRes (remove_file E MASTER_KEY_SEALED_FILE)
       (\<lambda>_. ok ())
       (\<lambda>e. case e of IoNotFound _ \<Rightarrow> ok () | IoOther s \<Rightarrow> err (IoError s)))"

definition derive_user_token ::
  "('w, 'z) platform_scheme \<Rightarrow> pin_policy \<Rightarrow> string \<Rightarrow> ('w, string, pin_error) eff"
where
  "derive_user_token E p username =
     andThen (new_context E p) (\<lambda>_.
     andThen (liftTss E (checked (persistent_check E MASTER_KEY_HMAC_HANDLE)
        MASTER_KEY_HMAC_HANDLE)) (\<lambda>h.
     andThen (liftTss E (without_session E (tr_from_persistent E h))) (\<lambda>object.
     andThen (liftTss E (checked (max_buffer_check E (as_bytes username)) (as_bytes username))) (\<lambda>buffer.
     andThen (liftTss E (with_nullauth E (hmac E object buffer Sha256))) (\<lambda>digest.
     ok (hex_encode E digest))))))"

end
