(* ===== verification/PinIndex.thy ===== *)
theory PinIndex imports PinError begin

text \<open>
  \<open>pinpam-core/src/pinindex.rs\<close>: where a user's PIN slot and version tag live in the TPM's
  NV index space.  The layout's interface (two injective, disjoint regions on the same users) is
  the locale \<open>nv_layout\<close>, which the PIN manager's frame arguments use.
\<close>

definition nv_index_for_uid :: "('w, 'z) tss_scheme \<Rightarrow> u32 \<Rightarrow> (nv_handle, pin_error) res" where
  "nv_index_for_uid T uid =
     (if PIN_VERSION_UID_MAX < uid then Err (UidOverflow uid)
      else
        (case checked_add32 PIN_NV_INDEX_BASE uid of
           None \<Rightarrow> Err (UidOverflow uid)
         | Some index_value \<Rightarrow>
             (case nv_index_check T index_value of
                None \<Rightarrow> Ok index_value
              | Some e \<Rightarrow> Err (TpmError (tss_text T e)))))"

definition version_nv_index_for_uid ::
  "('w, 'z) tss_scheme \<Rightarrow> u32 \<Rightarrow> (nv_handle, pin_error) res"
where
  "version_nv_index_for_uid T uid =
     (if PIN_VERSION_UID_MAX < uid then Err (UidOverflow uid)
      else
        (case Option.bind (checked_add32 PIN_NV_INDEX_BASE PIN_VERSION_NV_INDEX_OFFSET)
                (\<lambda>base. checked_add32 base uid) of
           None \<Rightarrow> Err (UidOverflow uid)
         | Some index_value \<Rightarrow>
             (case nv_index_check T index_value of
                None \<Rightarrow> Ok index_value
              | Some e \<Rightarrow> Err (TpmError (tss_text T e)))))"

section \<open>The layout as an interface\<close>

locale nv_layout =
  fixes slot tag :: "'u \<Rightarrow> ('i, 'e) res"
  assumes slot_inj: "slot u = Ok i \<Longrightarrow> slot v = Ok i \<Longrightarrow> u = v"
    and tag_inj: "tag u = Ok i \<Longrightarrow> tag v = Ok i \<Longrightarrow> u = v"
    and slot_tag: "slot u = Ok i \<Longrightarrow> tag v = Ok j \<Longrightarrow> i \<noteq> j"
begin

lemma slot_neq: "slot u = Ok i \<Longrightarrow> slot v = Ok j \<Longrightarrow> u \<noteq> v \<Longrightarrow> i \<noteq> j"
  using slot_inj by blast

lemma tag_neq: "tag u = Ok i \<Longrightarrow> tag v = Ok j \<Longrightarrow> u \<noteq> v \<Longrightarrow> i \<noteq> j"
  using tag_inj by blast

lemma tag_slot: "tag v = Ok j \<Longrightarrow> slot u = Ok i \<Longrightarrow> j \<noteq> i"
  using slot_tag by blast

text \<open>An index is one user's slot, one user's tag, or nobody's.\<close>

lemma owner_unique:
  "slot u = Ok i \<or> tag u = Ok i \<Longrightarrow> slot v = Ok i \<or> tag v = Ok i \<Longrightarrow> u = v"
  using slot_inj tag_inj slot_tag by blast

text \<open>Writes to one user's indices leave every other user's entries alone.\<close>

lemma frame:
  assumes "slot u = Ok i" "tag u = Ok j" "slot v = Ok i' \<or> tag v = Ok i'" "u \<noteq> v"
  shows "(m(i := a, j := b)) i' = m i'"
proof -
  have "i' \<noteq> i" "i' \<noteq> j" using assms owner_unique by blast+
  then show ?thesis by simp
qed

end

lemma unat_uid_max: "\<not> PIN_VERSION_UID_MAX < uid \<longleftrightarrow> unat uid < 2 ^ 23"
  by (auto simp: word_less_nat_alt pin_constants)

lemma nv_index_Ok_iff:
  "nv_index_for_uid T uid = Ok i \<longleftrightarrow>
     unat uid < 2 ^ 23 \<and> i = 0x01000000 + uid \<and> nv_index_check T i = None"
  using unat_uid_max [of uid]
  by (auto simp: nv_index_for_uid_def checked_add32_def pin_constants(1) split: option.splits)

lemma version_nv_index_Ok_iff:
  "version_nv_index_for_uid T uid = Ok i \<longleftrightarrow>
     unat uid < 2 ^ 23 \<and> i = 0x01800000 + uid \<and> nv_index_check T i = None"
  using unat_uid_max [of uid]
  by (auto simp: version_nv_index_for_uid_def checked_add32_def pin_constants(1,2,3)
      split: option.splits)

lemma unat_nv_index:
  "nv_index_for_uid T uid = Ok i \<Longrightarrow> unat i = 0x01000000 + unat uid \<and> unat uid < 2 ^ 23"
  by (auto simp: nv_index_Ok_iff unat_add32)

lemma unat_version_nv_index:
  "version_nv_index_for_uid T uid = Ok i \<Longrightarrow> unat i = 0x01800000 + unat uid \<and> unat uid < 2 ^ 23"
  by (auto simp: version_nv_index_Ok_iff unat_add32)

interpretation layout: nv_layout "nv_index_for_uid T" "version_nv_index_for_uid T" for T
proof
  fix u v i assume "nv_index_for_uid T u = Ok i" "nv_index_for_uid T v = Ok i"
  then show "u = v" by (simp add: nv_index_Ok_iff)
next
  fix u v i assume "version_nv_index_for_uid T u = Ok i" "version_nv_index_for_uid T v = Ok i"
  then show "u = v" by (simp add: version_nv_index_Ok_iff)
next
  fix u v i j assume "nv_index_for_uid T u = Ok i" "version_nv_index_for_uid T v = Ok j"
  then have "unat i < 0x01800000" "0x01800000 \<le> unat j"
    using unat_nv_index [of T u i] unat_version_nv_index [of T v j] by simp_all
  then show "i \<noteq> j" by auto
qed

section \<open>Properties\<close>

text \<open>C32: Every index computed lies in its half of the owner's NV range, a slot below
  \<open>0x01800000\<close> and a version tag from there on, and two indices, slots or tags, coincide only
  when both are of the same kind and the same user's.\<close>
theorem index_layout:
  assumes "nv_index_for_uid T u = Ok i" and "version_nv_index_for_uid T u = Ok j"
    and "nv_index_for_uid T v = Ok i'" and "version_nv_index_for_uid T v = Ok j'"
  shows "0x01000000 \<le> unat i \<and> unat i < 0x01800000 \<and> 0x01800000 \<le> unat j \<and> unat j < 0x02000000 \<and>
    i \<noteq> j' \<and> (i = i' \<longleftrightarrow> u = v) \<and> (j = j' \<longleftrightarrow> u = v)"
  using assms unat_nv_index [OF assms(1)] unat_version_nv_index [OF assms(2)]
    layout.slot_tag [OF assms(1,4)] layout.slot_inj [of T u i v] layout.tag_inj [of T u j v] by auto

text \<open>The two index computations are total and refuse exactly the user ids above \<open>0x7FFFFF\<close>
  and the values the TPM library's handle type rejects; the checked additions never overflow.\<close>
lemma index_total:
  "nv_index_for_uid T uid =
     (if 2 ^ 23 \<le> unat uid then Err (UidOverflow uid)
      else case nv_index_check T (0x01000000 + uid) of
             None \<Rightarrow> Ok (0x01000000 + uid) | Some e \<Rightarrow> Err (TpmError (tss_text T e))) \<and>
   version_nv_index_for_uid T uid =
     (if 2 ^ 23 \<le> unat uid then Err (UidOverflow uid)
      else case nv_index_check T (0x01800000 + uid) of
             None \<Rightarrow> Ok (0x01800000 + uid) | Some e \<Rightarrow> Err (TpmError (tss_text T e)))"
  using unat_uid_max [of uid]
  by (auto simp: nv_index_for_uid_def version_nv_index_for_uid_def checked_add32_def pin_constants(1,2,3))

end
