(* ===== verification/PinManager.thy ===== *)
theory PinManager imports PinIndex Util begin

text \<open>
  \<open>pinpam-core/src/pinmanager.rs\<close>, operation by operation.  The manager's \<open>context\<close> is
  part of the world; its policy and TCTI spec, which no operation changes, are the record
  \<open>pin_manager\<close>.
\<close>

record pin_manager =
  policy :: pin_policy
  mgr_tcti_spec :: string

section \<open>Contexts\<close>

definition with_tcti ::
  "('w, 'z) tss_scheme \<Rightarrow> pin_policy \<Rightarrow> string \<Rightarrow> ('w, pin_manager, pin_error) eff"
where
  "with_tcti T p spec =
     andThen (pure (parse_tcti_spec T spec)) (\<lambda>conf.
     andThen (liftTss T (context_new T conf)) (\<lambda>_.
     ok \<lparr>policy = p, mgr_tcti_spec = spec\<rparr>))"

definition manager_new :: "('w, 'z) tss_scheme \<Rightarrow> pin_policy \<Rightarrow> ('w, pin_manager, pin_error) eff" where
  "manager_new T p = with_tcti T p (tcti_spec p)"

definition clear_sessions :: "('w, 'z) tss_scheme \<Rightarrow> ('w, unit, 'e) eff" where
  "clear_sessions T = act (ctx_clear_sessions T)"

definition restart_context :: "('w, 'z) tss_scheme \<Rightarrow> pin_manager \<Rightarrow> ('w, unit, pin_error) eff" where
  "restart_context T m =
     andThen (pure (parse_tcti_spec T (mgr_tcti_spec m))) (\<lambda>conf.
     andThen (liftTss T (context_new T conf)) (\<lambda>_. ok ()))"

text \<open>\<open>let result = m; self.clear_sessions();\<close> before \<open>result\<close> is examined.\<close>

definition then_clear :: "('w, 'z) tss_scheme \<Rightarrow> ('w, 'a, 'e) eff \<Rightarrow> ('w, 'a, 'e) eff" where
  "then_clear T m =
     matchRes m
       (\<lambda>x. andThen (clear_sessions T) (\<lambda>_. ok x))
       (\<lambda>e. andThen (clear_sessions T) (\<lambda>_. err e))"

text \<open>\<open>Some(Handle) | Some(NvUninitialized)\<close>: the index is not there, or never written.\<close>

definition is_missing :: "('w, 'z) tss_scheme \<Rightarrow> tss_error \<Rightarrow> bool" where
  "is_missing T e =
     (case e of
        Tss2Error rc \<Rightarrow> rc_kind T rc = Some RcHandle \<or> rc_kind T rc = Some RcNvUninitialized
      | WrapperError _ \<Rightarrow> False)"

definition is_auth_failure :: "('w, 'z) tss_scheme \<Rightarrow> tss_error \<Rightarrow> bool" where
  "is_auth_failure T e =
     (case e of
        Tss2Error rc \<Rightarrow> rc_kind T rc = Some RcAuthFail \<or> rc_kind T rc = Some RcBadAuth
      | WrapperError _ \<Rightarrow> False)"

section \<open>Reading the slot\<close>

definition read_pin_slot_owner ::
  "('w, 'z) tss_scheme \<Rightarrow> nv_handle \<Rightarrow> ('w, pin_data option, pin_error) eff"
where
  "read_pin_slot_owner T nvi =
     matchRes
       (then_clear T (with_nullauth T
         (andThen (nv_read_full T AuthOwner nvi) (\<lambda>data.
            case from_bytes data of
              Some slot \<Rightarrow> ok slot
            | None \<Rightarrow> err (WrapperError WrongValueFromTpm)))))
       (\<lambda>slot. ok (Some slot))
       (\<lambda>e. if is_missing T e then ok None else err (from_tss T e))"

definition is_locked_out :: "('w, 'z) tss_scheme \<Rightarrow> u32 \<Rightarrow> ('w, bool, pin_error) eff" where
  "is_locked_out T uid =
     andThen (pure (nv_index_for_uid T uid)) (\<lambda>nvi.
     andThen (read_pin_slot_owner T nvi) (\<lambda>opt.
     case opt of
       Some slot \<Rightarrow> if slot_locked slot then ok True else ok False
     | None \<Rightarrow> ok False))"

definition get_attempt_count :: "('w, 'z) tss_scheme \<Rightarrow> u32 \<Rightarrow> ('w, u32 option, pin_error) eff" where
  "get_attempt_count T uid =
     andThen (pure (nv_index_for_uid T uid)) (\<lambda>nvi.
     andThen (read_pin_slot_owner T nvi) (\<lambda>opt.
     case opt of
       Some slot \<Rightarrow> ok (Some (pinCount slot))
     | None \<Rightarrow> ok None))"

definition get_pin_slot :: "('w, 'z) tss_scheme \<Rightarrow> u32 \<Rightarrow> ('w, pin_data option, pin_error) eff" where
  "get_pin_slot T uid =
     andThen (pure (nv_index_for_uid T uid)) (\<lambda>nvi. read_pin_slot_owner T nvi)"

section \<open>The version tag\<close>

definition read_pin_version_tag ::
  "('w, 'z) tss_scheme \<Rightarrow> u32 \<Rightarrow> ('w, u8 option, pin_error) eff"
where
  "read_pin_version_tag T uid =
     andThen (pure (version_nv_index_for_uid T uid)) (\<lambda>nvi.
     matchRes
       (then_clear T (with_nullauth T (nv_read_full T AuthOwner nvi)))
       (\<lambda>data.
          if length data \<noteq> PIN_VERSION_TAG_SIZE then
            err (TpmError (''invalid PIN version tag payload size: '' @ show_nat (length data)))
          else ok (case data of [] \<Rightarrow> None | b # _ \<Rightarrow> Some b))
       (\<lambda>e. if is_missing T e then ok None else err (from_tss T e)))"

definition write_pin_version_tag_existing ::
  "('w, 'z) tss_scheme \<Rightarrow> nv_handle \<Rightarrow> u8 \<Rightarrow> ('w, unit, pin_error) eff"
where
  "write_pin_version_tag_existing T nvi version =
     liftTss T (then_clear T (with_nullauth T
       (andThen (tr_from_tpm_public T nvi) (\<lambda>handle.
        andThen (checked (max_nv_buffer_check T [version]) [version]) (\<lambda>payload.
        nv_write T AuthOwner handle payload 0)))))"

definition version_tag_attributes :: nv_attributes where
  "version_tag_attributes =
     \<lparr>nv_index_type = Ordinary, auth_read = False, owner_read = True, owner_write = True,
      policy_write = False, no_da = True\<rparr>"

definition version_tag_public :: "nv_handle \<Rightarrow> nv_public" where
  "version_tag_public nvi =
     \<lparr>nv_index = nvi, index_attributes = version_tag_attributes,
      data_area_size = PIN_VERSION_TAG_SIZE, index_auth_policy = []\<rparr>"

definition define_pin_version_tag ::
  "('w, 'z) tss_scheme \<Rightarrow> nv_handle \<Rightarrow> ('w, unit, pin_error) eff"
where
  "define_pin_version_tag T nvi =
     andThen (liftTss T (with_nullauth T
       (andThen (checked (attributes_check T version_tag_attributes) version_tag_attributes) (\<lambda>_.
        andThen (checked (nv_public_check T (version_tag_public nvi)) (version_tag_public nvi)) (\<lambda>pub.
        andThen (nv_define_space T None pub) (\<lambda>_. ok ())))))) (\<lambda>_.
     andThen (clear_sessions T) (\<lambda>_. ok ()))"

definition write_pin_version_tag ::
  "('w, 'z) tss_scheme \<Rightarrow> u32 \<Rightarrow> u8 \<Rightarrow> ('w, unit, pin_error) eff"
where
  "write_pin_version_tag T uid version =
     andThen (pure (version_nv_index_for_uid T uid)) (\<lambda>nvi.
     matchRes (write_pin_version_tag_existing T nvi version)
       ok
       (\<lambda>e. case e of
              TpmError _ \<Rightarrow>
                andThen (define_pin_version_tag T nvi) (\<lambda>_.
                write_pin_version_tag_existing T nvi version)
            | _ \<Rightarrow> err e))"

definition delete_pin_version_tag :: "('w, 'z) tss_scheme \<Rightarrow> u32 \<Rightarrow> ('w, unit, pin_error) eff" where
  "delete_pin_version_tag T uid =
     andThen (pure (version_nv_index_for_uid T uid)) (\<lambda>nvi.
     matchRes
       (then_clear T (with_nullauth T
         (andThen (tr_from_tpm_public T nvi) (\<lambda>handle. nv_undefine_space T handle))))
       ok
       (\<lambda>e. if is_missing T e then ok () else err (from_tss T e)))"

text \<open>The test hook that simulates a slot from before version tags.\<close>

definition test_remove_version_tag :: "('w, 'z) tss_scheme \<Rightarrow> u32 \<Rightarrow> ('w, unit, pin_error) eff" where
  "test_remove_version_tag T uid = delete_pin_version_tag T uid"

section \<open>Deleting\<close>

definition delete_pin_admin :: "('w, 'z) tss_scheme \<Rightarrow> u32 \<Rightarrow> ('w, unit, pin_error) eff" where
  "delete_pin_admin T uid =
     andThen (pure (nv_index_for_uid T uid)) (\<lambda>nvi.
     andThen
       (matchRes
         (then_clear T (with_nullauth T
           (andThen (tr_from_tpm_public T nvi) (\<lambda>handle.
            andThen (nv_undefine_space T handle) (\<lambda>_. ok ())))))
         ok
         (\<lambda>e. if is_missing T e then err (NotProvisioned uid) else err (from_tss T e)))
       (\<lambda>_. matchRes (delete_pin_version_tag T uid) (\<lambda>_. ok ()) (\<lambda>_. ok ())))"

section \<open>Defining a slot\<close>

definition pin_slot_attributes :: nv_attributes where
  "pin_slot_attributes =
     \<lparr>nv_index_type = PinFail, auth_read = True, owner_read = True, owner_write = False,
      policy_write = True, no_da = True\<rparr>"

definition pin_slot_public :: "nv_handle \<Rightarrow> digest \<Rightarrow> nv_public" where
  "pin_slot_public nvi dig =
     \<lparr>nv_index = nvi, index_attributes = pin_slot_attributes,
      data_area_size = PIN_DATA_SIZE, index_auth_policy = dig\<rparr>"

text \<open>
  A session of the given type, carrying the policy \<open>NvWrite\<close> and \<open>not yet written\<close>: the
  steps both halves of \<open>define_pin_slot\<close> take.
\<close>

definition start_write_policy ::
  "('w, 'z) tss_scheme \<Rightarrow> session_type \<Rightarrow> string \<Rightarrow> ('w, esys_tr, tss_error) eff"
where
  "start_write_policy T st msg =
     andThen (start_auth_session T st) (\<lambda>opt.
     case opt of
       None \<Rightarrow> panic msg
     | Some s \<Rightarrow>
         andThen (tr_sess_set_attributes T s) (\<lambda>_.
         andThen (checked (policy_session_check T s) s) (\<lambda>policy_session.
         andThen (tr_sess_set_attributes T policy_session) (\<lambda>_.
         andThen (policy_command_code T policy_session CcNvWrite) (\<lambda>_.
         andThen (policy_nv_written T policy_session False) (\<lambda>_. ok policy_session))))))"

definition pin_slot_template ::
  "('w, 'z) tss_scheme \<Rightarrow> nv_handle \<Rightarrow> ('w, nv_public \<times> digest, tss_error) eff"
where
  "pin_slot_template T nvi =
     without_session T
       (andThen (start_write_policy T Trial ''Failed to create trial session'') (\<lambda>trial.
        andThen (policy_get_digest T trial) (\<lambda>dig.
        andThen (checked (attributes_check T pin_slot_attributes) pin_slot_attributes) (\<lambda>_.
        andThen (checked (nv_public_check T (pin_slot_public nvi dig)) (pin_slot_public nvi dig)) (\<lambda>pub.
        andThen (clear_sessions T) (\<lambda>_.
        andThen (flush_context T trial) (\<lambda>_. ok (pub, dig))))))))"

definition write_initial_slot ::
  "('w, 'z) tss_scheme \<Rightarrow> pin_manager \<Rightarrow> nv_handle \<Rightarrow> byte list \<Rightarrow> ('w, unit, tss_error) eff"
where
  "write_initial_slot T m nvi auth_value =
     without_session T
       (andThen (start_write_policy T Policy ''Failed to create auth session'') (\<lambda>auth_session.
        andThen (tr_from_tpm_public T nvi) (\<lambda>handle.
        andThen
          (with_session T auth_session
            (andThen (tr_set_auth T auth_session auth_value) (\<lambda>_.
             let initial_bytes = to_bytes (pin_data_new 0 (max_attempts (policy m))) in
             case max_nv_buffer_check T initial_bytes of
               Some _ \<Rightarrow> panic ''called Result::unwrap() on an Err value''
             | None \<Rightarrow>
                 andThen (nv_write T (AuthNvIndex handle) handle initial_bytes 0) (\<lambda>_. ok ()))))
          (\<lambda>_. ok ()))))"

definition define_pin_slot ::
  "('w, 'z) tss_scheme \<Rightarrow> pin_manager \<Rightarrow> nv_handle \<Rightarrow> byte list \<Rightarrow> ('w, unit, pin_error) eff"
where
  "define_pin_slot T m nvi pin_bytes =
     andThen (liftTss T (checked (auth_check T pin_bytes) pin_bytes)) (\<lambda>auth_value.
     andThen (liftTss T (pin_slot_template T nvi)) (\<lambda>(pub, _).
     andThen (liftTss T (with_nullauth T
       (andThen (nv_define_space T (Some auth_value) pub) (\<lambda>_. ok ())))) (\<lambda>_.
     andThen (liftTss T (write_initial_slot T m nvi auth_value)) (\<lambda>_. ok ()))))"

section \<open>Provisioning\<close>

definition setup_pin ::
  "('w, 'z) tss_scheme \<Rightarrow> pin_manager \<Rightarrow> u32 \<Rightarrow> pin \<Rightarrow> ('w, unit, pin_error) eff"
where
  "setup_pin T m uid pin =
     andThen (pure (nv_index_for_uid T uid)) (\<lambda>nvi.
     andThen (read_pin_slot_owner T nvi) (\<lambda>slot.
     if slot \<noteq> None then err (AlreadyProvisioned uid)
     else
       andThen (define_pin_slot T m nvi (pin_as_bytes pin)) (\<lambda>_.
       andThen (restart_context T m) (\<lambda>_.
       matchRes (write_pin_version_tag T uid PIN_VERSION_CURRENT)
         (\<lambda>_. ok ())
         (\<lambda>e.
            andThen (restart_context T m) (\<lambda>_.
            matchRes (delete_pin_admin T uid)
              (\<lambda>_. err (TpmError (''failed to write PIN version tag: '' @ show_pin_error T e)))
              (\<lambda>cleanup_err. err (TpmError
                 (''failed to write PIN version tag ('' @ show_pin_error T e @
                  '') and failed to rollback PIN setup ('' @ show_pin_error T cleanup_err @ '')''))))))))) "

section \<open>Verifying\<close>

definition verify_pin_exact ::
  "('w, 'z) tss_scheme \<Rightarrow> u32 \<Rightarrow> byte list \<Rightarrow> ('w, verification_result, pin_error) eff"
where
  "verify_pin_exact T uid pin_bytes =
     andThen (pure (nv_index_for_uid T uid)) (\<lambda>nvi.
     andThen (liftTss T (tr_from_tpm_public T nvi)) (\<lambda>handle.
     matchRes
       (andThen
         (with_nullauth T
           (andThen (checked (auth_check T pin_bytes) pin_bytes) (\<lambda>auth.
            andThen (tr_set_auth T handle auth) (\<lambda>_.
            nv_read T (AuthNvIndex handle) handle PIN_DATA_SIZE 0))))
         (\<lambda>data.
            case from_bytes data of
              None \<Rightarrow> err (WrapperError WrongValueFromTpm)
            | Some slot \<Rightarrow> ok (if slot_locked slot then VerifyLockedOut else VerifySuccess slot)))
       ok
       (\<lambda>e.
          if is_auth_failure T e then
            matchRes (read_pin_slot_owner T nvi)
              (\<lambda>opt. ok (VerifyInvalid (case opt of Some slot \<Rightarrow> slot_locked slot | None \<Rightarrow> False)))
              (\<lambda>_. ok (VerifyInvalid False))
          else if is_missing T e then err (NotProvisioned uid)
          else err (from_tss T e))))"

definition migrate_legacy_pin_format ::
  "('w, 'z) tss_scheme \<Rightarrow> pin_manager \<Rightarrow> u32 \<Rightarrow> pin \<Rightarrow> ('w, unit, pin_error) eff"
where
  "migrate_legacy_pin_format T m uid entered_pin =
     (let legacy_pin = normalize_legacy_pin entered_pin in
      if legacy_pin = entered_pin then write_pin_version_tag T uid PIN_VERSION_CURRENT
      else
        andThen (delete_pin_admin T uid) (\<lambda>_.
        andThen (restart_context T m) (\<lambda>_.
        andThen (setup_pin T m uid entered_pin) (\<lambda>_.
        andThen (restart_context T m) (\<lambda>_. ok ())))))"

definition is_success :: "verification_result \<Rightarrow> bool" where
  "is_success r = (case r of VerifySuccess _ \<Rightarrow> True | _ \<Rightarrow> False)"

definition verify_pin ::
  "('w, 'z) tss_scheme \<Rightarrow> pin_manager \<Rightarrow> u32 \<Rightarrow> pin \<Rightarrow> ('w, verification_result, pin_error) eff"
where
  "verify_pin T m uid pin =
     andThen (clear_sessions T) (\<lambda>_.
     andThen (read_pin_version_tag T uid) (\<lambda>tag.
     case tag of
       Some version \<Rightarrow>
         if version \<noteq> PIN_VERSION_CURRENT then
           err (TpmError (''unsupported PIN version tag: '' @ show_nat (unat version)))
         else verify_pin_exact T uid (pin_as_bytes pin)
     | None \<Rightarrow>
         andThen (verify_pin_exact T uid (as_bytes (normalize_legacy_pin pin))) (\<lambda>pin_result.
         if is_success pin_result then
           andThen (restart_context T m) (\<lambda>_.
           matchRes (migrate_legacy_pin_format T m uid pin)
             (\<lambda>_. andThen (restart_context T m) (\<lambda>_. ok pin_result))
             (\<lambda>_. andThen (restart_context T m) (\<lambda>_. ok pin_result)))
         else ok pin_result)))"

definition delete_pin_with_auth ::
  "('w, 'z) tss_scheme \<Rightarrow> pin_manager \<Rightarrow> u32 \<Rightarrow> pin \<Rightarrow> ('w, delete_result, pin_error) eff"
where
  "delete_pin_with_auth T m uid pin =
     andThen (verify_pin T m uid pin) (\<lambda>r.
     case r of
       VerifySuccess _ \<Rightarrow> andThen (delete_pin_admin T uid) (\<lambda>_. ok DeleteSuccess)
     | VerifyInvalid l \<Rightarrow> ok (DeleteInvalid l)
     | VerifyLockedOut \<Rightarrow> ok DeleteLockedOut)"

end
