(* ===== verification/Pinutil.thy ===== *)
theory Pinutil imports MasterKey PinManager begin

text \<open>
  \<open>pinutil/src/main.rs\<close> and \<open>sandbox.rs\<close>: the command-line utility, command by command.

  The record \<open>os\<close> adds to the platform what one run of the process sees: the command-line
  parser (\<open>clap\<close>), the translations of this crate, the JSON encoder (\<open>serde_json\<close>),
  \<open>landlock\<close>, the user database, the process ids, the policy file, and the terminal.  Rust's
  \<open>print!\<close> family panics when the stream fails; \<open>u32\<close> subtraction panics or wraps,
  depending on how the program was built.
\<close>

section \<open>The process and its terminal\<close>

datatype commands =
  Setup "string option"
| Change "string option"
| Delete "string option"
| Test "string option"
| Status "string option"
| MkInit
| MkStatus
| MkImportToTpm
| MkClearFromTpm
| MkClearFromDisk
| MkGetUserToken string

record cli =
  command :: commands
  verbose :: bool
  machine_flag :: bool

text \<open>What a command reports in machine mode: \<open>Result<T, PinError>\<close> at the type \<open>T\<close> of the
  command.\<close>

datatype report =
  RUnit
| RInfo "attempt_info option"
| RStatus master_key_status
| RInit master_key_init_result
| RToken string

record termios =
  local_flags :: u32
  other_modes :: nat

record ruleset =
  deny_writes :: bool
  deny_net :: bool
  write_beneath :: "string list"

datatype ruleset_status = FullyEnforced | PartiallyEnforced | NotEnforced

record 'w os = "'w platform" +
  parse_cli :: "string list \<Rightarrow> (cli, nat) res"
  ui_tr :: "string \<Rightarrow> (string \<times> string) list \<Rightarrow> string"
  to_json :: "pin_error + report \<Rightarrow> (string, string) res"
  show_hex8 :: "u32 \<Rightarrow> string"
  overflow_checks :: bool
  ECHO :: u32
  user_table :: user_db
  proc :: process
  policy_files :: file_sys
  stdin_is_terminal :: bool
  stdin_read_line :: "('w, string, string) eff"
  stdout_write :: "string \<Rightarrow> ('w, unit, string) eff"
  stdout_flush :: "('w, unit, string) eff"
  stderr_write :: "string \<Rightarrow> ('w, unit, string) eff"
  stderr_flush :: "('w, unit, string) eff"
  tcgetattr :: "('w, termios, string) eff"
  tcsetattr :: "termios \<Rightarrow> ('w, unit, string) eff"
  set_env :: "string \<Rightarrow> string \<Rightarrow> 'w \<Rightarrow> 'w"
  ll_handle_fs :: "ruleset \<Rightarrow> string option"
  ll_handle_net :: "ruleset \<Rightarrow> string option"
  ll_create :: "ruleset \<Rightarrow> string option"
  ll_add_rules :: "ruleset \<Rightarrow> string option"
  ll_restrict_self :: "ruleset \<Rightarrow> ('w, ruleset_status, string) eff"

abbreviation newline :: char where "newline \<equiv> CHR 0x0A"

text \<open>How \<open>main\<close> can stop: \<open>process::exit\<close>, or an error returned from \<open>main\<close>.\<close>

datatype main_stop = Exited nat | MainErr pin_error

fun exit_code :: "(unit, main_stop) res \<Rightarrow> nat" where
  "exit_code (Ok _) = 0"
| "exit_code (Err (Exited n)) = n"
| "exit_code (Err (MainErr _)) = 1"
| "exit_code (Panic _) = 101"

definition print :: "('w, 'z) os_scheme \<Rightarrow> string \<Rightarrow> ('w, unit, 'e) eff" where
  "print E s = matchRes (stdout_write E s) ok (\<lambda>_. panic ''failed printing to stdout'')"

definition println :: "('w, 'z) os_scheme \<Rightarrow> string \<Rightarrow> ('w, unit, 'e) eff" where
  "println E s = print E (s @ [newline])"

definition eprint :: "('w, 'z) os_scheme \<Rightarrow> string \<Rightarrow> ('w, unit, 'e) eff" where
  "eprint E s = matchRes (stderr_write E s) ok (\<lambda>_. panic ''failed printing to stderr'')"

definition eprintln :: "('w, 'z) os_scheme \<Rightarrow> string \<Rightarrow> ('w, unit, 'e) eff" where
  "eprintln E s = eprint E (s @ [newline])"

text \<open>\<open>PinPolicy::cached()\<close>: the first call of the process loads it.\<close>

definition cached_policy :: "('w, 'z) os_scheme \<Rightarrow> pin_policy" where
  "cached_policy E = fst (cached E (policy_files E) None)"

abbreviation liftErrno :: "('w, 'a, string) eff \<Rightarrow> ('w, 'a, pin_error) eff" where
  "liftErrno \<equiv> mapErr from_errno"

text \<open>\<open>if !machine { m }\<close>.\<close>

abbreviation unless_machine :: "bool \<Rightarrow> ('w, unit, 'e) eff \<Rightarrow> ('w, unit, 'e) eff" where
  "unless_machine machine m \<equiv> if \<not> machine then m else ok ()"

section \<open>Prompts\<close>

definition require_root :: "('w, 'z) os_scheme \<Rightarrow> ('w, unit, pin_error) eff" where
  "require_root E = (if get_uid (proc E) \<noteq> 0 then err PermissionDenied else ok ())"

definition require_interactive ::
  "('w, 'z) os_scheme \<Rightarrow> bool \<Rightarrow> string \<Rightarrow> ('w, unit, pin_error) eff"
where
  "require_interactive E machine purpose =
     (if machine then
        err (TermIoError (ui_tr E ''requires_interactive_confirmation'' [(''purpose'', purpose)]))
      else ok ())"

definition prompt_line :: "('w, 'z) os_scheme \<Rightarrow> string \<Rightarrow> ('w, string, pin_error) eff" where
  "prompt_line E prompt =
     andThen (print E prompt) (\<lambda>_.
     andThen (liftIo (stdout_flush E)) (\<lambda>_.
     andThen (liftIo (stdin_read_line E)) (\<lambda>input.
     ok (trim input))))"

text \<open>\<open>to_lowercase\<close> on ASCII; no other character's lower case starts with \<open>y\<close>.\<close>

definition to_lowercase :: "string \<Rightarrow> string" where
  "to_lowercase s =
     map (\<lambda>c. let n = of_char c :: nat in if 65 \<le> n \<and> n \<le> 90 then char_of (n + 32) else c) s"

definition says_yes :: "string \<Rightarrow> bool" where
  "says_yes input \<longleftrightarrow> prefix ''y'' (to_lowercase (trim input))"

definition prompt_yes_no :: "('w, 'z) os_scheme \<Rightarrow> string \<Rightarrow> ('w, bool, pin_error) eff" where
  "prompt_yes_no E prompt = andThen (prompt_line E prompt) (\<lambda>input. ok (says_yes input))"

definition prompt_acknowledgement ::
  "('w, 'z) os_scheme \<Rightarrow> string \<Rightarrow> string \<Rightarrow> ('w, unit, pin_error) eff"
where
  "prompt_acknowledgement E expected prompt =
     andThen (prompt_line E prompt) (\<lambda>got.
     if trim got \<noteq> expected then err (TermIoError (ui_tr E ''cancelled'' [])) else ok ())"

definition prompt_pin ::
  "('w, 'z) os_scheme \<Rightarrow> string \<Rightarrow> (u32 \<times> u32) option \<Rightarrow> bool \<Rightarrow> ('w, pin, pin_error) eff"
where
  "prompt_pin E prompt attempts machine =
     andThen
       (unless_machine machine
         (andThen
           (case attempts of
              Some (used, limit) \<Rightarrow>
                andThen (sub_u32 (overflow_checks E) limit used) (\<lambda>remaining.
                ok (ui_tr E ''pin_prompt''
                  [(''remaining'', show_u32 remaining), (''limit'', show_u32 limit)]))
            | None \<Rightarrow> ok prompt)
           (\<lambda>prompt_text.
          andThen (eprint E prompt_text) (\<lambda>_.
          liftIo (stderr_flush E)))))
       (\<lambda>_.
     andThen
       (if \<not> machine then
          andThen (liftErrno (tcgetattr E)) (\<lambda>termios.
          andThen (liftErrno (tcsetattr E
             (termios\<lparr>local_flags := local_flags termios AND NOT (ECHO E)\<rparr>))) (\<lambda>_.
          matchRes (stdin_read_line E)
            (\<lambda>input.
               andThen (liftErrno (tcsetattr E termios)) (\<lambda>_.
               andThen (eprintln E []) (\<lambda>_. ok input)))
            (\<lambda>e.
               andThen (liftErrno (tcsetattr E termios)) (\<lambda>_.
               andThen (eprintln E []) (\<lambda>_. err (from_io e))))))
        else liftIo (stdin_read_line E))
       (\<lambda>input.
     pure (pin_new input (cached_policy E))))"

section \<open>Master-key commands\<close>

definition yes_no :: "bool \<Rightarrow> string" where
  "yes_no b = (if b then ''true'' else ''false'')"

definition master_key_status_cmd ::
  "('w, 'z) os_scheme \<Rightarrow> bool \<Rightarrow> ('w, master_key_status, pin_error) eff"
where
  "master_key_status_cmd E machine =
     andThen (mk_status E (cached_policy E)) (\<lambda>st.
     andThen
       (unless_machine machine
         (andThen (println E (''sealed_file_present: '' @ yes_no (sealed_file_present st))) (\<lambda>_.
          andThen (println E (''rsa_parent_present: '' @ yes_no (rsa_parent_present st))) (\<lambda>_.
          andThen (println E (''hmac_key_present: '' @ yes_no (hmac_key_present st))) (\<lambda>_.
          andThen (println E (''sealed_file_path: '' @ sealed_file_path st)) (\<lambda>_.
          andThen (println E (''rsa_handle: 0x'' @ show_hex8 E (rsa_handle st))) (\<lambda>_.
          println E (''hmac_handle: 0x'' @ show_hex8 E (hmac_handle st)))))))))
       (\<lambda>_. ok st))"

definition master_key_init ::
  "('w, 'z) os_scheme \<Rightarrow> bool \<Rightarrow> ('w, master_key_init_result, pin_error) eff"
where
  "master_key_init E machine =
     andThen
       (unless_machine machine
         (andThen (eprintln E (ui_tr E ''mk_warn_init_new_key'' [])) (\<lambda>_.
          andThen (eprintln E (ui_tr E ''mk_warn_init_break_old_unlocks'' [])) (\<lambda>_.
          andThen (prompt_yes_no E (ui_tr E ''mk_proceed_prompt'' [])) (\<lambda>yes.
          if \<not> yes then err (TermIoError (ui_tr E ''cancelled'' [])) else ok ())))))
       (\<lambda>_.
     andThen (mk_init E (proc E) (cached_policy E)) (\<lambda>res.
     andThen
       (unless_machine machine
         (andThen (println E (newline # ui_tr E ''mk_recovery_phrase_header'' [] @
             [newline, newline] @ recovery_phrase res @ [newline])) (\<lambda>_.
          andThen (prompt_line E (ui_tr E ''mk_recovery_confirm_prompt'' [])) (\<lambda>confirm.
          if trim confirm \<noteq> trim (recovery_phrase res) then
            err (TermIoError (ui_tr E ''mk_recovery_confirm_mismatch'' []))
          else ok ()))))
       (\<lambda>_. ok res)))"

definition master_key_import_to_tpm ::
  "('w, 'z) os_scheme \<Rightarrow> bool \<Rightarrow> ('w, master_key_status, pin_error) eff"
where
  "master_key_import_to_tpm E machine =
     andThen (require_interactive E machine (ui_tr E ''mk_purpose_import'' [])) (\<lambda>_.
     andThen (prompt_line E (ui_tr E ''mk_recovery_phrase_prompt'' [])) (\<lambda>phrase.
     andThen (import_to_tpm E (proc E) (cached_policy E) phrase) (\<lambda>st.
     andThen (println E (ui_tr E ''mk_import_success'' [])) (\<lambda>_.
     ok st))))"

definition master_key_clear_from_tpm :: "('w, 'z) os_scheme \<Rightarrow> bool \<Rightarrow> ('w, unit, pin_error) eff" where
  "master_key_clear_from_tpm E machine =
     andThen (require_interactive E machine (ui_tr E ''mk_purpose_tpm_clear'' [])) (\<lambda>_.
     andThen (eprintln E (ui_tr E ''mk_warn_clear_tpm'' [])) (\<lambda>_.
     andThen (prompt_acknowledgement E ''yes'' (ui_tr E ''mk_ack_prompt'' [])) (\<lambda>_.
     andThen (clear_from_tpm E (proc E) (cached_policy E)) (\<lambda>_.
     andThen (println E (ui_tr E ''mk_clear_tpm_success'' [])) (\<lambda>_.
     ok ())))))"

definition master_key_clear_from_disk :: "('w, 'z) os_scheme \<Rightarrow> bool \<Rightarrow> ('w, unit, pin_error) eff" where
  "master_key_clear_from_disk E machine =
     andThen (require_interactive E machine (ui_tr E ''mk_purpose_disk_clear'' [])) (\<lambda>_.
     andThen (eprintln E (ui_tr E ''mk_warn_clear_disk'' [(''path'', MASTER_KEY_SEALED_FILE)])) (\<lambda>_.
     andThen (prompt_acknowledgement E ''yes'' (ui_tr E ''mk_ack_prompt'' [])) (\<lambda>_.
     andThen (clear_from_disk E (proc E)) (\<lambda>_.
     andThen (println E (ui_tr E ''mk_clear_disk_success'' [])) (\<lambda>_.
     ok ())))))"

definition master_key_get_user_token :: "('w, 'z) os_scheme \<Rightarrow> string \<Rightarrow> ('w, string, pin_error) eff" where
  "master_key_get_user_token E username = derive_user_token E (cached_policy E) username"

section \<open>Reporting\<close>

definition report_result ::
  "('w, 'z) os_scheme \<Rightarrow> bool \<Rightarrow> pin_error + report \<Rightarrow> ('w, unit, 'e) eff"
where
  "report_result E machine res =
     (if \<not> machine then
        (case res of
           Inl e \<Rightarrow> eprintln E (ui_tr E ''error_result'' [(''error'', show_pin_error E e)])
         | Inr _ \<Rightarrow> ok ())
      else
        (case to_json E res of
           Ok s \<Rightarrow> println E s
         | Err _ \<Rightarrow> panic (ui_tr E ''ser_error'' [])
         | Panic s \<Rightarrow> panic s))"

text \<open>\<open>handle_result(m, machine)\<close>, with \<open>m\<close>'s value as a report.\<close>

definition handle_result ::
  "('w, 'z) os_scheme \<Rightarrow> ('a \<Rightarrow> report) \<Rightarrow> ('w, 'a, pin_error) eff \<Rightarrow> bool \<Rightarrow> ('w, unit, main_stop) eff"
where
  "handle_result E wrap m machine =
     matchRes m
       (\<lambda>x. andThen (report_result E machine (Inr (wrap x))) (\<lambda>_. ok ()))
       (\<lambda>e. andThen (report_result E machine (Inl e)) (\<lambda>_. err (Exited 1)))"

section \<open>PIN commands\<close>

definition new_manager :: "('w, 'z) os_scheme \<Rightarrow> ('w, pin_manager, pin_error) eff" where
  "new_manager E = manager_new E (cached_policy E)"

definition get_attempt_info ::
  "('w, 'z) os_scheme \<Rightarrow> u32 \<Rightarrow> ('w, attempt_info option, pin_error) eff"
where
  "get_attempt_info E uid =
     andThen (get_pin_slot E uid) (\<lambda>slot. ok (map_option from_pin_data slot))"

text \<open>A new PIN, confirmed when the user is at a terminal.\<close>

definition prompt_new_pin ::
  "('w, 'z) os_scheme \<Rightarrow> string \<Rightarrow> string \<Rightarrow> bool \<Rightarrow> ('w, pin, pin_error) eff"
where
  "prompt_new_pin E key confirm_key machine =
     andThen (prompt_pin E (ui_tr E key []) None machine) (\<lambda>pin.
     andThen
       (unless_machine machine
         (andThen (prompt_pin E (ui_tr E confirm_key []) None machine) (\<lambda>confirm.
          if pin \<noteq> confirm then err PinsDontMatch else ok ())))
       (\<lambda>_. ok pin))"

definition setup_pin_cmd :: "('w, 'z) os_scheme \<Rightarrow> string \<Rightarrow> bool \<Rightarrow> ('w, unit, pin_error) eff" where
  "setup_pin_cmd E username machine =
     andThen (pure (get_uid_from_username (user_table E) username)) (\<lambda>uid.
     if \<not> can_manage_pin (proc E) uid then err PermissionDenied
     else
       andThen (new_manager E) (\<lambda>m.
       andThen
         (matchRes (get_attempt_count E uid)
            (\<lambda>count. if count = None then ok () else err PinAlreadySet)
            (\<lambda>e. case e of NotProvisioned _ \<Rightarrow> ok () | _ \<Rightarrow> err e))
         (\<lambda>_.
       andThen (prompt_new_pin E ''enter_new_pin'' ''confirm_pin'' machine) (\<lambda>pin.
       andThen (setup_pin E m uid pin) (\<lambda>_.
       andThen (unless_machine machine
         (println E (ui_tr E ''pin_set_for_user'' [(''username'', username)]))) (\<lambda>_.
       ok ()))))))"

definition change_own_pin ::
  "('w, 'z) os_scheme \<Rightarrow> pin_manager \<Rightarrow> u32 \<Rightarrow> attempt_info \<Rightarrow> string \<Rightarrow> bool \<Rightarrow> ('w, unit, pin_error) eff"
where
  "change_own_pin E m uid info username machine =
     (if locked info then err PinIsLocked
      else
        andThen (prompt_pin E (ui_tr E ''pin'' []) (Some (prompt_tuple info)) machine) (\<lambda>current.
        andThen (verify_pin E m uid current) (\<lambda>r.
        case r of
          VerifyInvalid l \<Rightarrow> err (IncorrectPin l)
        | VerifyLockedOut \<Rightarrow> err PinIsLocked
        | VerifySuccess _ \<Rightarrow>
            andThen (restart_context E m) (\<lambda>_.
            andThen (prompt_new_pin E ''new_pin'' ''confirm'' machine) (\<lambda>new_pin.
            andThen (delete_pin_with_auth E m uid current) (\<lambda>d.
            case d of
              DeleteSuccess \<Rightarrow>
                andThen (clear_sessions E) (\<lambda>_.
                andThen (setup_pin E m uid new_pin) (\<lambda>_.
                unless_machine machine
                  (println E (ui_tr E ''pin_changed_for_user'' [(''username'', username)]))))
            | _ \<Rightarrow> err (CannotDeletePin d)))))))"

definition change_pin_as_root ::
  "('w, 'z) os_scheme \<Rightarrow> pin_manager \<Rightarrow> u32 \<Rightarrow> string \<Rightarrow> bool \<Rightarrow> ('w, unit, pin_error) eff"
where
  "change_pin_as_root E m uid username machine =
     andThen (prompt_new_pin E ''new_pin'' ''confirm'' machine) (\<lambda>new_pin.
     andThen (delete_pin_admin E uid) (\<lambda>_.
     andThen (clear_sessions E) (\<lambda>_.
     andThen (setup_pin E m uid new_pin) (\<lambda>_.
     unless_machine machine
       (println E (ui_tr E ''pin_changed_for_user'' [(''username'', username)]))))))"

definition change_pin :: "('w, 'z) os_scheme \<Rightarrow> string \<Rightarrow> bool \<Rightarrow> ('w, unit, pin_error) eff" where
  "change_pin E username machine =
     andThen (pure (get_uid_from_username (user_table E) username)) (\<lambda>uid.
     if \<not> can_manage_pin (proc E) uid then err PermissionDenied
     else
       andThen (new_manager E) (\<lambda>m.
       andThen (get_attempt_info E uid) (\<lambda>info_opt.
       case info_opt of
         None \<Rightarrow> err NoPinSet
       | Some info \<Rightarrow>
           andThen (restart_context E m) (\<lambda>_.
           andThen (clear_sessions E) (\<lambda>_.
           andThen
             (if get_uid (proc E) \<noteq> 0 then change_own_pin E m uid info username machine
              else change_pin_as_root E m uid username machine)
             (\<lambda>_. ok ()))))))"

definition delete_pin_as_root ::
  "('w, 'z) os_scheme \<Rightarrow> u32 \<Rightarrow> string \<Rightarrow> bool \<Rightarrow> ('w, unit, pin_error) eff"
where
  "delete_pin_as_root E uid username machine =
     andThen
       (if \<not> machine then
          andThen (print E (''Delete PIN for '' @ [CHR 0x27] @ username @ [CHR 0x27] @ ''? (y/N): '')) (\<lambda>_.
          andThen (liftIo (stdout_flush E)) (\<lambda>_.
          andThen (liftIo (stdin_read_line E)) (\<lambda>input.
          if \<not> says_yes input then
            andThen (println E (ui_tr E ''cancelled'' [])) (\<lambda>_. ok False)
          else ok True)))
        else ok True)
       (\<lambda>go.
     if \<not> go then ok ()
     else
       matchRes (delete_pin_admin E uid)
         (\<lambda>_. andThen (unless_machine machine
            (println E (ui_tr E ''pin_deleted_for_user'' [(''username'', username)]))) (\<lambda>_. ok ()))
         (\<lambda>e. andThen (unless_machine machine
            (println E (ui_tr E ''pin_delete_failed'' [(''error'', show_pin_error E e)]))) (\<lambda>_. err e)))"

definition delete_own_pin ::
  "('w, 'z) os_scheme \<Rightarrow> pin_manager \<Rightarrow> u32 \<Rightarrow> attempt_info \<Rightarrow> string \<Rightarrow> bool \<Rightarrow> ('w, unit, pin_error) eff"
where
  "delete_own_pin E m uid info username machine =
     andThen (prompt_pin E ''PIN'' (Some (prompt_tuple info)) machine) (\<lambda>pin.
     andThen (delete_pin_with_auth E m uid pin) (\<lambda>result.
     andThen
       (unless_machine machine
         (case result of
            DeleteSuccess \<Rightarrow>
              println E (ui_tr E ''pin_deleted_for_user'' [(''username'', username)])
          | DeleteInvalid _ \<Rightarrow> println E (ui_tr E ''incorrect_pin'' [])
          | DeleteLockedOut \<Rightarrow> println E (ui_tr E ''now_locked_out'' [])))
       (\<lambda>_. ok ())))"

definition delete_pin :: "('w, 'z) os_scheme \<Rightarrow> string \<Rightarrow> bool \<Rightarrow> ('w, unit, pin_error) eff" where
  "delete_pin E username machine =
     andThen (pure (get_uid_from_username (user_table E) username)) (\<lambda>uid.
     let current_uid = get_uid (proc E); is_root = (current_uid = 0) in
     if \<not> is_root \<and> current_uid \<noteq> uid then err PermissionDenied
     else
       andThen (new_manager E) (\<lambda>m.
       andThen (get_attempt_info E uid) (\<lambda>info_opt.
       case info_opt of
         None \<Rightarrow> err NoPinSet
       | Some info \<Rightarrow>
           if \<not> is_root \<and> locked info then err PinIsLocked
           else if is_root then delete_pin_as_root E uid username machine
           else delete_own_pin E m uid info username machine)))"

definition test_verdict ::
  "('w, 'z) os_scheme \<Rightarrow> bool \<Rightarrow> verification_result \<Rightarrow> ('w, unit, pin_error) eff"
where
  "test_verdict E machine result =
     (if \<not> machine then
        andThen
          (case result of
             VerifySuccess _ \<Rightarrow> println E (ui_tr E ''pin_correct'' [])
           | VerifyInvalid _ \<Rightarrow> println E (ui_tr E ''pin_incorrect'' [])
           | VerifyLockedOut \<Rightarrow> println E (ui_tr E ''now_locked_out'' []))
          (\<lambda>_. ok ())
      else
        (case result of
           VerifySuccess _ \<Rightarrow> ok ()
         | VerifyInvalid l \<Rightarrow> err (IncorrectPin l)
         | VerifyLockedOut \<Rightarrow> err PinIsLocked))"

definition test_pin :: "('w, 'z) os_scheme \<Rightarrow> string \<Rightarrow> bool \<Rightarrow> ('w, unit, pin_error) eff" where
  "test_pin E username machine =
     andThen (pure (get_uid_from_username (user_table E) username)) (\<lambda>uid.
     if \<not> can_attempt_pin (proc E) uid then err PermissionDenied
     else
       andThen (new_manager E) (\<lambda>m.
       andThen (get_attempt_info E uid) (\<lambda>info_opt.
       case info_opt of
         None \<Rightarrow>
           andThen (unless_machine machine (println E (ui_tr E ''no_pin_set_for_user'' [])))
             (\<lambda>_. err NoPinSet)
       | Some info \<Rightarrow>
           if locked info then
             andThen (unless_machine machine (println E (ui_tr E ''user_is_locked_out'' [])))
               (\<lambda>_. err PinIsLocked)
           else
             andThen (prompt_pin E ''PIN'' (Some (prompt_tuple info)) machine) (\<lambda>pin.
             andThen (verify_pin E m uid pin) (\<lambda>result.
             test_verdict E machine result)))))"

definition print_status ::
  "('w, 'z) os_scheme \<Rightarrow> attempt_info option \<Rightarrow> ('w, unit, pin_error) eff"
where
  "print_status E info_opt =
     (case info_opt of
        Some info \<Rightarrow>
          andThen (println E (''  '' @ ui_tr E ''pin_provisioned_yes'' [])) (\<lambda>_.
          andThen (sub_u32 (overflow_checks E) (ai_limit info) (ai_used info)) (\<lambda>remaining.
          andThen (println E (''  '' @ ui_tr E ''remaining_attempts''
             [(''remaining'', show_u32 remaining), (''limit'', show_u32 (ai_limit info))])) (\<lambda>_.
          println E (''  '' @ ui_tr E ''locked_out''
             [(''locked'', if locked info then ui_tr E ''yes'' [] else ui_tr E ''no'' [])]))))
      | None \<Rightarrow> println E (''  '' @ ui_tr E ''pin_provisioned_no'' []))"

definition show_status ::
  "('w, 'z) os_scheme \<Rightarrow> string \<Rightarrow> bool \<Rightarrow> ('w, attempt_info option, pin_error) eff"
where
  "show_status E username machine =
     andThen (pure (get_uid_from_username (user_table E) username)) (\<lambda>uid.
     andThen (new_manager E) (\<lambda>m.
     andThen (unless_machine machine (println E (ui_tr E ''status_for_user''
        [(''username'', username), (''uid'', show_u32 uid)]))) (\<lambda>_.
     andThen (get_attempt_info E uid) (\<lambda>info.
     andThen (unless_machine machine (print_status E info)) (\<lambda>_.
     ok info)))))"

section \<open>Main\<close>

definition resolve_username :: "('w, 'z) os_scheme \<Rightarrow> string option \<Rightarrow> (string, pin_error) res" where
  "resolve_username E username =
     (case username of
        Some name \<Rightarrow> Ok name
      | None \<Rightarrow>
          (let current_uid = get_uid (proc E) in
           case get_username_from_uid (user_table E) current_uid of
             Some name \<Rightarrow> Ok name
           | None \<Rightarrow> Err (GetUsernameForUidFailed current_uid)))"

definition pinutil_sandbox :: "('w, 'z) os_scheme \<Rightarrow> ('w, unit, string) eff" where
  "pinutil_sandbox E =
     (let step = (\<lambda>check r. case check r of None \<Rightarrow> ok r | Some e \<Rightarrow> err e);
          empty = \<lparr>deny_writes = False, deny_net = False, write_beneath = []\<rparr> in
      andThen (step (ll_handle_fs E) (empty\<lparr>deny_writes := True\<rparr>)) (\<lambda>r1.
      andThen (step (ll_handle_net E) (r1\<lparr>deny_net := True\<rparr>)) (\<lambda>r2.
      andThen (step (ll_create E) r2) (\<lambda>r3.
      andThen (step (ll_add_rules E) (r3\<lparr>write_beneath := [''/dev'', ''/var/'']\<rparr>)) (\<lambda>r4.
      andThen (ll_restrict_self E r4) (\<lambda>_. ok ()))))))"

text \<open>\<open>resolve_username(username)?\<close>, then the command.\<close>

definition for_user ::
  "('w, 'z) os_scheme \<Rightarrow> string option \<Rightarrow> (string \<Rightarrow> ('w, unit, main_stop) eff) \<Rightarrow> ('w, unit, main_stop) eff"
where
  "for_user E username k = andThen (mapErr MainErr (pure (resolve_username E username))) k"

definition run_master_key ::
  "('w, 'z) os_scheme \<Rightarrow> ('w, unit, main_stop) eff \<Rightarrow> bool \<Rightarrow> ('w, unit, main_stop) eff"
where
  "run_master_key E m machine =
     andThen
       (matchRes (require_root E)
          (\<lambda>_. ok ())
          (\<lambda>e. handle_result E (\<lambda>_. RUnit) (err e :: ('w, unit, pin_error) eff) machine))
       (\<lambda>_. m)"

definition run_get_user_token ::
  "('w, 'z) os_scheme \<Rightarrow> string \<Rightarrow> bool \<Rightarrow> ('w, unit, main_stop) eff"
where
  "run_get_user_token E username machine =
     (if machine then handle_result E RToken (master_key_get_user_token E username) machine
      else
        matchRes (master_key_get_user_token E username)
          (\<lambda>token. println E token)
          (\<lambda>e. andThen (eprintln E (ui_tr E ''error_result'' [(''error'', show_pin_error E e)]))
             (\<lambda>_. err (Exited 1))))"

fun run_command :: "('w, 'z) os_scheme \<Rightarrow> commands \<Rightarrow> bool \<Rightarrow> ('w, unit, main_stop) eff" where
  "run_command E (Setup u) machine =
     for_user E u (\<lambda>n. handle_result E (\<lambda>_. RUnit) (setup_pin_cmd E n machine) machine)"
| "run_command E (Change u) machine =
     for_user E u (\<lambda>n. handle_result E (\<lambda>_. RUnit) (change_pin E n machine) machine)"
| "run_command E (Delete u) machine =
     for_user E u (\<lambda>n. handle_result E (\<lambda>_. RUnit) (delete_pin E n machine) machine)"
| "run_command E (Test u) machine =
     for_user E u (\<lambda>n. handle_result E (\<lambda>_. RUnit) (test_pin E n machine) machine)"
| "run_command E (Status u) machine =
     for_user E u (\<lambda>n. handle_result E RInfo (show_status E n machine) machine)"
| "run_command E MkInit machine =
     run_master_key E (handle_result E RInit (master_key_init E machine) machine) machine"
| "run_command E MkStatus machine =
     run_master_key E (handle_result E RStatus (master_key_status_cmd E machine) machine) machine"
| "run_command E MkImportToTpm machine =
     run_master_key E (handle_result E RStatus (master_key_import_to_tpm E machine) machine) machine"
| "run_command E MkClearFromTpm machine =
     run_master_key E (handle_result E (\<lambda>_. RUnit) (master_key_clear_from_tpm E machine) machine) machine"
| "run_command E MkClearFromDisk machine =
     run_master_key E (handle_result E (\<lambda>_. RUnit) (master_key_clear_from_disk E machine) machine) machine"
| "run_command E (MkGetUserToken u) machine =
     run_master_key E (run_get_user_token E u machine) machine"

definition pinutil_main :: "('w, 'z) os_scheme \<Rightarrow> string list \<Rightarrow> ('w, unit, main_stop) eff" where
  "pinutil_main E args =
     andThen
       (matchRes (pinutil_sandbox E)
          (\<lambda>_. ok ())
          (\<lambda>e. eprintln E (ui_tr E ''sandbox_fail'' [] @ '': '' @ e)))
       (\<lambda>_.
     andThen (mapErr Exited (pure (parse_cli E args))) (\<lambda>c.
     andThen (if \<not> verbose c then act (set_env E ''TSS2_LOG'' ''all+NONE'') else ok ()) (\<lambda>_.
     let machine = (machine_flag c \<or> \<not> stdin_is_terminal E) in
     run_command E (command c) machine)))"

end
