(* ===== verification/PinutilEffects.thy ===== *)
theory PinutilEffects imports Pinutil begin

text \<open>
  What a run of \<open>pinutil\<close> can do to the world, for any observation and any preorder on it: the
  interface below asks how the calls the commands make move the observation, each under the
  access check that guards it, and gives back how a whole run moves it.
\<close>

section \<open>The calls of a terminal\<close>

definition terminal_evolves ::
  "('w, 'z) os_scheme \<Rightarrow> ('w \<Rightarrow> 'n) \<Rightarrow> ('n \<Rightarrow> 'n \<Rightarrow> bool) \<Rightarrow> bool"
where
  "terminal_evolves E obs R \<longleftrightarrow>
     evolves obs R (stdin_read_line E) \<and> (\<forall>s. evolves obs R (stdout_write E s)) \<and>
     evolves obs R (stdout_flush E) \<and> (\<forall>s. evolves obs R (stderr_write E s)) \<and>
     evolves obs R (stderr_flush E) \<and> evolves obs R (tcgetattr E) \<and>
     (\<forall>t. evolves obs R (tcsetattr E t)) \<and> (\<forall>k v w. R (obs w) (obs (set_env E k v w))) \<and>
     (\<forall>r. evolves obs R (ll_restrict_self E r))"

text \<open>The master-key commands' calls.\<close>

definition key_calls_evolve ::
  "('w, 'z) platform_scheme \<Rightarrow> ('w \<Rightarrow> 'n) \<Rightarrow> ('n \<Rightarrow> 'n \<Rightarrow> bool) \<Rightarrow> bool"
where
  "key_calls_evolve E obs R \<longleftrightarrow>
     (\<forall>s. evolves obs R (context_new E s)) \<and>
     (\<forall>w. R (obs w) (obs (no_session_begin E w))) \<and> (\<forall>w. R (obs w) (obs (no_session_end E w))) \<and>
     (\<forall>s w. R (obs w) (obs (session_begin E s w))) \<and> (\<forall>w. R (obs w) (obs (session_end E w))) \<and>
     evolves obs R (nullauth_begin E) \<and> evolves obs R (nullauth_end E) \<and>
     (\<forall>h. evolves obs R (flush_context E h)) \<and> (\<forall>h. evolves obs R (tr_from_persistent E h)) \<and>
     (\<forall>p. evolves obs R (create_primary E p)) \<and> (\<forall>h p. evolves obs R (evict_control E h p)) \<and>
     (\<forall>h. evolves obs R (tr_close E h)) \<and> (\<forall>h p s. evolves obs R (create_key E h p s)) \<and>
     (\<forall>h b p. evolves obs R (load_key E h b p)) \<and> (\<forall>h b a. evolves obs R (hmac E h b a)) \<and>
     (\<forall>n. evolves obs R (os_rng E n)) \<and> evolves obs R (mnemonic24 E) \<and>
     (\<forall>f. evolves obs R (remove_file E f)) \<and> (\<forall>f. evolves obs R (create_dir_all E f)) \<and>
     (\<forall>f m. evolves obs R (set_permissions E f m)) \<and> (\<forall>f u g. evolves obs R (chown E f u g)) \<and>
     (\<forall>f m. evolves obs R (open_create_new E f m)) \<and> (\<forall>f b. evolves obs R (write_all E f b)) \<and>
     (\<forall>f. evolves obs R (read_file E f))"

text \<open>The PINs a run can get from its standard input.\<close>

definition typed_pin :: "('w, 'z) os_scheme \<Rightarrow> pin \<Rightarrow> bool" where
  "typed_pin E pin \<longleftrightarrow>
     (\<exists>l w w'. stdin_read_line E w = (Ok l, w') \<and> pin_new l (cached_policy E) = Ok pin)"

lemma prompt_pin_typed:
  assumes "prompt_pin E s a machine w = (Ok pin, w')"
  shows "typed_pin E pin"
proof -
  from assms obtain w1 input w2 where
    i: "(if \<not> machine then
          andThen (liftErrno (tcgetattr E)) (\<lambda>termios.
          andThen (liftErrno (tcsetattr E
             (termios\<lparr>local_flags := local_flags termios AND NOT (ECHO E)\<rparr>))) (\<lambda>_.
          matchRes (stdin_read_line E)
            (\<lambda>input.
               andThen (liftErrno (tcsetattr E termios)) (\<lambda>_.
               andThen (eprintln E []) (\<lambda>_. ok input)))
            (\<lambda>e.
               andThen (liftErrno (tcsetattr E termios)) (\<lambda>_.
               andThen (eprintln E []) (\<lambda>_. err (from_io e))))))
        else liftIo (stdin_read_line E)) w1 = (Ok input, w2)"
      and n: "pin_new input (cached_policy E) = Ok pin"
    unfolding prompt_pin_def by (elim andThenE) (auto simp: run_simps)
  from i have "\<exists>w w'. stdin_read_line E w = (Ok input, w')"
    by (auto simp: run_simps split: if_splits elim!: andThenE matchResE mapErrE; blast)
  then show ?thesis using n by (auto simp: typed_pin_def)
qed

section \<open>Effects of the commands\<close>

text \<open>Prompting and reporting only use the terminal.\<close>

locale terminal_effects = world_preorder R
  for R :: "'n \<Rightarrow> 'n \<Rightarrow> bool" +
  fixes E :: "('w, 'z) os_scheme" and obs :: "'w \<Rightarrow> 'n"
  assumes terminal: "terminal_evolves E obs R"
begin

lemma terminal_calls:
  "evolves obs R (stdin_read_line E)" "evolves obs R (stdout_write E s)" "evolves obs R (stdout_flush E)"
  "evolves obs R (stderr_write E s)" "evolves obs R (stderr_flush E)" "evolves obs R (tcgetattr E)"
  "evolves obs R (tcsetattr E t)" "evolves obs R (act (set_env E k v))"
  "evolves obs R (ll_restrict_self E r)"
  using terminal by (simp_all add: terminal_evolves_def evolves_act)

lemmas calls_evolve = evolves_intros branch_evolves terminal_calls

lemma prints_evolve:
  "evolves obs R (print E s)" "evolves obs R (println E s)"
  "evolves obs R (eprint E s)" "evolves obs R (eprintln E s)"
  unfolding print_def println_def eprint_def eprintln_def by (intro calls_evolve)+

lemma prompt_line_evolves: "evolves obs R (prompt_line E s)"
  unfolding prompt_line_def by (intro calls_evolve prints_evolve)

lemma prompt_pin_evolves: "evolves obs R (prompt_pin E s a machine)"
  unfolding prompt_pin_def by (intro calls_evolve prints_evolve)

lemma prompt_new_pin_evolves: "evolves obs R (prompt_new_pin E k c machine)"
  unfolding prompt_new_pin_def by (intro calls_evolve prints_evolve prompt_pin_evolves)

lemma report_evolves: "evolves obs R (report_result E machine x)"
  unfolding report_result_def by (intro calls_evolve prints_evolve)

lemma handle_result_evolves: "evolves obs R m \<Longrightarrow> evolves obs R (handle_result E wrap m machine)"
  unfolding handle_result_def by (intro calls_evolve report_evolves)

end

locale pinutil_effects = terminal_effects R E obs
  for R :: "'n \<Rightarrow> 'n \<Rightarrow> bool" and E :: "('w, 'z) os_scheme" and obs :: "'w \<Rightarrow> 'n" +
  assumes manager_new: "evolves obs R (manager_new E p)"
    and restart: "evolves obs R (restart_context E m)"
    and clear: "evolves obs R (clear_sessions E :: ('w, unit, pin_error) eff)"
    and get_count: "evolves obs R (get_attempt_count E uid)"
    and get_slot: "evolves obs R (get_pin_slot E uid)"
    and may_setup: "can_manage_pin (proc E) uid \<Longrightarrow> evolves obs R (setup_pin E m uid pin)"
    and may_verify: "typed_pin E pin \<Longrightarrow> can_attempt_pin (proc E) uid \<or> can_manage_pin (proc E) uid \<Longrightarrow>
      evolves obs R (verify_pin E m uid pin)"
    and may_delete_auth: "typed_pin E pin \<Longrightarrow> can_manage_pin (proc E) uid \<Longrightarrow> evolves obs R (delete_pin_with_auth E m uid pin)"
    and may_delete_admin: "get_uid (proc E) = 0 \<Longrightarrow> evolves obs R (delete_pin_admin E uid)"
    and may_use_keys: "get_uid (proc E) = 0 \<Longrightarrow> key_calls_evolve E obs R"
begin

lemma new_manager_evolves: "evolves obs R (new_manager E)"
  unfolding new_manager_def by (rule manager_new)

lemmas command_rules =
  calls_evolve prints_evolve prompt_line_evolves prompt_pin_evolves prompt_new_pin_evolves
  new_manager_evolves restart clear get_count get_slot

text \<open>After a prompt the PIN is a typed one.\<close>

lemma typed_then:
  assumes "\<And>pin. typed_pin E pin \<Longrightarrow> evolves obs R (k pin)"
  shows "evolves obs R (andThen (prompt_pin E s a machine) k)"
  by (rule andThen_evolves_run [OF prompt_pin_evolves assms]) (rule prompt_pin_typed)

lemma attempt_info_evolves: "evolves obs R (get_attempt_info E uid)"
  unfolding get_attempt_info_def by (intro command_rules)

lemma setup_cmd_evolves: "evolves obs R (setup_pin_cmd E name machine)"
  unfolding setup_pin_cmd_def
  by (intro command_rules may_setup) (auto simp: calls_evolve split: pin_error.split)

lemma change_own_evolves:
  "can_manage_pin (proc E) uid \<Longrightarrow> evolves obs R (change_own_pin E m uid info name machine)"
  unfolding change_own_pin_def
  by (intro typed_then command_rules may_verify disjI2;
      auto intro!: command_rules may_delete_auth may_setup split: verification_result.split delete_result.split)

lemma change_root_evolves:
  "get_uid (proc E) = 0 \<Longrightarrow> evolves obs R (change_pin_as_root E m uid name machine)"
  unfolding change_pin_as_root_def
  by (intro command_rules may_delete_admin may_setup) (simp_all add: can_manage_pin_def Let_def)

lemma change_evolves: "evolves obs R (change_pin E name machine)"
  unfolding change_pin_def
  by (intro command_rules attempt_info_evolves change_own_evolves change_root_evolves) simp_all

lemma delete_root_evolves:
  "get_uid (proc E) = 0 \<Longrightarrow> evolves obs R (delete_pin_as_root E uid name machine)"
  unfolding delete_pin_as_root_def by (intro command_rules may_delete_admin)

lemma delete_own_evolves:
  "can_manage_pin (proc E) uid \<Longrightarrow> evolves obs R (delete_own_pin E m uid info name machine)"
  unfolding delete_own_pin_def
  by (intro typed_then command_rules may_delete_auth) (auto intro!: command_rules split: delete_result.split)

lemma delete_evolves: "evolves obs R (delete_pin E name machine)"
  unfolding delete_pin_def Let_def
  by (intro command_rules attempt_info_evolves delete_own_evolves delete_root_evolves)
    (auto simp: can_manage_pin_def Let_def)

lemma test_verdict_evolves: "evolves obs R (test_verdict E machine r)"
  unfolding test_verdict_def by (auto intro!: command_rules split: verification_result.split)

lemma test_evolves: "evolves obs R (test_pin E name machine)"
  unfolding test_pin_def
  by (intro typed_then command_rules attempt_info_evolves may_verify test_verdict_evolves disjI1) simp_all

lemma status_evolves: "evolves obs R (show_status E name machine)"
  unfolding show_status_def print_status_def
  by (intro command_rules attempt_info_evolves)

section \<open>Effects of the master-key commands\<close>

lemma key_calls:
  assumes "key_calls_evolve E obs R"
  shows "evolves obs R (context_new E s)" "evolves obs R (act (no_session_begin E))"
    "evolves obs R (act (no_session_end E))" "evolves obs R (act (session_begin E h))"
    "evolves obs R (act (session_end E))" "evolves obs R (nullauth_begin E)"
    "evolves obs R (nullauth_end E)" "evolves obs R (flush_context E h)"
    "evolves obs R (tr_from_persistent E ph)" "evolves obs R (create_primary E pub)"
    "evolves obs R (evict_control E h ph)" "evolves obs R (tr_close E h)"
    "evolves obs R (create_key E h pub d)" "evolves obs R (load_key E h d pub)"
    "evolves obs R (hmac E h d alg)" "evolves obs R (os_rng E n)" "evolves obs R (mnemonic24 E)"
    "evolves obs R (remove_file E f)" "evolves obs R (create_dir_all E f)"
    "evolves obs R (set_permissions E f md)" "evolves obs R (chown E f u g)"
    "evolves obs R (open_create_new E f md)" "evolves obs R (write_all E n d)"
    "evolves obs R (read_file E f)"
  using assms by (simp_all add: key_calls_evolve_def evolves_act)

lemma peek_evolves: "evolves obs R (peek f)"
  by (simp add: evolves_def peek_def refl)

lemma checked_evolves: "evolves obs R (checked c x)" "evolves obs R (checked_io c' x)"
  unfolding checked_def checked_io_def by (intro branch_evolves evolves_intros)+

lemma bracket_key_evolves:
  assumes "key_calls_evolve E obs R" "evolves obs R f"
  shows "evolves obs R (without_session E f)" "evolves obs R (with_session E h f)"
    "evolves obs R (with_nullauth E f)"
  unfolding without_session_def with_session_def with_nullauth_def
  by (intro evolves_intros key_calls assms)+

lemmas key_rules =
  evolves_intros branch_evolves peek_evolves checked_evolves key_calls bracket_key_evolves

lemma persistent_evolves:
  "key_calls_evolve E obs R \<Longrightarrow> evolves obs R (persistent_present E h)"
  unfolding persistent_present_def
  by (intro key_rules; auto intro!: key_rules split: tss_error.split option.split rc_kind.split)

lemma new_context_evolves: "key_calls_evolve E obs R \<Longrightarrow> evolves obs R (new_context E p)"
  unfolding new_context_def by (intro key_rules)

lemma mk_status_evolves: "key_calls_evolve E obs R \<Longrightarrow> evolves obs R (mk_status E p)"
  unfolding mk_status_def tpm_status_def
  by (intro key_rules new_context_evolves persistent_evolves)

lemma provision_evolves: "key_calls_evolve E obs R \<Longrightarrow> evolves obs R (provision_tpm_objects E p k)"
  unfolding provision_tpm_objects_def create_and_persist_rsa_parent_def create_and_persist_hmac_key_def
  by (intro key_rules new_context_evolves persistent_evolves)

lemma evict_evolves: "key_calls_evolve E obs R \<Longrightarrow> evolves obs R (evict_persistent_if_present E h)"
  unfolding evict_persistent_if_present_def by (intro key_rules persistent_evolves)

lemma clear_from_tpm_evolves: "key_calls_evolve E obs R \<Longrightarrow> evolves obs R (clear_from_tpm E ps p)"
  unfolding clear_from_tpm_def ensure_root_real_uid_def
  by (intro key_rules new_context_evolves evict_evolves)

lemma ensure_dir_evolves: "key_calls_evolve E obs R \<Longrightarrow> evolves obs R (ensure_dir_for_path E f b)"
  unfolding ensure_dir_for_path_def by (intro key_rules)

lemma sealing_evolves:
  assumes "key_calls_evolve E obs R"
  shows "evolves obs R (seal_key_bytes_to_path E k ph f)" "evolves obs R (unseal_key_bytes_from_path E ph f)"
  unfolding seal_key_bytes_to_path_def unseal_key_bytes_from_path_def derive_aes_key_from_phrase_def
  by (intro key_rules ensure_dir_evolves assms)+

lemma key_operations_evolve:
  assumes "key_calls_evolve E obs R"
  shows "evolves obs R (mk_init E ps p)" "evolves obs R (import_to_tpm E ps p ph)"
    "evolves obs R (clear_from_disk E ps)" "evolves obs R (derive_user_token E p name)"
  unfolding mk_init_def import_to_tpm_def clear_from_disk_def derive_user_token_def
    generate_recovery_phrase_def ensure_root_real_uid_def
  by (intro key_rules ensure_dir_evolves sealing_evolves provision_evolves mk_status_evolves
      clear_from_tpm_evolves new_context_evolves assms;
      auto intro!: key_rules split: io_error.split)+

lemma key_commands_evolve:
  assumes "get_uid (proc E) = 0"
  shows "evolves obs R (master_key_init E machine)" "evolves obs R (master_key_status_cmd E machine)"
    "evolves obs R (master_key_import_to_tpm E machine)" "evolves obs R (master_key_clear_from_tpm E machine)"
    "evolves obs R (master_key_clear_from_disk E machine)" "evolves obs R (master_key_get_user_token E name)"
  unfolding master_key_init_def master_key_status_cmd_def master_key_import_to_tpm_def
    master_key_clear_from_tpm_def master_key_clear_from_disk_def master_key_get_user_token_def
    require_interactive_def prompt_yes_no_def prompt_acknowledgement_def
  by (intro command_rules key_operations_evolve mk_status_evolves clear_from_tpm_evolves
      may_use_keys assms)+

lemma run_master_key_evolves:
  assumes "get_uid (proc E) = 0 \<Longrightarrow> evolves obs R m"
  shows "evolves obs R (run_master_key E m machine)"
proof (cases "get_uid (proc E) = 0")
  case True
  then show ?thesis
    unfolding run_master_key_def require_root_def
    by (intro command_rules handle_result_evolves assms)
next
  case False
  then have "run_master_key E m machine = handle_result E (\<lambda>_. RUnit) (err PermissionDenied :: ('w, unit, pin_error) eff) machine"
    by (intro ext) (auto simp: run_master_key_def require_root_def matchRes_def andThen_def err_def
        handle_result_def split: prod.splits res.splits)
  then show ?thesis by (simp add: handle_result_evolves err_evolves)
qed

lemma run_command_evolves: "evolves obs R (run_command E c machine)"
  by (cases c)
    (auto simp: for_user_def run_get_user_token_def
      intro!: command_rules handle_result_evolves setup_cmd_evolves change_evolves delete_evolves
        test_evolves status_evolves run_master_key_evolves key_commands_evolve)

lemma sandbox_evolves: "evolves obs R (pinutil_sandbox E)"
  unfolding pinutil_sandbox_def Let_def by (intro command_rules)

lemma main_evolves: "evolves obs R (pinutil_main E args)"
  unfolding pinutil_main_def Let_def
  by (intro command_rules sandbox_evolves run_command_evolves)

end

end
