(* ===== verification/ManagerSound.thy ===== *)
theory ManagerSound imports PinManager TpmLaws begin

text \<open>
  Safety of the PIN manager over any TPM that meets \<^const>\<open>tss_sound\<close>, faulty ones included:
  what each operation may do to the NV indices, and what its answers mean.  Operations on one
  user touch that user's two indices only and keep them well formed (\<open>uid_step\<close>); a
  successful verification is a match against the stored value below the limit.
\<close>

section \<open>Single calls\<close>

lemma is_auth_failure_iff:
  "is_auth_failure T e \<longleftrightarrow>
     (\<exists>rc. e = Tss2Error rc \<and> rc_kind T rc \<in> {Some RcAuthFail, Some RcBadAuth})"
  by (auto simp: is_auth_failure_def split: tss_error.splits)

lemma is_missing_iff:
  "is_missing T e \<longleftrightarrow>
     (\<exists>rc. e = Tss2Error rc \<and> rc_kind T rc \<in> {Some RcHandle, Some RcNvUninitialized})"
  by (auto simp: is_missing_def split: tss_error.splits)

lemma tr_from_D:
  assumes "tss_sound T V" and "tr_from_tpm_public T i w = (r, w')"
  shows "nvs V w' = nvs V w"
    and "r = Ok h \<Longrightarrow> objs V w' = (objs V w)(h \<mapsto> (i, [])) \<and> pols V w h = None \<and> pols V w' = pols V w"
proof -
  show "nvs V w' = nvs V w" using evolvesD [OF sound_keeps(15) [OF assms(1)] assms(2)] by simp
  from assms(1) have "law_handles T V" by (simp add: tss_sound_def)
  then have "wp (tr_from_tpm_public T i) (\<lambda>r w'. \<forall>h. r = Ok h \<longrightarrow>
     objs V w' = (objs V w)(h \<mapsto> (i, [])) \<and> pols V w h = None \<and> pols V w' = pols V w) w"
    by (simp add: law_handles_def)
  from wpD [OF this assms(2)]
  show "r = Ok h \<Longrightarrow> objs V w' = (objs V w)(h \<mapsto> (i, [])) \<and> pols V w h = None \<and> pols V w' = pols V w"
    by simp
qed

lemma tr_set_auth_D:
  assumes "tss_sound T V" and "tr_set_auth T h a w = (r, w')"
  shows "nvs V w' = nvs V w"
    and "r = Ok () \<Longrightarrow> objs V w h = Some (i, b) \<Longrightarrow> objs V w' = (objs V w)(h \<mapsto> (i, a))"
    and "r = Ok () \<Longrightarrow> objs V w h = None \<Longrightarrow> objs V w' = objs V w"
proof -
  show "nvs V w' = nvs V w" using evolvesD [OF sound_keeps(16) [OF assms(1)] assms(2)] by simp
  from assms(1) have "law_handles T V" by (simp add: tss_sound_def)
  then have *: "wp (tr_set_auth T h a)
        (\<lambda>r w'. r = Ok () \<longrightarrow>
           objs V w' =
             (case objs V w h of None \<Rightarrow> objs V w | Some (i, _) \<Rightarrow> (objs V w)(h \<mapsto> (i, a)))) w"
    by (simp add: law_handles_def)
  show "r = Ok () \<Longrightarrow> objs V w h = Some (i, b) \<Longrightarrow> objs V w' = (objs V w)(h \<mapsto> (i, a))"
    "r = Ok () \<Longrightarrow> objs V w h = None \<Longrightarrow> objs V w' = objs V w"
    using wpD [OF * assms(2)] by simp_all
qed

lemma nv_read_D:
  assumes "tss_sound T V" and "objs V w h = Some (i, a)"
    and "\<And>e. nvs V w i = Some e \<Longrightarrow> is_pin_entry e"
    and "nv_read T (AuthNvIndex h) h PIN_DATA_SIZE 0 w = (r, w')"
  shows "read_outcome T a i (nvs V w) (nvs V w') r"
proof -
  from assms(1) have "law_nv_read T V" by (simp add: tss_sound_def)
  with assms(2,3) have "wp (nv_read T (AuthNvIndex h) h PIN_DATA_SIZE 0)
      (\<lambda>r w'. read_outcome T a i (nvs V w) (nvs V w') r) w"
    by (simp add: law_nv_read_def)
  then show ?thesis using assms(4) by (rule wpD)
qed

lemma nv_read_full_D:
  assumes "tss_sound T V" and "nv_read_full T AuthOwner i w = (r, w')"
  shows "nvs V w' = nvs V w"
    and "r = Ok d \<Longrightarrow> \<exists>e. nvs V w i = Some e \<and> e_data e = Some d"
    and "r = Err er \<Longrightarrow> is_missing T er \<Longrightarrow> nvs V w i = Some e \<Longrightarrow> e_data e = None"
proof -
  show "nvs V w' = nvs V w" using evolvesD [OF sound_keeps(17) [OF assms(1)] assms(2)] by simp
  from assms(1) have "law_nv_read_full T V" by (simp add: tss_sound_def)
  then have "wp (nv_read_full T AuthOwner i)
        (\<lambda>r w'. (\<forall>d. r = Ok d \<longrightarrow> (\<exists>e. nvs V w i = Some e \<and> e_data e = Some d)) \<and>
           (\<forall>rc. r = Err (Tss2Error rc) \<longrightarrow>
              rc_kind T rc \<in> {Some RcHandle, Some RcNvUninitialized} \<longrightarrow>
              (\<forall>e. nvs V w i = Some e \<longrightarrow> e_data e = None))) w"
    by (simp add: law_nv_read_full_def)
  from wpD [OF this assms(2)]
  show "r = Ok d \<Longrightarrow> \<exists>e. nvs V w i = Some e \<and> e_data e = Some d"
    "r = Err er \<Longrightarrow> is_missing T er \<Longrightarrow> nvs V w i = Some e \<Longrightarrow> e_data e = None"
    by (auto simp: is_missing_def split: tss_error.splits)
qed

lemma nv_define_D:
  assumes "tss_sound T V" and "nv_define_space T auth pub w = (r, w')"
  shows "nvs V w' = nvs V w \<or>
      nvs V w (nv_index pub) = None \<and>
      nvs V w' = (nvs V w)(nv_index pub \<mapsto> fresh_entry auth pub)"
    and "r = Ok () \<Longrightarrow> nvs V w (nv_index pub) = None \<and>
      nvs V w' = (nvs V w)(nv_index pub \<mapsto> fresh_entry auth pub)"
proof -
  from assms(1) have "law_nv_space T V" by (simp add: tss_sound_def)
  then have "wp (nv_define_space T auth pub)
        (\<lambda>r w'.
           let N = nvs V w; i = nv_index pub;
               done = (N i = None \<and> nvs V w' = N(i \<mapsto> fresh_entry auth pub))
           in (r = Ok () \<longrightarrow> done) \<and> (nvs V w' = N \<or> done)) w"
    unfolding law_nv_space_def by blast
  from wpD [OF this assms(2)]
  show "nvs V w' = nvs V w \<or>
      nvs V w (nv_index pub) = None \<and>
      nvs V w' = (nvs V w)(nv_index pub \<mapsto> fresh_entry auth pub)"
    "r = Ok () \<Longrightarrow> nvs V w (nv_index pub) = None \<and>
      nvs V w' = (nvs V w)(nv_index pub \<mapsto> fresh_entry auth pub)"
    by (simp_all add: Let_def)
qed

lemma nv_undefine_D:
  assumes "tss_sound T V" and "objs V w h = Some (i, a)" and "nv_undefine_space T h w = (r, w')"
  shows "nvs V w' = nvs V w \<or> nvs V w i \<noteq> None \<and> nvs V w' = (nvs V w)(i := None)"
    and "r = Ok () \<Longrightarrow> nvs V w i \<noteq> None \<and> nvs V w' = (nvs V w)(i := None)"
proof -
  from assms(1) have "law_nv_space T V" by (simp add: tss_sound_def)
  with assms(2) have "wp (nv_undefine_space T h)
          (\<lambda>r w'.
             let N = nvs V w; done = (N i \<noteq> None \<and> nvs V w' = N(i := None))
             in (r = Ok () \<longrightarrow> done) \<and> (nvs V w' = N \<or> done)) w"
    unfolding law_nv_space_def by blast
  from wpD [OF this assms(3)]
  show "nvs V w' = nvs V w \<or> nvs V w i \<noteq> None \<and> nvs V w' = (nvs V w)(i := None)"
    "r = Ok () \<Longrightarrow> nvs V w i \<noteq> None \<and> nvs V w' = (nvs V w)(i := None)"
    by (simp_all add: Let_def)
qed

definition write_done ::
  "('w, 'v) view_scheme \<Rightarrow> nv_auth \<Rightarrow> nv_handle \<Rightarrow> byte list \<Rightarrow> 'w \<Rightarrow> nv_map \<Rightarrow> bool"
where
  "write_done V auth i d w N' \<longleftrightarrow>
     (\<exists>e. nvs V w i = Some e \<and> may_write V auth w e \<and> length d \<le> data_area_size (e_public e) \<and>
        (\<exists>d'. N' = (nvs V w)(i \<mapsto> e\<lparr>e_data := Some d'\<rparr>) \<and>
           length d' = data_area_size (e_public e) \<and> take (length d) d' = d))"

lemma nv_write_D:
  assumes "tss_sound T V" and "objs V w h = Some (i, a)" and "nv_write T auth h d 0 w = (r, w')"
  shows "nvs V w' = nvs V w \<or> write_done V auth i d w (nvs V w')"
    and "r = Ok () \<Longrightarrow> write_done V auth i d w (nvs V w')"
proof -
  from assms(1) have "law_nv_write T V" by (simp add: tss_sound_def)
  with assms(2) have "wp (nv_write T auth h d 0)
          (\<lambda>r w'.
             let N = nvs V w;
                 done = (\<exists>e. N i = Some e \<and> may_write V auth w e \<and>
                   length d \<le> data_area_size (e_public e) \<and>
                   (\<exists>d'. nvs V w' = N(i \<mapsto> e\<lparr>e_data := Some d'\<rparr>) \<and>
                      length d' = data_area_size (e_public e) \<and> take (length d) d' = d))
             in (r = Ok () \<longrightarrow> done) \<and> (nvs V w' = N \<or> done)) w"
    unfolding law_nv_write_def by blast
  from wpD [OF this assms(3)]
  show "nvs V w' = nvs V w \<or> write_done V auth i d w (nvs V w')"
    "r = Ok () \<Longrightarrow> write_done V auth i d w (nvs V w')"
    by (simp_all add: Let_def write_done_def)
qed

section \<open>Operations that leave the indices\<close>

lemma bracket_evolves:
  assumes E: "world_preorder E" and S: "tss_sound T V" and f: "evolves (nvs V) E f"
  shows "evolves (nvs V) E (with_nullauth T f)" "evolves (nvs V) E (without_session T f)"
    "evolves (nvs V) E (with_session T s f)" "evolves (nvs V) E (then_clear T f)"
  unfolding with_nullauth_def without_session_def with_session_def then_clear_def clear_sessions_def
  by (intro f world_preorder.evolves_intros [OF E] world_preorder.equal_evolves [OF E]
      sound_keeps [OF S])+

lemma clear_sessions_keeps: "tss_sound T V \<Longrightarrow> keeps_nv V (clear_sessions T)"
  unfolding clear_sessions_def by (rule sound_keeps)

lemma restart_context_keeps: "tss_sound T V \<Longrightarrow> keeps_nv V (restart_context T m)"
  unfolding restart_context_def by (intro keep_rules)

lemmas bracket_keeps = bracket_evolves [OF unchanged.world_preorder_axioms]

lemma option_keeps:
  "keeps_nv V m \<Longrightarrow> (\<And>y. keeps_nv V (n y)) \<Longrightarrow>
     keeps_nv V (case x of None \<Rightarrow> m | Some y \<Rightarrow> n y)"
  by (simp split: option.splits)

lemma if_keeps: "keeps_nv V m \<Longrightarrow> keeps_nv V n \<Longrightarrow> keeps_nv V (if b then m else n)"
  by simp

lemmas all_keeps =
  clear_sessions_keeps restart_context_keeps bracket_keeps option_keeps if_keeps keep_rules

lemma read_pin_slot_owner_keeps:
  assumes S: "tss_sound T V" shows "keeps_nv V (read_pin_slot_owner T i)"
  unfolding read_pin_slot_owner_def by (intro all_keeps S)

lemma read_pin_version_tag_keeps:
  assumes S: "tss_sound T V" shows "keeps_nv V (read_pin_version_tag T uid)"
  unfolding read_pin_version_tag_def by (intro all_keeps S)

lemma queries_keep:
  assumes S: "tss_sound T V"
  shows "keeps_nv V (get_pin_slot T uid)" "keeps_nv V (is_locked_out T uid)"
    "keeps_nv V (get_attempt_count T uid)"
  unfolding get_pin_slot_def is_locked_out_def get_attempt_count_def
  by (intro all_keeps read_pin_slot_owner_keeps S)+

lemma start_write_policy_keeps:
  assumes S: "tss_sound T V" shows "keeps_nv V (start_write_policy T st msg)"
  unfolding start_write_policy_def by (intro all_keeps S)

lemma pin_slot_template_keeps:
  assumes S: "tss_sound T V" shows "keeps_nv V (pin_slot_template T i)"
  unfolding pin_slot_template_def by (intro all_keeps start_write_policy_keeps S)

section \<open>What the queries answer\<close>

lemma then_clear_D:
  assumes "tss_sound T V" and "then_clear T m w = (r, w')"
  obtains w1 where "m w = (r, w1)" "nvs V w' = nvs V w1"
proof -
  have "nvs V (ctx_clear_sessions T w1) = nvs V w1" for w1
    using assms(1) by (simp add: tss_sound_def law_keeps_nv_def)
  then show ?thesis
    using assms(2) that unfolding then_clear_def clear_sessions_def
    by (auto elim!: matchResE andThenE simp: run_simps)
qed

lemma read_pin_slot_owner_D:
  assumes S: "tss_sound T V" and run: "read_pin_slot_owner T i w = (r, w')"
  shows "r = Ok (Some s) \<Longrightarrow> \<exists>e. nvs V w i = Some e \<and> entry_pin e = Some s"
    and "r = Ok None \<Longrightarrow> nvs V w i = Some e \<Longrightarrow> e_data e = None"
proof -
  define f where "f = andThen (nv_read_full T AuthOwner i)
     (\<lambda>data. case from_bytes data of Some slot \<Rightarrow> ok slot | None \<Rightarrow> err (WrapperError WrongValueFromTpm))"
  define P where "P = (\<lambda>r (N :: nv_map).
     (\<forall>s. r = Ok s \<longrightarrow> (\<exists>e. nvs V w i = Some e \<and> entry_pin e = Some s)) \<and>
     (\<forall>er. r = Err er \<longrightarrow> is_missing T er \<longrightarrow> (\<forall>e. nvs V w i = Some e \<longrightarrow> e_data e = None)))"
  have plainP: "P r N" if "plain T r" for r :: "(pin_data, tss_error) res" and N
    using that by (cases r) (auto simp: P_def is_missing_def plain_error_def split: tss_error.splits)
  have "wp (with_nullauth T f) (\<lambda>r w'. P r (nvs V w')) w"
  proof (rule wp_with_nullauth [OF S])
    fix w1 assume w1: "nvs V w1 = nvs V w"
    have "P r (nvs V w2)" if "f w1 = (r, w2)" for r w2
      using that w1 nv_read_full_D [OF S]
      by (fastforce simp: f_def P_def entry_pin_def is_missing_def run_simps elim!: run_elims
          split: option.splits)
    then show "wp f (\<lambda>r w2. P r (nvs V w2) \<and> (\<forall>r'. plain T r' \<longrightarrow> P r' (nvs V w2))) w1"
      using plainP by (auto intro: wpI)
  qed (rule plainP)
  note * = wpD [OF this]
  show "r = Ok (Some s) \<Longrightarrow> \<exists>e. nvs V w i = Some e \<and> entry_pin e = Some s"
    "r = Ok None \<Longrightarrow> nvs V w i = Some e \<Longrightarrow> e_data e = None"
    using run * unfolding read_pin_slot_owner_def f_def [symmetric]
    by (auto elim!: run_elims then_clear_D [OF S] simp: run_simps P_def split: if_splits)
qed

lemma read_pin_version_tag_D:
  assumes S: "tss_sound T V" and run: "read_pin_version_tag T uid w = (r, w')"
    and j: "version_nv_index_for_uid T uid = Ok j"
  shows "r = Ok (Some v) \<Longrightarrow> \<exists>e. nvs V w j = Some e \<and> e_data e = Some [v]"
    and "r = Ok None \<Longrightarrow> nvs V w j = Some e \<Longrightarrow> e_data e = None"
proof -
  define P where "P = (\<lambda>r (N :: nv_map).
     (\<forall>d. r = Ok d \<longrightarrow> (\<exists>e. nvs V w j = Some e \<and> e_data e = Some d)) \<and>
     (\<forall>er. r = Err er \<longrightarrow> is_missing T er \<longrightarrow> (\<forall>e. nvs V w j = Some e \<longrightarrow> e_data e = None)))"
  have plainP: "P r N" if "plain T r" for r :: "(byte list, tss_error) res" and N
    using that by (cases r) (auto simp: P_def is_missing_def plain_error_def split: tss_error.splits)
  have "wp (with_nullauth T (nv_read_full T AuthOwner j)) (\<lambda>r w'. P r (nvs V w')) w"
  proof (rule wp_with_nullauth [OF S])
    fix w1 assume w1: "nvs V w1 = nvs V w"
    have "P r (nvs V w2)" if "nv_read_full T AuthOwner j w1 = (r, w2)" for r w2
      using that w1 nv_read_full_D [OF S that] by (auto simp: P_def)
    then show "wp (nv_read_full T AuthOwner j)
        (\<lambda>r w2. P r (nvs V w2) \<and> (\<forall>r'. plain T r' \<longrightarrow> P r' (nvs V w2))) w1"
      using plainP by (auto intro: wpI)
  qed (rule plainP)
  note * = wpD [OF this]
  show "r = Ok (Some v) \<Longrightarrow> \<exists>e. nvs V w j = Some e \<and> e_data e = Some [v]"
    "r = Ok None \<Longrightarrow> nvs V w j = Some e \<Longrightarrow> e_data e = None"
    using run * j unfolding read_pin_version_tag_def
    by (auto elim!: run_elims then_clear_D [OF S]
        simp: run_simps P_def PIN_VERSION_TAG_SIZE_def length_Suc_conv split: if_splits list.splits)
qed

section \<open>What a verification means\<close>

text \<open>
  The meaning of an answer, as a relation between the indices before and after: a success is an
  accepted use of the stored value on a slot that is not locked; \<open>Invalid\<close> is a rejected use,
  or a slot already at its limit; and nothing else than one use ever happens.
\<close>

definition verify_outcome ::
  "byte list \<Rightarrow> nv_handle \<Rightarrow> nv_map \<Rightarrow> nv_map \<Rightarrow> (verification_result, 'e) res \<Rightarrow> bool"
where
  "verify_outcome a i N N' r \<longleftrightarrow>
     (\<forall>s. r = Ok (VerifySuccess s) \<longrightarrow>
        pin_accept a i N N' \<and> (\<exists>e. N' i = Some e \<and> entry_pin e = Some s) \<and> \<not> slot_locked s) \<and>
     (\<forall>l. r = Ok (VerifyInvalid l) \<longrightarrow> pin_reject a i N N' \<or> N' = N \<and> pin_refuse i N) \<and>
     (r = Ok VerifyLockedOut \<longrightarrow> pin_accept a i N N') \<and>
     (N' = N \<or> pin_accept a i N N' \<or> pin_reject a i N N')"

lemma verify_outcome_unchanged: "verify_outcome a i N N (Err e)" "verify_outcome a i N N (Panic s)"
  by (auto simp: verify_outcome_def)

lemma read_outcome_effect:
  "read_outcome T a i N N' r \<Longrightarrow> N' = N \<or> pin_accept a i N N' \<or> pin_reject a i N N'"
  by (simp add: read_outcome_def)

definition read_slot_auth ::
  "('w, 'z) tss_scheme \<Rightarrow> esys_tr \<Rightarrow> byte list \<Rightarrow> ('w, byte list, tss_error) eff"
where
  "read_slot_auth T h a =
     andThen (checked (auth_check T a) a) (\<lambda>auth.
     andThen (tr_set_auth T h auth) (\<lambda>_.
     nv_read T (AuthNvIndex h) h PIN_DATA_SIZE 0))"

lemma read_slot_auth_D:
  assumes S: "tss_sound T V" and h: "objs V w h = Some (i, b)"
    and pin: "\<And>e. nvs V w i = Some e \<Longrightarrow> is_pin_entry e"
    and run: "with_nullauth T (read_slot_auth T h a) w = (r, w')"
  shows "read_outcome T a i (nvs V w) (nvs V w') r"
proof -
  have plainP: "read_outcome T a i N N' r"
    if "plain T r" "N' = N \<or> pin_accept a i N N' \<or> pin_reject a i N N'" for N N' r
    using that by (cases r) (auto simp: read_outcome_def plain_error_def)
  have "wp (with_nullauth T (read_slot_auth T h a))
      (\<lambda>r w'. read_outcome T a i (nvs V w) (nvs V w') r) w"
  proof (rule wp_with_nullauth [OF S])
    fix w1 assume w1: "nvs V w1 = nvs V w" "objs V w1 = objs V w"
    have "read_outcome T a i (nvs V w) (nvs V w2) r"
      if run: "read_slot_auth T h a w1 = (r, w2)" for r w2
    proof -
      from run consider
          (check) e where "auth_check T a = Some e" "r = Err e" "w2 = w1"
        | (set) r1 where "tr_set_auth T h a w1 = (r1, w2)" "r1 \<noteq> Ok ()"
            "\<And>e. r1 = Err e \<Longrightarrow> r = Err e" "\<And>s. r1 = Panic s \<Longrightarrow> r = Panic s"
        | (read) w3 where "tr_set_auth T h a w1 = (Ok (), w3)"
            "nv_read T (AuthNvIndex h) h PIN_DATA_SIZE 0 w3 = (r, w2)"
        unfolding read_slot_auth_def checked_def
        by (fastforce elim!: andThenE simp: run_simps split: option.splits)
      then show ?thesis
      proof cases
        case check
        then have "plain T r" using S by (auto simp: tss_sound_def law_plain_errors_def)
        then show ?thesis using check w1 plainP by simp
      next
        case set
        then have "plain T r1" using plain_nullauth(3) [OF S] by blast
        then have "plain T r" using set by (cases r1) auto
        then show ?thesis using set(1) w1 plainP tr_set_auth_D(1) [OF S] by simp
      next
        case read
        then have w3: "nvs V w3 = nvs V w" "objs V w3 h = Some (i, a)"
          using w1 h tr_set_auth_D [OF S read(1)] by auto
        then show ?thesis using nv_read_D [OF S w3(2) _ read(2)] pin by simp
      qed
    qed
    moreover from this have "read_outcome T a i (nvs V w) (nvs V w2) r'"
      if "read_slot_auth T h a w1 = (r, w2)" "plain T r'" for r r' w2
      using plainP [OF that(2) read_outcome_effect] that(1) by metis
    ultimately show "wp (read_slot_auth T h a)
        (\<lambda>r w2. read_outcome T a i (nvs V w) (nvs V w2) r \<and>
          (\<forall>r'. plain T r' \<longrightarrow> read_outcome T a i (nvs V w) (nvs V w2) r')) w1"
      by (simp add: wpI)
  qed (rule plainP, simp_all)
  then show ?thesis using run by (rule wpD)
qed

lemma verify_pin_exact_unfold:
  "verify_pin_exact T uid a =
     andThen (pure (nv_index_for_uid T uid)) (\<lambda>nvi.
     andThen (liftTss T (tr_from_tpm_public T nvi)) (\<lambda>handle.
     matchRes
       (andThen (with_nullauth T (read_slot_auth T handle a))
         (\<lambda>data.
            case from_bytes data of
              None \<Rightarrow> err (WrapperError WrongValueFromTpm)
            | Some slot \<Rightarrow> ok (if slot_locked slot then VerifyLockedOut else VerifySuccess slot)))
       ok
       (\<lambda>e.
          if is_auth_failure T e then
            matchRes (read_pin_slot_owner T nvi)
              (\<lambda>opt. ok (VerifyInvalid (case opt of Some slot \<Rightarrow> slot_locked slot | None \<Rightarrow> False)))
              (\<lambda>_. ok (VerifyInvalid False))
          else if is_missing T e then err (NotProvisioned uid)
          else err (from_tss T e))))"
  by (simp add: verify_pin_exact_def read_slot_auth_def)

lemma verify_pin_exact_D:
  assumes S: "tss_sound T V" and i: "nv_index_for_uid T uid = Ok i"
    and pin: "\<And>e. nvs V w i = Some e \<Longrightarrow> is_pin_entry e"
    and run: "verify_pin_exact T uid a w = (r, w')"
  shows "verify_outcome a i (nvs V w) (nvs V w') r"
proof -
  note run = run [unfolded verify_pin_exact_unfold]
  from run i consider
      (handle) "nvs V w' = nvs V w" "\<forall>x. r \<noteq> Ok x"
    | (read) h w1 r2 w2 where "tr_from_tpm_public T i w = (Ok h, w1)"
        "with_nullauth T (read_slot_auth T h a) w1 = (r2, w2)"
        "nvs V w' = nvs V w2"
        "\<And>v. r = Ok v \<Longrightarrow>
           (\<exists>d s. r2 = Ok d \<and> from_bytes d = Some s \<and>
              v = (if slot_locked s then VerifyLockedOut else VerifySuccess s)) \<or>
           (\<exists>e l. r2 = Err e \<and> is_auth_failure T e \<and> v = VerifyInvalid l)"
    using evolvesD [OF read_pin_slot_owner_keeps [OF S, of i]] tr_from_D(1) [OF S]
    by (fastforce elim!: run_elims simp: run_simps is_auth_failure_def split: option.splits if_splits)
  then show ?thesis
  proof cases
    case handle
    then show ?thesis by (simp add: verify_outcome_def)
  next
    case read
    from tr_from_D [OF S read(1)] have w1: "nvs V w1 = nvs V w" "objs V w1 h = Some (i, [])"
      by simp_all
    have ro: "read_outcome T a i (nvs V w) (nvs V w2) r2"
      using read_slot_auth_D [OF S w1(2) _ read(2)] pin w1(1) by simp
    show ?thesis
      using ro read(3,4)
      by (fastforce simp: verify_outcome_def read_outcome_def is_auth_failure_iff entry_pin_def
          split: if_splits)
  qed
qed

section \<open>One user's indices\<close>

text \<open>What the program puts in a slot, and in a version tag.\<close>

definition slot_entry_ok :: "nv_entry \<Rightarrow> bool" where
  "slot_entry_ok e \<longleftrightarrow>
     index_attributes (e_public e) = pin_slot_attributes \<and>
     data_area_size (e_public e) = PIN_DATA_SIZE \<and>
     (\<forall>d. e_data e = Some d \<longrightarrow> length d = PIN_DATA_SIZE)"

definition tag_entry_ok :: "nv_entry \<Rightarrow> bool" where
  "tag_entry_ok e \<longleftrightarrow>
     index_attributes (e_public e) = version_tag_attributes \<and>
     data_area_size (e_public e) = PIN_VERSION_TAG_SIZE \<and>
     (\<forall>d. e_data e = Some d \<longrightarrow> length d = PIN_VERSION_TAG_SIZE)"

definition wf_uid :: "('w, 'z) tss_scheme \<Rightarrow> u32 \<Rightarrow> nv_map \<Rightarrow> bool" where
  "wf_uid T uid N \<longleftrightarrow>
     (\<forall>i e. nv_index_for_uid T uid = Ok i \<longrightarrow> N i = Some e \<longrightarrow> slot_entry_ok e) \<and>
     (\<forall>j e. version_nv_index_for_uid T uid = Ok j \<longrightarrow> N j = Some e \<longrightarrow> tag_entry_ok e)"

definition owns :: "('w, 'z) tss_scheme \<Rightarrow> u32 \<Rightarrow> nv_handle \<Rightarrow> bool" where
  "owns T uid k \<longleftrightarrow> nv_index_for_uid T uid = Ok k \<or> version_nv_index_for_uid T uid = Ok k"

text \<open>From a well-formed state, only the user's own indices change and they stay well formed.\<close>

definition uid_step :: "('w, 'z) tss_scheme \<Rightarrow> u32 \<Rightarrow> nv_map \<Rightarrow> nv_map \<Rightarrow> bool" where
  "uid_step T uid N N' \<longleftrightarrow>
     (wf_uid T uid N \<longrightarrow> wf_uid T uid N' \<and> (\<forall>k. \<not> owns T uid k \<longrightarrow> N' k = N k))"

interpretation user: world_preorder "uid_step T uid" for T uid
  by unfold_locales (auto simp: uid_step_def)

lemma slot_entry_pin: "slot_entry_ok e \<Longrightarrow> is_pin_entry e"
  by (simp add: slot_entry_ok_def is_pin_entry_def pin_slot_attributes_def)

lemma slot_entry_set_pin: "slot_entry_ok e \<Longrightarrow> slot_entry_ok (set_pin s e)"
  by (simp add: slot_entry_ok_def set_pin_def)

lemma uid_step_slot:
  assumes "nv_index_for_uid T uid = Ok i" "N' = N(i := x)"
    and "\<And>e. x = Some e \<Longrightarrow> wf_uid T uid N \<Longrightarrow> slot_entry_ok e"
  shows "uid_step T uid N N'"
  using assms layout.tag_slot [of T uid _ uid i]
  by (auto simp: uid_step_def wf_uid_def owns_def)

lemma uid_step_tag:
  assumes "version_nv_index_for_uid T uid = Ok j" "N' = N(j := x)"
    and "\<And>e. x = Some e \<Longrightarrow> wf_uid T uid N \<Longrightarrow> tag_entry_ok e"
  shows "uid_step T uid N N'"
  using assms layout.slot_tag [of T uid _ uid j]
  by (auto simp: uid_step_def wf_uid_def owns_def)

lemma wf_uid_slot: "wf_uid T uid N \<Longrightarrow> nv_index_for_uid T uid = Ok i \<Longrightarrow> N i = Some e \<Longrightarrow> slot_entry_ok e"
  by (simp add: wf_uid_def)

lemma wf_uid_tag:
  "wf_uid T uid N \<Longrightarrow> version_nv_index_for_uid T uid = Ok j \<Longrightarrow> N j = Some e \<Longrightarrow> tag_entry_ok e"
  by (simp add: wf_uid_def)

lemma pin_use_step:
  assumes "nv_index_for_uid T uid = Ok i" and "pin_accept a i N N' \<or> pin_reject a i N N'"
  shows "uid_step T uid N N'"
  using assms(2)
proof
  assume "pin_accept a i N N'"
  then obtain e s where "N i = Some e" "N' = N(i \<mapsto> set_pin (s\<lparr>pinCount := 0\<rparr>) e)"
    by (auto simp: pin_accept_def)
  then show ?thesis
    using assms(1) by (auto intro!: uid_step_slot slot_entry_set_pin dest: wf_uid_slot)
next
  assume "pin_reject a i N N'"
  then obtain e s where "N i = Some e" "N' = N(i \<mapsto> set_pin (s\<lparr>pinCount := pinCount s + 1\<rparr>) e)"
    by (auto simp: pin_reject_def)
  then show ?thesis
    using assms(1) by (auto intro!: uid_step_slot slot_entry_set_pin dest: wf_uid_slot)
qed

section \<open>Every operation is a step of its user\<close>

lemma pure_index_step:
  "(\<And>i. x = Ok i \<Longrightarrow> evolves obs (uid_step T uid) (k i)) \<Longrightarrow>
     evolves obs (uid_step T uid) (andThen (pure x) k)"
  by (cases x) (auto simp: evolves_def andThen_def pure_def user.refl)

lemma verify_pin_exact_step:
  assumes S: "tss_sound T V"
  shows "evolves (nvs V) (uid_step T uid) (verify_pin_exact T uid a)"
proof (rule evolvesI, rule wpI)
  fix w r w' assume run: "verify_pin_exact T uid a w = (r, w')"
  show "uid_step T uid (nvs V w) (nvs V w')"
  proof (cases "nv_index_for_uid T uid")
    case (Ok i)
    show ?thesis
    proof (cases "wf_uid T uid (nvs V w)")
      case True
      then have "verify_outcome a i (nvs V w) (nvs V w') r"
        using verify_pin_exact_D [OF S Ok _ run] wf_uid_slot [OF True Ok] slot_entry_pin by blast
      then show ?thesis
        using pin_use_step [OF Ok, of a "nvs V w" "nvs V w'"] user.refl
        by (auto simp: verify_outcome_def)
    qed (simp add: uid_step_def)
  qed (use run in \<open>auto simp: verify_pin_exact_def andThen_def pure_def user.refl\<close>)
qed

lemma undefine_step:
  assumes S: "tss_sound T V" and own: "owns T uid k"
  shows "evolves (nvs V) (uid_step T uid)
    (andThen (tr_from_tpm_public T k) (\<lambda>handle. nv_undefine_space T handle))"
proof (rule evolvesI, rule wpI, elim andThenE)
  fix w r w' h w1
  assume 1: "tr_from_tpm_public T k w = (Ok h, w1)" and 2: "nv_undefine_space T h w1 = (r, w')"
  from tr_from_D [OF S 1] have "nvs V w1 = nvs V w" "objs V w1 h = Some (k, [])" by simp_all
  then have "nvs V w' = nvs V w \<or> nvs V w' = (nvs V w)(k := None)"
    using nv_undefine_D(1) [OF S _ 2] by metis
  then show "uid_step T uid (nvs V w) (nvs V w')"
    using own uid_step_slot [of T uid k _ _ None] uid_step_tag [of T uid k _ _ None] user.refl
    by (auto simp: owns_def)
qed (use tr_from_D(1) [OF S] user.refl in \<open>metis\<close>)+

end
