(* ===== verification/ManagerSteps.thy ===== *)
theory ManagerSteps imports ManagerSound begin

text \<open>
  The operations that change indices, one by one: each is a \<open>uid_step\<close> of the user it is
  given, on every branch and on a TPM that may fail at any call.
\<close>

section \<open>The version tag\<close>

lemmas user_bracket = bracket_evolves [OF user.world_preorder_axioms]

lemma keeps_step: "keeps_nv V m \<Longrightarrow> evolves (nvs V) (uid_step T uid) m"
  by (rule user.equal_evolves)

lemma checked_step:
  "evolves obs (uid_step T uid) (k x) \<Longrightarrow> evolves obs (uid_step T uid) (andThen (checked c x) k)"
  by (cases c) (auto simp: checked_def evolves_def andThen_def ok_def err_def user.refl)

lemma delete_pin_version_tag_step:
  assumes S: "tss_sound T V"
  shows "evolves (nvs V) (uid_step T uid) (delete_pin_version_tag T uid)"
proof -
  have "evolves (nvs V) (uid_step T uid)
      (then_clear T (with_nullauth T
        (andThen (tr_from_tpm_public T i) (\<lambda>handle. nv_undefine_space T handle))))"
    if "version_nv_index_for_uid T uid = Ok i" for i
    using that by (intro user_bracket(4) user_bracket(1) undefine_step S) (simp add: owns_def)
  then show ?thesis
    unfolding delete_pin_version_tag_def
    by (auto intro!: pure_index_step user.evolves_intros)
qed

lemma delete_pin_admin_step:
  assumes S: "tss_sound T V"
  shows "evolves (nvs V) (uid_step T uid) (delete_pin_admin T uid)"
proof -
  have "evolves (nvs V) (uid_step T uid)
      (then_clear T (with_nullauth T
        (andThen (tr_from_tpm_public T i) (\<lambda>handle. andThen (nv_undefine_space T handle) (\<lambda>_. ok ())))))"
    if "nv_index_for_uid T uid = Ok i" for i
  proof -
    have *: "andThen (tr_from_tpm_public T i) (\<lambda>handle. andThen (nv_undefine_space T handle) (\<lambda>_. ok ()))
        = andThen (andThen (tr_from_tpm_public T i) (\<lambda>handle. nv_undefine_space T handle)) (\<lambda>_. ok ())"
      by (rule ext) (auto simp: andThen_def ok_def split: prod.splits res.splits)
    show ?thesis
      unfolding * using that
      by (intro user_bracket(4) user_bracket(1) user.andThen_evolves undefine_step user.ok_evolves S)
        (simp add: owns_def)
  qed
  then show ?thesis
    unfolding delete_pin_admin_def
    by (auto intro!: pure_index_step user.evolves_intros delete_pin_version_tag_step S)
qed

text \<open>Writing through a fresh handle under owner authorisation.\<close>

lemma write_fresh_D:
  assumes S: "tss_sound T V"
    and run: "andThen (tr_from_tpm_public T j) (\<lambda>handle.
        andThen (checked (max_nv_buffer_check T d) d) (\<lambda>payload.
        nv_write T AuthOwner handle payload 0)) w = (r, w')"
  shows "nvs V w' = nvs V w \<or> (\<exists>e d'. nvs V w j = Some e \<and>
      owner_write (index_attributes (e_public e)) \<and>
      nvs V w' = (nvs V w)(j \<mapsto> e\<lparr>e_data := Some d'\<rparr>) \<and>
      length d' = data_area_size (e_public e) \<and> take (length d) d' = d)"
    and "r = Ok () \<Longrightarrow> \<exists>e d'. nvs V w j = Some e \<and>
      nvs V w' = (nvs V w)(j \<mapsto> e\<lparr>e_data := Some d'\<rparr>) \<and>
      length d' = data_area_size (e_public e) \<and> take (length d) d' = d"
proof -
  from run consider (no) "nvs V w' = nvs V w" "r \<noteq> Ok ()"
    | (done1) h w1 where "tr_from_tpm_public T j w = (Ok h, w1)" "nv_write T AuthOwner h d 0 w1 = (r, w')"
    using tr_from_D(1) [OF S]
    by (elim andThenE) (auto simp: checked_def run_simps split: option.splits)
  then have "(nvs V w' = nvs V w \<or> (\<exists>e d'. nvs V w j = Some e \<and>
        owner_write (index_attributes (e_public e)) \<and>
        nvs V w' = (nvs V w)(j \<mapsto> e\<lparr>e_data := Some d'\<rparr>) \<and>
        length d' = data_area_size (e_public e) \<and> take (length d) d' = d)) \<and>
      (r = Ok () \<longrightarrow> (\<exists>e d'. nvs V w j = Some e \<and>
        nvs V w' = (nvs V w)(j \<mapsto> e\<lparr>e_data := Some d'\<rparr>) \<and>
        length d' = data_area_size (e_public e) \<and> take (length d) d' = d))"
  proof cases
    case done1
    from tr_from_D [OF S done1(1)] have "nvs V w1 = nvs V w" "objs V w1 h = Some (j, [])" by simp_all
    then show ?thesis
      using nv_write_D [OF S _ done1(2)] by (auto simp: write_done_def may_write_def)
  qed simp
  then show "nvs V w' = nvs V w \<or> (\<exists>e d'. nvs V w j = Some e \<and>
      owner_write (index_attributes (e_public e)) \<and>
      nvs V w' = (nvs V w)(j \<mapsto> e\<lparr>e_data := Some d'\<rparr>) \<and>
      length d' = data_area_size (e_public e) \<and> take (length d) d' = d)"
    and "r = Ok () \<Longrightarrow> \<exists>e d'. nvs V w j = Some e \<and>
      nvs V w' = (nvs V w)(j \<mapsto> e\<lparr>e_data := Some d'\<rparr>) \<and>
      length d' = data_area_size (e_public e) \<and> take (length d) d' = d"
    by blast+
qed

lemma write_existing_step:
  assumes S: "tss_sound T V" and j: "version_nv_index_for_uid T uid = Ok j"
  shows "evolves (nvs V) (uid_step T uid) (write_pin_version_tag_existing T j v)"
proof -
  have "evolves (nvs V) (uid_step T uid)
      (andThen (tr_from_tpm_public T j) (\<lambda>handle.
        andThen (checked (max_nv_buffer_check T [v]) [v]) (\<lambda>payload.
        nv_write T AuthOwner handle payload 0)))"
  proof (rule evolvesI, rule wpI)
    fix w r w'
    assume run: "andThen (tr_from_tpm_public T j) (\<lambda>handle.
        andThen (checked (max_nv_buffer_check T [v]) [v]) (\<lambda>payload.
        nv_write T AuthOwner handle payload 0)) w = (r, w')"
    show "uid_step T uid (nvs V w) (nvs V w')"
      using write_fresh_D(1) [OF S run]
    proof (elim disjE exE conjE)
      fix e d' assume e: "nvs V w j = Some e" "nvs V w' = (nvs V w)(j \<mapsto> e\<lparr>e_data := Some d'\<rparr>)"
        "length d' = data_area_size (e_public e)"
      show ?thesis
        by (rule uid_step_tag [OF j e(2)]) (use e wf_uid_tag [OF _ j] in \<open>auto simp: tag_entry_ok_def\<close>)
    qed (simp add: user.refl)
  qed
  then show ?thesis
    unfolding write_pin_version_tag_existing_def
    by (intro user.mapErr_evolves user_bracket S)
qed

lemma define_space_step:
  assumes S: "tss_sound T V"
    and pub: "version_nv_index_for_uid T uid = Ok (nv_index pub) \<and> tag_entry_ok (fresh_entry a pub) \<or>
      nv_index_for_uid T uid = Ok (nv_index pub) \<and> slot_entry_ok (fresh_entry a pub)"
  shows "evolves (nvs V) (uid_step T uid) (nv_define_space T a pub)"
proof (rule evolvesI, rule wpI)
  fix w r w' assume "nv_define_space T a pub w = (r, w')"
  from nv_define_D(1) [OF S this] pub show "uid_step T uid (nvs V w) (nvs V w')"
    by (auto intro: uid_step_tag uid_step_slot simp: user.refl)
qed

lemma define_pin_version_tag_step:
  assumes S: "tss_sound T V" and j: "version_nv_index_for_uid T uid = Ok j"
  shows "evolves (nvs V) (uid_step T uid) (define_pin_version_tag T j)"
proof -
  have "evolves (nvs V) (uid_step T uid) (nv_define_space T None (version_tag_public j))"
    using j by (intro define_space_step S)
      (simp add: version_tag_public_def tag_entry_ok_def fresh_entry_def)
  then show ?thesis
    unfolding define_pin_version_tag_def
    by (intro user.mapErr_evolves user.andThen_evolves user.ok_evolves checked_step user_bracket S
        keeps_step [OF clear_sessions_keeps])
qed

lemma write_pin_version_tag_step:
  assumes S: "tss_sound T V"
  shows "evolves (nvs V) (uid_step T uid) (write_pin_version_tag T uid v)"
  unfolding write_pin_version_tag_def
  by (auto intro!: pure_index_step user.evolves_intros write_existing_step
      define_pin_version_tag_step S split: pin_error.splits)

section \<open>Defining and writing a slot\<close>

lemma pin_slot_template_pub:
  "pin_slot_template T i w = (Ok (pub, dig), w') \<Longrightarrow> pub = pin_slot_public i dig"
  unfolding pin_slot_template_def without_session_def checked_def
  by (auto elim!: run_elims simp: run_simps split: option.splits)

text \<open>
  Whatever happens between, the initial write goes through a handle that names the slot's index.
\<close>

definition initial_write ::
  "('w, 'z) tss_scheme \<Rightarrow> esys_tr \<Rightarrow> byte list \<Rightarrow> esys_tr \<Rightarrow> byte list \<Rightarrow> ('w, unit, tss_error) eff"
where
  "initial_write T s a h d =
     andThen (tr_set_auth T s a) (\<lambda>_.
     andThen (nv_write T (AuthNvIndex h) h d 0) (\<lambda>_. ok ()))"

lemma session_begin_D:
  assumes "tss_sound T V"
  shows "nvs V (session_begin T s w) = nvs V w" "objs V (session_begin T s w) = objs V w"
  using assms by (simp_all add: tss_sound_def law_keeps_nv_def law_keeps_objs_def)

lemma tr_set_auth_bound:
  assumes S: "tss_sound T V" and run: "tr_set_auth T s a w = (Ok (), w')" and h: "objs V w h = Some (i, b)"
  obtains b' where "objs V w' h = Some (i, b')"
  using tr_set_auth_D(2,3) [OF S run] h that by (cases "objs V w s") (fastforce split: if_splits)+

lemma initial_write_D:
  assumes S: "tss_sound T V" and h: "objs V w h = Some (i, b)"
    and run: "initial_write T s a h d w = (r, w')"
  shows "nvs V w' = nvs V w \<or> (\<exists>w1. nvs V w1 = nvs V w \<and>
      write_done V (AuthNvIndex h) i d w1 (nvs V w'))"
    and "r = Ok () \<Longrightarrow> \<exists>w1. nvs V w1 = nvs V w \<and> write_done V (AuthNvIndex h) i d w1 (nvs V w')"
proof -
  from run consider (no) "nvs V w' = nvs V w" "r \<noteq> Ok ()"
    | (step) w1 r1 where "tr_set_auth T s a w = (Ok (), w1)"
        "nv_write T (AuthNvIndex h) h d 0 w1 = (r1, w')" "r = Ok () \<longrightarrow> r1 = Ok ()"
    using tr_set_auth_D(1) [OF S] unfolding initial_write_def
    by (elim andThenE) (auto simp: run_simps)
  then have "(nvs V w' = nvs V w \<or> (\<exists>w1. nvs V w1 = nvs V w \<and>
      write_done V (AuthNvIndex h) i d w1 (nvs V w'))) \<and>
    (r = Ok () \<longrightarrow> (\<exists>w1. nvs V w1 = nvs V w \<and> write_done V (AuthNvIndex h) i d w1 (nvs V w')))"
  proof cases
    case step
    obtain b' where "objs V w1 h = Some (i, b')" using tr_set_auth_bound [OF S step(1) h] .
    with nv_write_D [OF S this step(2)] tr_set_auth_D(1) [OF S step(1)] step(3)
    show ?thesis by metis
  qed simp
  then show "nvs V w' = nvs V w \<or> (\<exists>w1. nvs V w1 = nvs V w \<and>
      write_done V (AuthNvIndex h) i d w1 (nvs V w'))"
    and "r = Ok () \<Longrightarrow> \<exists>w1. nvs V w1 = nvs V w \<and> write_done V (AuthNvIndex h) i d w1 (nvs V w')"
    by blast+
qed

lemma slot_written_ok:
  assumes "slot_entry_ok e" "length d' = data_area_size (e_public e)"
  shows "slot_entry_ok (e\<lparr>e_data := Some d'\<rparr>)"
  using assms by (simp add: slot_entry_ok_def)

lemma write_initial_slot_step:
  assumes S: "tss_sound T V" and i: "nv_index_for_uid T uid = Ok i"
  shows "evolves (nvs V) (uid_step T uid) (write_initial_slot T m i a)"
proof -
  have "evolves (nvs V) (uid_step T uid)
     (andThen (tr_from_tpm_public T i) (\<lambda>h.
      andThen (with_session T s (initial_write T s a h d)) (\<lambda>_. ok ())))" for s d
  proof (rule evolvesI, rule wpI)
    fix w r w'
    assume "andThen (tr_from_tpm_public T i) (\<lambda>h.
      andThen (with_session T s (initial_write T s a h d)) (\<lambda>_. ok ())) w = (r, w')"
    then consider (no) "nvs V w' = nvs V w"
      | (step) h w1 r2 w2 where "tr_from_tpm_public T i w = (Ok h, w1)"
        "initial_write T s a h d (session_begin T s w1) = (r2, w2)" "nvs V w' = nvs V w2"
      using S tr_from_D(1) [OF S] unfolding with_session_def tss_sound_def law_keeps_nv_def
      by (elim andThenE matchResE) (auto simp: run_simps elim!: run_elims)
    then show "uid_step T uid (nvs V w) (nvs V w')"
    proof cases
      case step
      from tr_from_D [OF S step(1)] have w1: "nvs V w1 = nvs V w" "objs V w1 h = Some (i, [])"
        by simp_all
      with initial_write_D(1) [OF S _ step(2), of i "[]"] session_begin_D [OF S] step(3)
      consider "nvs V w' = nvs V w" | w3 where "nvs V w3 = nvs V w"
          "write_done V (AuthNvIndex h) i d w3 (nvs V w')"
        by auto
      then show ?thesis
      proof cases
        case 2
        then show ?thesis
          using uid_step_slot [OF i] wf_uid_slot [OF _ i] slot_written_ok
          by (fastforce simp: write_done_def)
      qed (simp add: user.refl)
    qed (simp add: user.refl)
  qed
  note * = this
  define d where "d = to_bytes (pin_data_new 0 (max_attempts (policy m)))"
  show ?thesis
  proof (cases "max_nv_buffer_check T d")
    case None
    show ?thesis
      unfolding write_initial_slot_def Let_def d_def [symmetric] None option.case
        initial_write_def [symmetric]
      by (rule user_bracket(2) [OF S], rule user.andThen_evolves,
          rule keeps_step [OF start_write_policy_keeps [OF S]], rule *)
  next
    case (Some e)
    then have "keeps_nv V (write_initial_slot T m i a)"
      unfolding write_initial_slot_def Let_def d_def [symmetric]
      by (auto intro!: all_keeps start_write_policy_keeps S)
    then show ?thesis by (rule keeps_step)
  qed
qed

lemma define_pin_slot_step:
  assumes S: "tss_sound T V" and i: "nv_index_for_uid T uid = Ok i"
  shows "evolves (nvs V) (uid_step T uid) (define_pin_slot T m i a)"
proof -
  have space: "evolves (nvs V) (uid_step T uid)
      (liftTss T (with_nullauth T (andThen (nv_define_space T (Some b) (pin_slot_public i dig)) (\<lambda>_. ok ()))))"
    for b dig
    using i by (intro user.mapErr_evolves user_bracket S user.andThen_evolves user.ok_evolves
        define_space_step) (simp add: pin_slot_public_def slot_entry_ok_def fresh_entry_def)
  have template: "evolves (nvs V) (uid_step T uid) (andThen (liftTss T (pin_slot_template T i)) k)"
    if "\<And>dig. evolves (nvs V) (uid_step T uid) (k (pin_slot_public i dig, dig))"
    for k :: "nv_public \<times> digest \<Rightarrow> ('a, unit, pin_error) eff"
  proof (rule evolvesI, rule wpI)
    fix w r w' assume "andThen (liftTss T (pin_slot_template T i)) k w = (r, w')"
    then consider "nvs V w' = nvs V w"
      | pub dig w1 where "pin_slot_template T i w = (Ok (pub, dig), w1)" "k (pub, dig) w1 = (r, w')"
      using evolvesD [OF pin_slot_template_keeps [OF S, of i]]
      by (elim run_elims) (auto simp: run_simps)
    then show "uid_step T uid (nvs V w) (nvs V w')"
    proof cases
      case 2
      then have "nvs V w1 = nvs V w" "pub = pin_slot_public i dig"
        using evolvesD [OF pin_slot_template_keeps [OF S, of i]] pin_slot_template_pub by metis+
      then show ?thesis using that 2(2) evolvesD by metis
    qed (simp add: user.refl)
  qed
  show ?thesis
    unfolding define_pin_slot_def
    by (rule user.andThen_evolves, rule user.mapErr_evolves, rule keeps_step [OF keeps_checked],
        rule template, simp only: prod.case)
      (intro user.andThen_evolves space user.mapErr_evolves [OF write_initial_slot_step [OF S i]]
        user.ok_evolves)
qed

section \<open>The public operations\<close>

lemma setup_pin_step:
  assumes S: "tss_sound T V"
  shows "evolves (nvs V) (uid_step T uid) (setup_pin T m uid pin)"
proof -
  note keeps = keeps_step [OF restart_context_keeps [OF S]]
    keeps_step [OF read_pin_slot_owner_keeps [OF S]]
  have if_step: "evolves (nvs V) (uid_step T uid) (if b then x else y)"
    if "evolves (nvs V) (uid_step T uid) x" "evolves (nvs V) (uid_step T uid) y"
    for b and x y :: "('a, unit, pin_error) eff"
    using that by simp
  show ?thesis
    unfolding setup_pin_def
    by (rule pure_index_step)
      (intro if_step user.andThen_evolves user.matchRes_evolves user.ok_evolves user.err_evolves keeps
        define_pin_slot_step write_pin_version_tag_step delete_pin_admin_step S; assumption)
qed

lemma migrate_step:
  assumes S: "tss_sound T V"
  shows "evolves (nvs V) (uid_step T uid) (migrate_legacy_pin_format T m uid pin)"
  unfolding migrate_legacy_pin_format_def Let_def
  by (auto intro!: write_pin_version_tag_step user.andThen_evolves user.ok_evolves
      delete_pin_admin_step setup_pin_step keeps_step [OF restart_context_keeps] S)

lemma verify_pin_step:
  assumes S: "tss_sound T V"
  shows "evolves (nvs V) (uid_step T uid) (verify_pin T m uid pin)"
proof -
  have "evolves (nvs V) (uid_step T uid) (if is_success r then
           andThen (restart_context T m) (\<lambda>_.
           matchRes (migrate_legacy_pin_format T m uid pin)
             (\<lambda>_. andThen (restart_context T m) (\<lambda>_. ok r))
             (\<lambda>_. andThen (restart_context T m) (\<lambda>_. ok r)))
         else ok r)" for r
    by (auto intro!: user.andThen_evolves user.matchRes_evolves user.ok_evolves migrate_step
      keeps_step [OF restart_context_keeps] S)
  then show ?thesis
    unfolding verify_pin_def
    by (auto intro!: user.andThen_evolves user.err_evolves verify_pin_exact_step
        keeps_step [OF clear_sessions_keeps] keeps_step [OF read_pin_version_tag_keeps] S
        split: option.splits)
qed

lemma delete_pin_with_auth_step:
  assumes S: "tss_sound T V"
  shows "evolves (nvs V) (uid_step T uid) (delete_pin_with_auth T m uid pin)"
  unfolding delete_pin_with_auth_def
  by (auto intro!: user.andThen_evolves user.ok_evolves verify_pin_step delete_pin_admin_step S
      split: verification_result.splits)

lemmas operation_steps =
  setup_pin_step verify_pin_step delete_pin_with_auth_step delete_pin_admin_step
  delete_pin_version_tag_step

end
