(* ===== verification/ManagerSafety.thy ===== *)
theory ManagerSafety imports ManagerSteps begin

text \<open>
  What success of the PIN manager's operations means on any sound TPM, and what a locked or
  provisioned slot is safe from.
\<close>

section \<open>Operations confined to one index\<close>

definition only_at :: "nv_handle \<Rightarrow> nv_map \<Rightarrow> nv_map \<Rightarrow> bool" where
  "only_at j N N' \<longleftrightarrow> (\<forall>k. k \<noteq> j \<longrightarrow> N' k = N k)"

interpretation only: world_preorder "only_at j" for j
  by unfold_locales (simp_all add: only_at_def)

lemmas only_bracket = bracket_evolves [OF only.world_preorder_axioms]

lemma only_checked:
  "evolves obs (only_at j) (k x) \<Longrightarrow> evolves obs (only_at j) (andThen (checked c x) k)"
  by (cases c) (auto simp: checked_def evolves_def andThen_def ok_def err_def only.refl)

lemma undefine_only:
  assumes S: "tss_sound T V"
  shows "evolves (nvs V) (only_at j)
    (andThen (tr_from_tpm_public T j) (\<lambda>handle. nv_undefine_space T handle))"
proof (rule evolvesI, rule wpI, elim andThenE)
  fix w r w' h w1
  assume 1: "tr_from_tpm_public T j w = (Ok h, w1)" and 2: "nv_undefine_space T h w1 = (r, w')"
  from tr_from_D [OF S 1] have "nvs V w1 = nvs V w" "objs V w1 h = Some (j, [])" by simp_all
  then show "only_at j (nvs V w) (nvs V w')"
    using nv_undefine_D(1) [OF S _ 2] by (force simp: only_at_def)
qed (use tr_from_D(1) [OF S] only.refl in \<open>metis\<close>)+

lemma write_existing_only:
  assumes S: "tss_sound T V"
  shows "evolves (nvs V) (only_at j) (write_pin_version_tag_existing T j v)"
proof -
  have "evolves (nvs V) (only_at j)
      (andThen (tr_from_tpm_public T j) (\<lambda>handle.
        andThen (checked (max_nv_buffer_check T [v]) [v]) (\<lambda>payload.
        nv_write T AuthOwner handle payload 0)))"
    by (rule evolvesI, rule wpI, drule write_fresh_D(1) [OF S]) (auto simp: only_at_def)
  then show ?thesis
    unfolding write_pin_version_tag_existing_def
    by (intro only.mapErr_evolves only_bracket S)
qed

lemma define_tag_only:
  assumes S: "tss_sound T V"
  shows "evolves (nvs V) (only_at j) (define_pin_version_tag T j)"
proof -
  have "evolves (nvs V) (only_at j) (nv_define_space T None (version_tag_public j))"
    by (rule evolvesI, rule wpI, drule nv_define_D(1) [OF S])
      (auto simp: only_at_def version_tag_public_def)
  then show ?thesis
    unfolding define_pin_version_tag_def
    by (intro only.mapErr_evolves only.andThen_evolves only.ok_evolves only_checked only_bracket S
        only.equal_evolves [OF clear_sessions_keeps])
qed

lemma tag_operations_only:
  assumes S: "tss_sound T V" and j: "version_nv_index_for_uid T uid = Ok j"
  shows "evolves (nvs V) (only_at j) (delete_pin_version_tag T uid)"
    and "evolves (nvs V) (only_at j) (write_pin_version_tag T uid v)"
proof -
  have pure: "andThen (pure (Ok x)) k = k x" for x k
    by (rule ext) (simp add: andThen_def pure_def)
  show "evolves (nvs V) (only_at j) (delete_pin_version_tag T uid)"
    unfolding delete_pin_version_tag_def j pure
    by (rule only.matchRes_evolves, rule only_bracket(4) [OF S], rule only_bracket(1) [OF S],
        rule undefine_only [OF S]) (auto intro: only.evolves_intros)
  show "evolves (nvs V) (only_at j) (write_pin_version_tag T uid v)"
    unfolding write_pin_version_tag_def j pure
    by (auto intro!: only.matchRes_evolves only.andThen_evolves only.ok_evolves only.err_evolves
        write_existing_only define_tag_only S split: pin_error.splits)
qed

lemma tag_operations_slot:
  assumes S: "tss_sound T V" and i: "nv_index_for_uid T uid = Ok i"
  shows "delete_pin_version_tag T uid w = (r, w') \<Longrightarrow> nvs V w' i = nvs V w i"
    and "write_pin_version_tag T uid v w = (r, w') \<Longrightarrow> nvs V w' i = nvs V w i"
proof -
  have "nvs V w' i = nvs V w i"
    if "evolves (nvs V) (only_at j) m" "version_nv_index_for_uid T uid = Ok j" "m w = (r, w')"
    for m j
    using evolvesD [OF that(1,3)] layout.slot_tag [OF i that(2)] by (simp add: only_at_def)
  note * = this [OF tag_operations_only(1) [OF S]] this [OF tag_operations_only(2) [OF S]]
  show "delete_pin_version_tag T uid w = (r, w') \<Longrightarrow> nvs V w' i = nvs V w i"
    using *(1) by (cases "version_nv_index_for_uid T uid")
      (auto simp: delete_pin_version_tag_def andThen_def pure_def)
  show "write_pin_version_tag T uid v w = (r, w') \<Longrightarrow> nvs V w' i = nvs V w i"
    using *(2) by (cases "version_nv_index_for_uid T uid")
      (auto simp: write_pin_version_tag_def andThen_def pure_def)
qed

section \<open>Successful runs\<close>

lemma with_nullauth_Ok:
  assumes S: "tss_sound T V" and run: "with_nullauth T f w = (Ok x, w')"
  obtains w1 w2 where "nvs V w1 = nvs V w" "objs V w1 = objs V w" "f w1 = (Ok x, w2)"
    "nvs V w' = nvs V w2"
proof -
  from run obtain w1 w2 where *: "nullauth_begin T w = (Ok (), w1)" "f w1 = (Ok x, w2)"
      "nullauth_end T w2 = (Ok (), w')"
    unfolding with_nullauth_def by (auto elim!: run_elims simp: run_simps)
  moreover have "objs V w1 = objs V w"
    using S *(1) by (auto simp: tss_sound_def law_keeps_objs_def dest: evolvesD)
  ultimately show ?thesis
    using that evolvesD [OF sound_keeps(3) [OF S]] evolvesD [OF sound_keeps(4) [OF S]] by metis
qed

lemma session_hooks:
  assumes "tss_sound T V"
  shows "nvs V (no_session_begin T w) = nvs V w" "nvs V (no_session_end T w) = nvs V w"
    "nvs V (session_end T w) = nvs V w" "nvs V (ctx_clear_sessions T w) = nvs V w"
  using assms by (simp_all add: tss_sound_def law_keeps_nv_def)

lemma without_session_Ok:
  assumes S: "tss_sound T V" and run: "without_session T f w = (Ok x, w')"
  obtains w1 w2 where "nvs V w1 = nvs V w" "f w1 = (Ok x, w2)" "nvs V w' = nvs V w2"
proof -
  from run obtain w2 where "f (no_session_begin T w) = (Ok x, w2)" "w' = no_session_end T w2"
    unfolding without_session_def by (auto elim!: run_elims simp: run_simps)
  then show ?thesis using that session_hooks [OF S] by metis
qed

lemma with_session_Ok:
  assumes S: "tss_sound T V" and run: "with_session T s f w = (Ok x, w')"
  obtains w1 w2 where "w1 = session_begin T s w" "f w1 = (Ok x, w2)" "nvs V w' = nvs V w2"
  using run that session_hooks [OF S] unfolding with_session_def
  by (auto elim!: run_elims simp: run_simps)

lemma liftTss_Ok: "liftTss T m w = (Ok x, w') \<longleftrightarrow> m w = (Ok x, w')"
  by (auto simp: mapErr_def matchRes_def ok_def err_def split: prod.splits res.splits)

lemma clear_sessions_D: "tss_sound T V \<Longrightarrow> clear_sessions T w = (r, w') \<Longrightarrow> nvs V w' = nvs V w"
  using evolvesD [OF clear_sessions_keeps] by metis

lemma restart_context_D: "tss_sound T V \<Longrightarrow> restart_context T m w = (r, w') \<Longrightarrow> nvs V w' = nvs V w"
  using evolvesD [OF restart_context_keeps] by metis

text \<open>A successful write of a whole index stores exactly the bytes given.\<close>

lemma write_done_exact:
  "write_done V au i d w N' \<Longrightarrow> nvs V w i = Some e \<Longrightarrow> data_area_size (e_public e) = length d \<Longrightarrow>
     N' = (nvs V w)(i \<mapsto> e\<lparr>e_data := Some d\<rparr>)"
  by (auto simp: write_done_def)

lemma delete_pin_admin_Ok:
  assumes S: "tss_sound T V" and i: "nv_index_for_uid T uid = Ok i"
    and run: "delete_pin_admin T uid w = (Ok (), w')"
  shows "nvs V w i \<noteq> None" and "nvs V w' i = None"
proof -
  define undef where "undef = andThen (tr_from_tpm_public T i)
     (\<lambda>handle. andThen (nv_undefine_space T handle) (\<lambda>_. ok ()))"
  from run i obtain w1 where 1: "then_clear T (with_nullauth T undef) w = (Ok (), w1)"
      and 2: "nvs V w' = nvs V w1 \<or> (\<exists>r. delete_pin_version_tag T uid w1 = (r, w'))"
    unfolding delete_pin_admin_def undef_def
    by (auto elim!: run_elims simp: run_simps split: if_splits)
  from 1 obtain w2 where "with_nullauth T undef w = (Ok (), w2)" "nvs V w1 = nvs V w2"
    using then_clear_D [OF S] by metis
  then obtain w3 w4 where w3: "nvs V w3 = nvs V w" and u: "undef w3 = (Ok (), w4)"
      and w1: "nvs V w1 = nvs V w4"
    by (metis with_nullauth_Ok [OF S])
  from u obtain h w5 where "tr_from_tpm_public T i w3 = (Ok h, w5)"
      "nv_undefine_space T h w5 = (Ok (), w4)"
    unfolding undef_def by (auto elim!: run_elims simp: run_simps)
  then have *: "nvs V w i \<noteq> None" "nvs V w1 = (nvs V w)(i := None)"
    using tr_from_D [OF S] nv_undefine_D(2) [OF S] w3 w1 by (metis fun_upd_same)+
  then show "nvs V w i \<noteq> None" by simp
  show "nvs V w' i = None"
    using 2 * tag_operations_slot(1) [OF S i] by (elim disjE exE) simp_all
qed

text \<open>The entry a completed setup leaves in the slot.\<close>

definition provisioned :: "pin_manager \<Rightarrow> nv_handle \<Rightarrow> byte list \<Rightarrow> nv_entry \<Rightarrow> bool" where
  "provisioned m i a e \<longleftrightarrow>
     (\<exists>dig. e_public e = pin_slot_public i dig) \<and> e_auth e = a \<and>
     e_data e = Some (to_bytes (pin_data_new 0 (max_attempts (policy m))))"

lemma write_initial_slot_Ok:
  assumes S: "tss_sound T V" and run: "write_initial_slot T m i a w = (Ok (), w')"
    and e: "nvs V w i = Some e" "data_area_size (e_public e) = PIN_DATA_SIZE"
  shows "nvs V w' = (nvs V w)(i \<mapsto> e\<lparr>e_data := Some (to_bytes (pin_data_new 0 (max_attempts (policy m))))\<rparr>)"
proof -
  define d where "d = to_bytes (pin_data_new 0 (max_attempts (policy m)))"
  define body where "body = (\<lambda>h. case max_nv_buffer_check T d of
       Some _ \<Rightarrow> panic ''called Result::unwrap() on an Err value''
     | None \<Rightarrow> andThen (nv_write T (AuthNvIndex h) h d 0) (\<lambda>_. ok ()))"
  have unfold: "write_initial_slot T m i a =
     without_session T
       (andThen (start_write_policy T Policy ''Failed to create auth session'') (\<lambda>s.
        andThen (tr_from_tpm_public T i) (\<lambda>h.
        andThen (with_session T s (andThen (tr_set_auth T s a) (\<lambda>_. body h))) (\<lambda>_. ok ()))))"
    by (simp only: write_initial_slot_def Let_def d_def [symmetric] body_def)
  from run [unfolded unfold] obtain w1 w2 where w1: "nvs V w1 = nvs V w" and w': "nvs V w' = nvs V w2"
    and 1: "andThen (start_write_policy T Policy ''Failed to create auth session'') (\<lambda>s.
        andThen (tr_from_tpm_public T i) (\<lambda>h.
        andThen (with_session T s (andThen (tr_set_auth T s a) (\<lambda>_. body h))) (\<lambda>_. ok ()))) w1
      = (Ok (), w2)"
    by (rule without_session_Ok [OF S])
  from 1 obtain s w3 h w4 where w3: "start_write_policy T Policy ''Failed to create auth session'' w1 = (Ok s, w3)"
    and h: "tr_from_tpm_public T i w3 = (Ok h, w4)"
    and b: "with_session T s (andThen (tr_set_auth T s a) (\<lambda>_. body h)) w4 = (Ok (), w2)"
    by (auto elim!: andThenE simp: run_simps)
  have n3: "nvs V w3 = nvs V w" using evolvesD [OF start_write_policy_keeps [OF S] w3] w1 by simp
  from tr_from_D [OF S h] n3 have n4: "nvs V w4 = nvs V w" "objs V w4 h = Some (i, [])" by simp_all
  from b obtain w5 where 5: "andThen (tr_set_auth T s a) (\<lambda>_. body h) (session_begin T s w4) = (Ok (), w5)"
    and n2: "nvs V w2 = nvs V w5"
    by (metis with_session_Ok [OF S])
  from 5 have c: "max_nv_buffer_check T d = None"
    by (auto simp: body_def run_simps elim!: andThenE split: option.splits)
  from 5 have "initial_write T s a h d (session_begin T s w4) = (Ok (), w5)"
    unfolding initial_write_def body_def c option.case .
  then obtain w6 where "nvs V w6 = nvs V w" "write_done V (AuthNvIndex h) i d w6 (nvs V w5)"
    using initial_write_D(2) [OF S] n4 session_begin_D [OF S] by metis
  moreover have "data_area_size (e_public e) = length d"
    using e(2) by (simp add: d_def)
  ultimately show ?thesis
    using write_done_exact [of V _ i d w6] e(1) n2 w' by (simp add: d_def)
qed

lemma define_pin_slot_Ok:
  assumes S: "tss_sound T V" and run: "define_pin_slot T m i a w = (Ok (), w')"
  obtains e where "nvs V w i = None" "nvs V w' = (nvs V w)(i \<mapsto> e)" "provisioned m i a e"
proof -
  from run obtain pub dig w1 w2 where
      t: "pin_slot_template T i w = (Ok (pub, dig), w1)"
    and d: "with_nullauth T (andThen (nv_define_space T (Some a) pub) (\<lambda>_. ok ())) w1 = (Ok (), w2)"
    and i: "write_initial_slot T m i a w2 = (Ok (), w')"
    unfolding define_pin_slot_def checked_def
    by (auto elim!: andThenE simp: run_simps liftTss_Ok mapErr_def matchRes_def
        split: option.splits prod.splits res.splits)
  have n1: "nvs V w1 = nvs V w" and pub: "pub = pin_slot_public i dig"
    using evolvesD [OF pin_slot_template_keeps [OF S] t] pin_slot_template_pub [OF t] by simp_all
  from d obtain w3 w4 where "nvs V w3 = nvs V w1" "nv_define_space T (Some a) pub w3 = (Ok (), w4)"
      "nvs V w2 = nvs V w4"
    by (elim with_nullauth_Ok [OF S]) (auto elim!: andThenE simp: run_simps)
  then have n2: "nvs V w i = None" "nvs V w2 = (nvs V w)(i \<mapsto> fresh_entry (Some a) (pin_slot_public i dig))"
    using nv_define_D(2) [OF S] n1 pub by (metis nv_public.select_convs(1) pin_slot_public_def)+
  show ?thesis
  proof
    show "nvs V w i = None" by (rule n2)
    show "nvs V w' = (nvs V w)(i \<mapsto> (fresh_entry (Some a) (pin_slot_public i dig))
        \<lparr>e_data := Some (to_bytes (pin_data_new 0 (max_attempts (policy m))))\<rparr>)"
      using write_initial_slot_Ok [OF S i] n2 by (simp add: fresh_entry_def pin_slot_public_def)
    show "provisioned m i a ((fresh_entry (Some a) (pin_slot_public i dig))
        \<lparr>e_data := Some (to_bytes (pin_data_new 0 (max_attempts (policy m))))\<rparr>)"
      by (auto simp: provisioned_def fresh_entry_def)
  qed
qed

section \<open>A completed setup\<close>

lemma then_clear_Ok: "tss_sound T V \<Longrightarrow> then_clear T m w = (Ok x, w') \<Longrightarrow>
    \<exists>w1. m w = (Ok x, w1) \<and> nvs V w' = nvs V w1"
  using then_clear_D by metis

lemma write_existing_Ok:
  assumes S: "tss_sound T V" and run: "write_pin_version_tag_existing T j v w = (Ok (), w')"
    and size: "\<And>e. nvs V w j = Some e \<Longrightarrow> data_area_size (e_public e) = PIN_VERSION_TAG_SIZE"
  shows "\<exists>e. nvs V w' j = Some e \<and> e_data e = Some [v]"
proof -
  define wr where "wr = andThen (tr_from_tpm_public T j) (\<lambda>handle.
        andThen (checked (max_nv_buffer_check T [v]) [v]) (\<lambda>payload.
        nv_write T AuthOwner handle payload 0))"
  from run have "then_clear T (with_nullauth T wr) w = (Ok (), w')"
    by (simp only: write_pin_version_tag_existing_def liftTss_Ok wr_def)
  from then_clear_Ok [OF S this] obtain w3 where
      3: "with_nullauth T wr w = (Ok (), w3)" "nvs V w' = nvs V w3"
    by blast
  from 3(1) obtain w1 w2 where n: "nvs V w1 = nvs V w" "nvs V w3 = nvs V w2" and r: "wr w1 = (Ok (), w2)"
    by (elim with_nullauth_Ok [OF S]) simp
  from write_fresh_D(2) [OF S r [unfolded wr_def] refl] obtain e d' where
      e: "nvs V w1 j = Some e" "nvs V w2 = (nvs V w1)(j \<mapsto> e\<lparr>e_data := Some d'\<rparr>)"
      "length d' = data_area_size (e_public e)" "take (length [v]) d' = [v]"
    by blast
  then have "length d' = 1" using size n(1) by (simp add: PIN_VERSION_TAG_SIZE_def)
  then have "d' = [v]" using e(4) by (cases d') auto
  then show ?thesis using e(2) n(2) 3(2) by simp
qed

lemma define_tag_size:
  assumes S: "tss_sound T V" and run: "define_pin_version_tag T j w = (Ok (), w')"
  shows "\<exists>e. nvs V w' j = Some e \<and> data_area_size (e_public e) = PIN_VERSION_TAG_SIZE"
proof -
  from run obtain w1 where 1: "with_nullauth T
       (andThen (checked (attributes_check T version_tag_attributes) version_tag_attributes) (\<lambda>_.
        andThen (checked (nv_public_check T (version_tag_public j)) (version_tag_public j)) (\<lambda>pub.
        andThen (nv_define_space T None pub) (\<lambda>_. ok ())))) w = (Ok (), w1)" "nvs V w' = nvs V w1"
    unfolding define_pin_version_tag_def
    by (auto elim!: andThenE dest!: clear_sessions_D [OF S] simp: run_simps liftTss_Ok)
  from 1(1) obtain w2 w3 where "nv_define_space T None (version_tag_public j) w2 = (Ok (), w3)"
      "nvs V w1 = nvs V w3"
    by (elim with_nullauth_Ok [OF S])
      (auto elim!: andThenE simp: run_simps checked_def split: option.splits)
  from nv_define_D(2) [OF S this(1)] this(2) 1(2) show ?thesis
    by (simp add: version_tag_public_def fresh_entry_def)
qed

lemma write_pin_version_tag_Ok:
  assumes S: "tss_sound T V" and run: "write_pin_version_tag T uid v w = (Ok (), w')"
    and wf: "wf_uid T uid (nvs V w)"
  obtains j e where "version_nv_index_for_uid T uid = Ok j" "nvs V w' j = Some e" "e_data e = Some [v]"
proof -
  from run obtain j where j: "version_nv_index_for_uid T uid = Ok j"
    unfolding write_pin_version_tag_def
    by (cases "version_nv_index_for_uid T uid") (auto simp: andThen_def pure_def)
  from run j consider (first) "write_pin_version_tag_existing T j v w = (Ok (), w')"
    | (second) w1 w2 where "define_pin_version_tag T j w1 = (Ok (), w2)"
        "write_pin_version_tag_existing T j v w2 = (Ok (), w')"
    unfolding write_pin_version_tag_def
    by (auto elim!: andThenE matchResE simp: run_simps split: pin_error.splits)
  then have "\<exists>e. nvs V w' j = Some e \<and> e_data e = Some [v]"
  proof cases
    case first
    show ?thesis
      by (rule write_existing_Ok [OF S first])
        (use wf_uid_tag [OF wf j] in \<open>auto simp: tag_entry_ok_def\<close>)
  next
    case second
    show ?thesis
      by (rule write_existing_Ok [OF S second(2)]) (use define_tag_size [OF S second(1)] in auto)
  qed
  then show ?thesis using that j by blast
qed

lemma setup_pin_Ok:
  assumes S: "tss_sound T V" and run: "setup_pin T m uid pin w = (Ok (), w')"
    and wf: "wf_uid T uid (nvs V w)"
  obtains i j e t where "nv_index_for_uid T uid = Ok i" "version_nv_index_for_uid T uid = Ok j"
    "nvs V w i = None" "nvs V w' i = Some e" "provisioned m i (pin_as_bytes pin) e"
    "nvs V w' j = Some t" "e_data t = Some [PIN_VERSION_CURRENT]"
proof -
  from run obtain i where i: "nv_index_for_uid T uid = Ok i"
    unfolding setup_pin_def
    by (cases "nv_index_for_uid T uid") (auto simp: andThen_def pure_def)
  from run i obtain w1 w2 w3 where
      r: "read_pin_slot_owner T i w = (Ok None, w1)"
    and d: "define_pin_slot T m i (pin_as_bytes pin) w1 = (Ok (), w2)"
    and n: "restart_context T m w2 = (Ok (), w3)"
    and t: "write_pin_version_tag T uid PIN_VERSION_CURRENT w3 = (Ok (), w')"
    unfolding setup_pin_def
    by (auto elim!: andThenE matchResE simp: run_simps split: if_splits)
  have n1: "nvs V w1 = nvs V w" and n3: "nvs V w3 = nvs V w2"
    using evolvesD [OF read_pin_slot_owner_keeps [OF S] r] restart_context_D [OF S n] by simp_all
  obtain e where e: "nvs V w1 i = None" "nvs V w2 = (nvs V w1)(i \<mapsto> e)"
      "provisioned m i (pin_as_bytes pin) e"
    using define_pin_slot_Ok [OF S d] .
  have "wf_uid T uid (nvs V w3)"
    using evolvesD [OF define_pin_slot_step [OF S i] d] wf n1 n3 by (simp add: uid_step_def)
  then obtain j t' where "version_nv_index_for_uid T uid = Ok j" "nvs V w' j = Some t'"
      "e_data t' = Some [PIN_VERSION_CURRENT]"
    using write_pin_version_tag_Ok [OF S t] by metis
  moreover have "nvs V w' i = Some e"
    using tag_operations_slot(2) [OF S i t] e(2) n3 by simp
  ultimately show ?thesis using that i e n1 by metis
qed

text \<open>An existing slot, written or not, is out of setup's reach, whatever fails on the way.\<close>

lemma define_pin_slot_existing:
  assumes S: "tss_sound T V" and e: "nvs V w i \<noteq> None" and run: "define_pin_slot T m i a w = (r, w')"
  shows "r \<noteq> Ok ()" and "nvs V w' = nvs V w"
proof -
  have space: "nvs V w2 = nvs V w1 \<and> r1 \<noteq> Ok ()"
    if "with_nullauth T (andThen (nv_define_space T (Some b) (pin_slot_public i dig)) (\<lambda>_. ok ())) w1 = (r1, w2)"
      "nvs V w1 = nvs V w" for b dig w1 r1 w2
  proof -
    have "wp (with_nullauth T (andThen (nv_define_space T (Some b) (pin_slot_public i dig)) (\<lambda>_. ok ())))
        (\<lambda>r w'. nvs V w' = nvs V w1 \<and> r \<noteq> Ok ()) w1"
    proof (rule wp_with_nullauth [OF S])
      fix w3 assume n: "nvs V w3 = nvs V w1"
      obtain r4 w4 where 4: "nv_define_space T (Some b) (pin_slot_public i dig) w3 = (r4, w4)" by fastforce
      have "nvs V w4 = nvs V w1" "r4 \<noteq> Ok ()"
        using nv_define_D [OF S 4] n e that(2) by (auto simp: pin_slot_public_def)
      then show "wp (andThen (nv_define_space T (Some b) (pin_slot_public i dig)) (\<lambda>_. ok ()))
          (\<lambda>r w2. (nvs V w2 = nvs V w1 \<and> r \<noteq> Ok ()) \<and>
             (\<forall>r'. plain T r' \<longrightarrow> nvs V w2 = nvs V w1 \<and> r' \<noteq> Ok ())) w3"
        using 4 by (cases r4) (auto simp: wp_def andThen_def)
    qed auto
    then show ?thesis using that(1) by (auto dest: wpD)
  qed
  have template: "nvs V w2 = nvs V w1" if "pin_slot_template T i w1 = (x, w2)" for w1 w2 x
    using evolvesD [OF pin_slot_template_keeps [OF S] that] by simp
  have lift: "liftTss T m v = (case m v of (Ok x, u) \<Rightarrow> (Ok x, u) | (Err x, u) \<Rightarrow> (Err (from_tss T x), u)
      | (Panic x, u) \<Rightarrow> (Panic x, u))" for m :: "('a, 'x, tss_error) eff" and v
    by (simp add: mapErr_def matchRes_def ok_def err_def split: prod.splits res.splits)
  obtain r1 w1 where 1: "pin_slot_template T i w = (r1, w1)" by fastforce
  have "r \<noteq> Ok () \<and> nvs V w' = nvs V w"
  proof (cases "auth_check T a = None \<and> (\<exists>x. r1 = Ok x)")
    case True
    then obtain pub dig where x: "r1 = Ok (pub, dig)" by auto
    define sp where "sp = with_nullauth T (andThen (nv_define_space T (Some a) pub) (\<lambda>_. ok ()))"
    obtain r2 w2 where 2: "sp w1 = (r2, w2)" by fastforce
    have n: "nvs V w2 = nvs V w" "r2 \<noteq> Ok ()"
      using space [of a dig w1 r2 w2] 2 template [OF 1] pin_slot_template_pub [OF 1 [unfolded x]]
      by (simp_all add: sp_def)
    have "define_pin_slot T m i a w = (case r2 of Ok _ \<Rightarrow> define_pin_slot T m i a w
        | Err e \<Rightarrow> (Err (from_tss T e), w2) | Panic s \<Rightarrow> (Panic s, w2))"
      using 1 x 2 True unfolding define_pin_slot_def sp_def [symmetric]
      by (cases r2) (simp_all add: andThen_def checked_def lift ok_def sp_def)
    then show ?thesis using run n by (cases r2) auto
  next
    case False
    then show ?thesis
      using run 1 template [OF 1] unfolding define_pin_slot_def
      by (cases "auth_check T a"; cases r1) (auto simp: andThen_def checked_def lift ok_def err_def)
  qed
  then show "r \<noteq> Ok ()" "nvs V w' = nvs V w" by simp_all
qed

lemma setup_pin_existing:
  assumes S: "tss_sound T V" and i: "nv_index_for_uid T uid = Ok i"
    and e: "nvs V w i \<noteq> None" and run: "setup_pin T m uid pin w = (r, w')"
  shows "r \<noteq> Ok ()" and "nvs V w' = nvs V w"
proof -
  obtain r1 w1 where 1: "read_pin_slot_owner T i w = (r1, w1)" by fastforce
  have n1: "nvs V w1 = nvs V w"
    using evolvesD [OF read_pin_slot_owner_keeps [OF S] 1] by simp
  obtain r2 w2 where 2: "define_pin_slot T m i (pin_as_bytes pin) w1 = (r2, w2)" by fastforce
  have n2: "r2 \<noteq> Ok ()" "nvs V w2 = nvs V w"
    using define_pin_slot_existing [OF S _ 2] e n1 by simp_all
  have "r \<noteq> Ok () \<and> nvs V w' = nvs V w"
    using run i 1 2 n1 n2 unfolding setup_pin_def
    by (cases r2) (auto simp: run_simps elim!: andThenE split: if_splits)
  then show "r \<noteq> Ok ()" "nvs V w' = nvs V w" by simp_all
qed

section \<open>Verification\<close>

text \<open>The bytes of a user's version tag, and what a PIN is compared as.\<close>

definition tag_of :: "('w, 'z) tss_scheme \<Rightarrow> u32 \<Rightarrow> nv_map \<Rightarrow> byte list option" where
  "tag_of T uid N =
     (case version_nv_index_for_uid T uid of Ok j \<Rightarrow> Option.bind (N j) e_data | _ \<Rightarrow> None)"

definition compared_pin :: "('w, 'z) tss_scheme \<Rightarrow> u32 \<Rightarrow> nv_map \<Rightarrow> pin \<Rightarrow> byte list" where
  "compared_pin T uid N pin =
     (if tag_of T uid N = None then as_bytes (normalize_legacy_pin pin) else pin_as_bytes pin)"

lemma read_tag_of:
  assumes S: "tss_sound T V" and run: "read_pin_version_tag T uid w = (Ok t, w')"
  shows "tag_of T uid (nvs V w) = (case t of None \<Rightarrow> None | Some v \<Rightarrow> Some [v])"
proof -
  obtain j where j: "version_nv_index_for_uid T uid = Ok j"
    using run by (cases "version_nv_index_for_uid T uid")
      (auto simp: read_pin_version_tag_def andThen_def pure_def)
  show ?thesis
    using read_pin_version_tag_D [OF S run j] j
    by (cases t) (auto simp: tag_of_def split: bind_splits)
qed

lemma verify_pin_D:
  assumes S: "tss_sound T V" and i: "nv_index_for_uid T uid = Ok i"
    and wf: "wf_uid T uid (nvs V w)" and run: "verify_pin T m uid pin w = (r, w')"
  obtains N1 and r1 :: "(verification_result, pin_error) res" where
    "verify_outcome (compared_pin T uid (nvs V w) pin) i (nvs V w) N1 r1"
    "\<And>v. r = Ok v \<Longrightarrow> r1 = Ok v \<and> tag_of T uid (nvs V w) \<in> {None, Some [PIN_VERSION_CURRENT]}"
    "(\<forall>s. r1 \<noteq> Ok (VerifySuccess s)) \<or> tag_of T uid (nvs V w) \<noteq> None \<Longrightarrow> nvs V w' = N1"
proof -
  let ?N = "nvs V w"
  note none = that [OF verify_outcome_unchanged(2)]
  have pin: "\<And>e. ?N i = Some e \<Longrightarrow> is_pin_entry e"
    using wf_uid_slot [OF wf i] slot_entry_pin by blast
  have exact: "verify_outcome a i ?N (nvs V w2) r2"
    if "nvs V w1 = ?N" "verify_pin_exact T uid a w1 = (r2, w2)" for a w1 r2 w2
    using verify_pin_exact_D [OF S i _ that(2)] that(1) pin by simp
  obtain w0 where w0: "clear_sessions T w = (Ok () :: (unit, pin_error) res, w0)"
    by (auto simp: clear_sessions_def act_def)
  obtain r0 w1 where tag: "read_pin_version_tag T uid w0 = (r0, w1)" by fastforce
  have n: "nvs V w0 = ?N" "nvs V w1 = ?N"
    using clear_sessions_D [OF S w0] evolvesD [OF read_pin_version_tag_keeps [OF S] tag] by simp_all
  note run1 = run [unfolded verify_pin_def, unfolded andThen_Ok [where m = "clear_sessions T" and w = w, OF w0]]
  show ?thesis
  proof (cases r0)
    case (Ok t)
    note t = read_tag_of [OF S tag [unfolded Ok], unfolded n(1)]
    show ?thesis
    proof (cases t)
      case None
      obtain r1 w2 where x: "verify_pin_exact T uid (as_bytes (normalize_legacy_pin pin)) w1 = (r1, w2)"
        by fastforce
      have "(\<forall>v. r = Ok v \<longrightarrow> r1 = Ok v) \<and> ((\<forall>s. r1 \<noteq> Ok (VerifySuccess s)) \<longrightarrow> w' = w2)"
        using run1 [unfolded andThen_Ok [where m = "read_pin_version_tag T uid" and w = w0, OF tag [unfolded Ok None]] option.case] x
        by (auto elim!: andThenE matchResE simp: run_simps is_success_def
            split: if_splits verification_result.splits)
      moreover have "verify_outcome (compared_pin T uid (nvs V w) pin) i ?N (nvs V w2) r1"
        using exact [OF n(2) x] t None by (simp add: compared_pin_def)
      ultimately show ?thesis using that [of "nvs V w2" r1] t None by auto
    next
      case (Some v)
      show ?thesis
      proof (cases "v = PIN_VERSION_CURRENT")
        case True
        then have "verify_pin_exact T uid (pin_as_bytes pin) w1 = (r, w')"
          using run1 [unfolded andThen_Ok [where m = "read_pin_version_tag T uid" and w = w0, OF tag [unfolded Ok Some]] option.case]
          by (simp_all add: run_simps)
        from exact [OF n(2) this] t Some True show ?thesis
          using that [of "nvs V w'" r] by (auto simp: compared_pin_def)
      next
        case False
        then have "(\<forall>x. r \<noteq> Ok x) \<and> w' = w1"
          using run1 [unfolded andThen_Ok [where m = "read_pin_version_tag T uid" and w = w0, OF tag [unfolded Ok Some]] option.case]
          by (simp_all add: run_simps)
        then show ?thesis using none [of "[]"] n by auto
      qed
    qed
  next
    case (Err e)
    then have "(\<forall>x. r \<noteq> Ok x) \<and> w' = w1"
      using run1 tag by (auto simp: andThen_def)
    then show ?thesis using none [of "[]"] n by auto
  next
    case (Panic e)
    then have "(\<forall>x. r \<noteq> Ok x) \<and> w' = w1"
      using run1 tag by (auto simp: andThen_def)
    then show ?thesis using none [of "[]"] n by auto
  qed
qed

section \<open>Safety\<close>

text \<open>C7: A successful verification is never a false one: the TPM compared the bytes of the entered
  PIN (of its normalised form when there is no version tag) with the stored value on a slot below its limit,
  found them equal and cleared the counter; a tag, when there is one, is the current version.\<close>
theorem verify_success_sound:
  assumes "tss_sound T V" and "wf_uid T uid (nvs V w)"
    and "verify_pin T m uid pin w = (Ok (VerifySuccess s), w')"
  shows "\<exists>i e s0. nv_index_for_uid T uid = Ok i \<and> nvs V w i = Some e \<and> entry_pin e = Some s0 \<and>
    pin_open s0 \<and> auth_eq (e_auth e) (compared_pin T uid (nvs V w) pin) \<and>
    s = s0\<lparr>pinCount := 0\<rparr> \<and> \<not> slot_locked s \<and>
    tag_of T uid (nvs V w) \<in> {None, Some [PIN_VERSION_CURRENT]} \<and>
    (tag_of T uid (nvs V w) \<noteq> None \<longrightarrow> nvs V w' = (nvs V w)(i \<mapsto> set_pin s e))"
proof (cases "nv_index_for_uid T uid")
  case (Ok i)
  obtain N1 and r1 :: "(verification_result, pin_error) res" where
      o: "verify_outcome (compared_pin T uid (nvs V w) pin) i (nvs V w) N1 r1"
      and r: "r1 = Ok (VerifySuccess s)" "tag_of T uid (nvs V w) \<in> {None, Some [PIN_VERSION_CURRENT]}"
      and n: "tag_of T uid (nvs V w) \<noteq> None \<Longrightarrow> nvs V w' = N1"
    using verify_pin_D [OF assms(1) Ok assms(2,3)] by metis
  from o r(1) have s: "pin_accept (compared_pin T uid (nvs V w) pin) i (nvs V w) N1"
      "\<exists>e. N1 i = Some e \<and> entry_pin e = Some s" "\<not> slot_locked s"
    by (auto simp only: verify_outcome_def)
  from s(1) obtain e s0 where e: "nvs V w i = Some e" "entry_pin e = Some s0" "pin_open s0"
      "auth_eq (e_auth e) (compared_pin T uid (nvs V w) pin)"
      and N1: "N1 = (nvs V w)(i \<mapsto> set_pin (s0\<lparr>pinCount := 0\<rparr>) e)"
    unfolding pin_accept_def by blast
  have "s = s0\<lparr>pinCount := 0\<rparr>"
    using s(2) N1 by (auto simp: entry_pin_def set_pin_def)
  then show ?thesis using Ok r(2) n e N1 s(3) by blast
next
  case (Err x)
  have "verify_pin_exact T uid a w1 = (Err x, w1)" for a w1
    using Err by (simp add: verify_pin_exact_def andThen_def pure_def)
  then show ?thesis
    using assms(3) by (auto simp: verify_pin_def run_simps elim!: andThenE split: option.splits if_splits)
next
  case (Panic x)
  have "verify_pin_exact T uid a w1 = (Panic x, w1)" for a w1
    using Panic by (simp add: verify_pin_exact_def andThen_def pure_def)
  then show ?thesis
    using assms(3) by (auto simp: verify_pin_def run_simps elim!: andThenE split: option.splits if_splits)
qed

text \<open>C25: A setup that reports success has provisioned the user: the slot was free, and it now holds
  the PIN's bytes as its authorisation value, a zero counter and the policy's limit, with the current version tag.\<close>
theorem setup_success_provisions:
  assumes "tss_sound T V" and "wf_uid T uid (nvs V w)" and "setup_pin T m uid pin w = (Ok (), w')"
  shows "\<exists>i j e t. nv_index_for_uid T uid = Ok i \<and> version_nv_index_for_uid T uid = Ok j \<and>
    nvs V w i = None \<and> nvs V w' i = Some e \<and> e_auth e = pin_as_bytes pin \<and>
    entry_pin e = Some (pin_data_new 0 (max_attempts (policy m))) \<and>
    nvs V w' j = Some t \<and> e_data t = Some [PIN_VERSION_CURRENT] \<and>
    wf_uid T uid (nvs V w')"
proof -
  have "wf_uid T uid (nvs V w')"
    using evolvesD [OF setup_pin_step [OF assms(1)] assms(3)] assms(2) by (simp add: uid_step_def)
  then show ?thesis
    by (rule_tac setup_pin_Ok [OF assms(1,3,2)]) (auto simp: provisioned_def entry_pin_def)
qed

text \<open>C29: Setting up never touches an existing slot, written or not, whatever fails on the way.\<close>
theorem setup_never_overwrites:
  assumes "tss_sound T V" and "nv_index_for_uid T uid = Ok i" and "nvs V w i \<noteq> None"
    and "setup_pin T m uid pin w = (r, w')"
  shows "r \<noteq> Ok () \<and> nvs V w' = nvs V w"
  using setup_pin_existing [OF assms] by simp

text \<open>An administrative deletion that reports success removed an existing slot and touched only
  the user's two indices.\<close>
lemma delete_admin_removes:
  assumes "tss_sound T V" and "wf_uid T uid (nvs V w)" and "delete_pin_admin T uid w = (Ok (), w')"
  shows "\<exists>i. nv_index_for_uid T uid = Ok i \<and> nvs V w i \<noteq> None \<and> nvs V w' i = None \<and>
    (\<forall>k. \<not> owns T uid k \<longrightarrow> nvs V w' k = nvs V w k)"
proof -
  obtain i where i: "nv_index_for_uid T uid = Ok i"
    using assms(3) by (cases "nv_index_for_uid T uid") (auto simp: delete_pin_admin_def andThen_def pure_def)
  show ?thesis
    using i delete_pin_admin_Ok [OF assms(1) i assms(3)]
      evolvesD [OF delete_pin_admin_step [OF assms(1)] assms(3)] assms(2)
    by (auto simp: uid_step_def)
qed

end
