(* ===== verification/AttemptGuard.thy ===== *)
theory AttemptGuard imports Main begin

text \<open>
  The contract of a guard that limits guessing: what a list of guesses can achieve against it.
  A guess is accepted only when it is right and attempts are left; while no guess is right, or no
  attempt is left, the guard stays armed.  A metered guard also charges every wrong guess and
  accepts the right one, among the guesses it takes (\<open>admissible\<close>).
\<close>

fun run_attempts :: "('g \<Rightarrow> 'w \<Rightarrow> bool \<times> 'w) \<Rightarrow> 'g list \<Rightarrow> 'w \<Rightarrow> bool list \<times> 'w" where
  "run_attempts attempt [] w = ([], w)"
| "run_attempts attempt (g # gs) w =
     (case attempt g w of (b, w1) \<Rightarrow>
       (case run_attempts attempt gs w1 of (bs, w2) \<Rightarrow> (b # bs, w2)))"

locale attempt_guard =
  fixes attempt :: "'g \<Rightarrow> 'w \<Rightarrow> bool \<times> 'w"
    and armed :: "'w \<Rightarrow> bool" and budget :: "'w \<Rightarrow> nat" and right :: "'w \<Rightarrow> 'g \<Rightarrow> bool"
  assumes accepted: "armed w \<Longrightarrow> attempt g w = (True, w') \<Longrightarrow> right w g \<and> 0 < budget w"
    and stays: "armed w \<Longrightarrow> \<not> right w g \<or> budget w = 0 \<Longrightarrow> attempt g w = (b, w') \<Longrightarrow>
      armed w' \<and> budget w' \<le> budget w \<and> right w' = right w"
begin

lemma wrong_refused:
  "armed w \<Longrightarrow> \<not> right w g \<or> budget w = 0 \<Longrightarrow> attempt g w = (b, w') \<Longrightarrow> \<not> b"
  using accepted [of w g w'] by (cases b) auto

lemma wrong_guesses:
  assumes "armed w" "\<forall>g \<in> set gs. \<not> right w g" "run_attempts attempt gs w = (bs, w')"
  shows "True \<notin> set bs \<and> armed w' \<and> budget w' \<le> budget w \<and> right w' = right w"
  using assms
proof (induction gs arbitrary: w bs)
  case (Cons g gs)
  obtain b w1 where a: "attempt g w = (b, w1)" by fastforce
  obtain cs where r: "run_attempts attempt gs w1 = (cs, w')" "bs = b # cs"
    using Cons.prems(3) a by (auto split: prod.splits)
  from a Cons.prems have s: "armed w1 \<and> budget w1 \<le> budget w \<and> right w1 = right w" "\<not> b"
    using stays [OF _ _ a] wrong_refused [OF _ _ a] by auto
  with Cons.IH [OF _ _ r(1)] Cons.prems(2) r(2) show ?case by auto
qed simp

lemma locked_forever:
  assumes "armed w" "budget w = 0" "run_attempts attempt gs w = (bs, w')"
  shows "True \<notin> set bs \<and> armed w' \<and> budget w' = 0"
  using assms
proof (induction gs arbitrary: w bs)
  case (Cons g gs)
  obtain b w1 where a: "attempt g w = (b, w1)" by fastforce
  obtain cs where r: "run_attempts attempt gs w1 = (cs, w')" "bs = b # cs"
    using Cons.prems(3) a by (auto split: prod.splits)
  from a Cons.prems have "armed w1 \<and> budget w1 = 0" "\<not> b"
    using stays [OF _ _ a] wrong_refused [OF _ _ a] by auto
  with Cons.IH [OF _ _ r(1)] r(2) show ?case by auto
qed simp

end

locale metered_guard = attempt_guard +
  fixes admissible :: "'g \<Rightarrow> bool"
  assumes charged: "armed w \<Longrightarrow> \<not> right w g \<Longrightarrow> admissible g \<Longrightarrow> attempt g w = (b, w') \<Longrightarrow>
      budget w' = budget w - 1"
    and right_accepted: "armed w \<Longrightarrow> right w g \<Longrightarrow> admissible g \<Longrightarrow> 0 < budget w \<Longrightarrow>
      \<exists>w'. attempt g w = (True, w')"
begin

lemma budget_after:
  assumes "armed w" "\<forall>g \<in> set gs. \<not> right w g \<and> admissible g" "run_attempts attempt gs w = (bs, w')"
  shows "budget w' = budget w - length gs"
  using assms
proof (induction gs arbitrary: w bs)
  case (Cons g gs)
  obtain b w1 where a: "attempt g w = (b, w1)" by fastforce
  obtain cs where r: "run_attempts attempt gs w1 = (cs, w')"
    using Cons.prems(3) a by (auto split: prod.splits)
  from a Cons.prems have "armed w1 \<and> budget w1 = budget w - 1 \<and> right w1 = right w"
    using stays [OF _ _ a] charged [OF _ _ _ a] by auto
  with Cons.IH [OF _ _ r] Cons.prems(2) show ?case by auto
qed simp

text \<open>As many wrong guesses as there are attempts, and nothing is accepted any more.\<close>

lemma exhausted:
  assumes "armed w" "\<forall>g \<in> set gs. \<not> right w g \<and> admissible g" "budget w \<le> length gs"
    and "run_attempts attempt gs w = (bs, w')" "attempt g w' = (b, w'')"
  shows "\<not> b"
  using budget_after [OF assms(1,2,4)] wrong_guesses [OF assms(1) _ assms(4)] assms(2,3,5)
    wrong_refused [of w' g b w''] by auto

text \<open>Fewer wrong guesses than attempts do not shut the right one out.\<close>

lemma still_open:
  assumes "armed w" "\<forall>g \<in> set gs. \<not> right w g \<and> admissible g" "length gs < budget w"
    and "run_attempts attempt gs w = (bs, w')" "right w g" "admissible g"
  shows "\<exists>w''. attempt g w' = (True, w'')"
  using budget_after [OF assms(1,2,4)] wrong_guesses [OF assms(1) _ assms(4)] assms(2,3,5,6)
    right_accepted [of w' g] by auto

end

end
