(* ===== verification/Lockout.thy ===== *)
theory Lockout imports ManagerSafety AttemptGuard begin

text \<open>
  Guessing PINs: what any list of guesses can achieve against \<open>verify_pin\<close>, as an instance of
  the attempt-guard contract, on every sound TPM.
\<close>

section \<open>Observations\<close>

definition slot_of :: "('w, 'z) tss_scheme \<Rightarrow> u32 \<Rightarrow> nv_map \<Rightarrow> nv_entry option" where
  "slot_of T uid N = (case nv_index_for_uid T uid of Ok i \<Rightarrow> N i | _ \<Rightarrow> None)"

definition counters_of :: "('w, 'z) tss_scheme \<Rightarrow> u32 \<Rightarrow> nv_map \<Rightarrow> pin_data option" where
  "counters_of T uid N = Option.bind (slot_of T uid N) entry_pin"

definition attempts_left :: "('w, 'z) tss_scheme \<Rightarrow> u32 \<Rightarrow> nv_map \<Rightarrow> nat" where
  "attempts_left T uid N =
     (case counters_of T uid N of
        None \<Rightarrow> 0
      | Some s \<Rightarrow> unat (pinLimit s) - unat (pinCount s))"

definition pin_matches :: "('w, 'z) tss_scheme \<Rightarrow> u32 \<Rightarrow> nv_map \<Rightarrow> pin \<Rightarrow> bool" where
  "pin_matches T uid N pin \<longleftrightarrow>
     (case slot_of T uid N of
        None \<Rightarrow> False
      | Some e \<Rightarrow> auth_eq (e_auth e) (compared_pin T uid N pin))"

definition verify_attempt ::
  "('w, 'z) tss_scheme \<Rightarrow> pin_manager \<Rightarrow> u32 \<Rightarrow> pin \<Rightarrow> 'w \<Rightarrow> bool \<times> 'w"
where
  "verify_attempt T m uid pin w =
     (case verify_pin T m uid pin w of
        (Ok (VerifySuccess s), w') \<Rightarrow> (True, w')
      | (r, w') \<Rightarrow> (False, w'))"

lemma verify_attempt_iff:
  "verify_attempt T m uid pin w = (b, w') \<longleftrightarrow>
     (\<exists>r. verify_pin T m uid pin w = (r, w') \<and> b = (\<exists>s. r = Ok (VerifySuccess s)))"
  by (auto simp: verify_attempt_def split: prod.splits res.splits verification_result.splits)

lemma pin_open_nat: "pin_open s \<longleftrightarrow> 0 < unat (pinLimit s) - unat (pinCount s)"
  by (auto simp: pin_open_def word_less_nat_alt)

lemma unat_succ_below: "(x :: u32) < y \<Longrightarrow> unat (x + 1) = unat x + 1"
  using unat_add32 [of x 1] unat_lt32 [of y] by (simp add: word_less_nat_alt)

lemma entry_pin_set_pin [simp]: "entry_pin (set_pin s e) = Some s"
  by (simp add: entry_pin_def set_pin_def)

lemma set_pin_sel [simp]:
  "e_auth (set_pin s e) = e_auth e" "e_public (set_pin s e) = e_public e"
  by (simp_all add: set_pin_def)

text \<open>Using a slot's authorisation changes neither the tag nor the stored PIN.\<close>

lemma tag_of_slot_upd:
  "nv_index_for_uid T uid = Ok i \<Longrightarrow> tag_of T uid (N(i := x)) = tag_of T uid N"
  using layout.tag_slot [of T uid _ uid i] by (auto simp: tag_of_def split: res.splits)

lemma pin_reject_effect:
  assumes i: "nv_index_for_uid T uid = Ok i" and r: "pin_reject a i N N'"
  shows "attempts_left T uid N' = attempts_left T uid N - 1" "0 < attempts_left T uid N"
    "pin_matches T uid N' = pin_matches T uid N" "tag_of T uid N' = tag_of T uid N"
    "map_option pinLimit (counters_of T uid N') = map_option pinLimit (counters_of T uid N)"
proof -
  from r obtain e s where e: "N i = Some e" "entry_pin e = Some s" "pin_open s"
      "N' = N(i \<mapsto> set_pin (s\<lparr>pinCount := pinCount s + 1\<rparr>) e)"
    by (auto simp: pin_reject_def)
  then have u: "unat (pinCount s + 1) = unat (pinCount s) + 1"
    by (metis pin_open_def unat_succ_below)
  show "attempts_left T uid N' = attempts_left T uid N - 1" "0 < attempts_left T uid N"
    using e i u pin_open_nat [of s] by (simp_all add: attempts_left_def counters_of_def slot_of_def)
  show "map_option pinLimit (counters_of T uid N') = map_option pinLimit (counters_of T uid N)"
    using e i by (simp add: counters_of_def slot_of_def)
  show "tag_of T uid N' = tag_of T uid N"
    using e i tag_of_slot_upd by metis
  then show "pin_matches T uid N' = pin_matches T uid N"
    using e i by (auto simp: pin_matches_def slot_of_def compared_pin_def)
qed

lemma pin_accept_effect:
  assumes i: "nv_index_for_uid T uid = Ok i"
    and r: "pin_accept (compared_pin T uid N pin) i N N'"
  shows "0 < attempts_left T uid N" "pin_matches T uid N pin"
    "counters_of T uid N = Some s \<Longrightarrow> counters_of T uid N' = Some (s\<lparr>pinCount := 0\<rparr>)"
  using assms by (auto simp: pin_accept_def attempts_left_def counters_of_def slot_of_def
      pin_matches_def pin_open_nat)

section \<open>The guard\<close>

definition guarded :: "('w, 'z) tss_scheme \<Rightarrow> ('w, 'v) view_scheme \<Rightarrow> u32 \<Rightarrow> 'w \<Rightarrow> bool" where
  "guarded T V uid w \<longleftrightarrow>
     tss_sound T V \<and> wf_uid T uid (nvs V w) \<and> (\<exists>i. nv_index_for_uid T uid = Ok i)"

lemma wrong_attempt:
  assumes g: "guarded T V uid w"
    and bad: "\<not> pin_matches T uid (nvs V w) pin \<or> attempts_left T uid (nvs V w) = 0"
    and run: "verify_pin T m uid pin w = (r, w')"
  shows "guarded T V uid w'"
    and "nvs V w' = nvs V w \<or> (\<exists>a i. nv_index_for_uid T uid = Ok i \<and> pin_reject a i (nvs V w) (nvs V w'))"
proof -
  from g obtain i where S: "tss_sound T V" and wf: "wf_uid T uid (nvs V w)"
      and i: "nv_index_for_uid T uid = Ok i"
    by (auto simp: guarded_def)
  have "wf_uid T uid (nvs V w')"
    using evolvesD [OF verify_pin_step [OF S] run] wf by (simp add: uid_step_def)
  then show "guarded T V uid w'" using S i by (simp add: guarded_def)
  obtain N1 and r1 :: "(verification_result, pin_error) res" where
      o: "verify_outcome (compared_pin T uid (nvs V w) pin) i (nvs V w) N1 r1"
      and n: "(\<forall>s. r1 \<noteq> Ok (VerifySuccess s)) \<Longrightarrow> nvs V w' = N1"
    using verify_pin_D [OF S i wf run] by metis
  from o bad pin_accept_effect [OF i, of "nvs V w" pin N1]
  have "nvs V w' = N1" "N1 = nvs V w \<or> pin_reject (compared_pin T uid (nvs V w) pin) i (nvs V w) N1"
    using n by (auto simp: verify_outcome_def)
  then show "nvs V w' = nvs V w \<or> (\<exists>a i. nv_index_for_uid T uid = Ok i \<and> pin_reject a i (nvs V w) (nvs V w'))"
    using i by auto
qed

interpretation guard: attempt_guard "verify_attempt T m uid" "guarded T V uid"
  "\<lambda>w. attempts_left T uid (nvs V w)" "\<lambda>w. pin_matches T uid (nvs V w)" for T V m uid
proof
  fix w pin w'
  assume g: "guarded T V uid w" and a: "verify_attempt T m uid pin w = (True, w')"
  then obtain i s where S: "tss_sound T V" and wf: "wf_uid T uid (nvs V w)"
      and i: "nv_index_for_uid T uid = Ok i"
      and r: "verify_pin T m uid pin w = (Ok (VerifySuccess s), w')"
    by (auto simp: guarded_def verify_attempt_iff)
  obtain N1 and r1 :: "(verification_result, pin_error) res" where
      "verify_outcome (compared_pin T uid (nvs V w) pin) i (nvs V w) N1 r1"
      "r1 = Ok (VerifySuccess s)"
    using verify_pin_D [OF S i wf r] by metis
  then have "pin_accept (compared_pin T uid (nvs V w) pin) i (nvs V w) N1"
    by (simp add: verify_outcome_def)
  then show "pin_matches T uid (nvs V w) pin \<and> 0 < attempts_left T uid (nvs V w)"
    using pin_accept_effect [OF i] by blast
next
  fix w pin b w'
  assume g: "guarded T V uid w"
    and bad: "\<not> pin_matches T uid (nvs V w) pin \<or> attempts_left T uid (nvs V w) = 0"
    and a: "verify_attempt T m uid pin w = (b, w')"
  then obtain r where r: "verify_pin T m uid pin w = (r, w')" by (auto simp: verify_attempt_iff)
  from wrong_attempt [OF g bad r]
  show "guarded T V uid w' \<and> attempts_left T uid (nvs V w') \<le> attempts_left T uid (nvs V w) \<and>
      pin_matches T uid (nvs V w') = pin_matches T uid (nvs V w)"
    using pin_reject_effect by fastforce
qed

end
