(* ===== verification/History.thy ===== *)
theory History imports Lockout begin

text \<open>
  Sequences of operations of the PIN manager, by any users and in any order, on a TPM that may
  fail at any call: what every reachable state satisfies, and what no history can undo.
\<close>

section \<open>Histories\<close>

datatype operation =
  OpSetup u32 pin
| OpVerify u32 pin
| OpDeleteAuth u32 pin
| OpDeleteAdmin u32
| OpStatus u32
| OpRestart

fun exec_op :: "('w, 'z) tss_scheme \<Rightarrow> pin_manager \<Rightarrow> operation \<Rightarrow> 'w \<Rightarrow> 'w" where
  "exec_op T m (OpSetup uid pin) w = snd (setup_pin T m uid pin w)"
| "exec_op T m (OpVerify uid pin) w = snd (verify_pin T m uid pin w)"
| "exec_op T m (OpDeleteAuth uid pin) w = snd (delete_pin_with_auth T m uid pin w)"
| "exec_op T m (OpDeleteAdmin uid) w = snd (delete_pin_admin T uid w)"
| "exec_op T m (OpStatus uid) w = snd (get_pin_slot T uid w)"
| "exec_op T m OpRestart w = snd (restart_context T m w)"

inductive reaches ::
  "('w, 'z) tss_scheme \<Rightarrow> pin_manager \<Rightarrow> 'w \<Rightarrow> operation list \<Rightarrow> 'w \<Rightarrow> bool"
  for T m
where
  start: "reaches T m w [] w"
| step: "reaches T m w ops w' \<Longrightarrow> reaches T m w (ops @ [x]) (exec_op T m x w')"

inductive_cases reaches_Nil: "reaches T m w [] w'"
inductive_simps reaches_snoc: "reaches T m w (ops @ [x]) w'"

fun run_ops :: "('w, 'z) tss_scheme \<Rightarrow> pin_manager \<Rightarrow> operation list \<Rightarrow> 'w \<Rightarrow> 'w" where
  "run_ops T m [] w = w"
| "run_ops T m (x # xs) w = run_ops T m xs (exec_op T m x w)"

lemma run_ops_append: "run_ops T m (xs @ ys) w = run_ops T m ys (run_ops T m xs w)"
  by (induction xs arbitrary: w) simp_all

lemma reaches_run: "reaches T m w ops w' \<longleftrightarrow> w' = run_ops T m ops w"
proof
  assume "reaches T m w ops w'"
  then show "w' = run_ops T m ops w"
    by induction (simp_all add: run_ops_append)
next
  have "reaches T m w ops (run_ops T m ops w)"
    by (induction ops rule: rev_induct) (auto simp: run_ops_append intro: reaches.intros)
  then show "w' = run_ops T m ops w \<Longrightarrow> reaches T m w ops w'" by simp
qed

section \<open>The indices stay well formed and private\<close>

text \<open>Any operation moves every user along: the one it is for by a step, the others not at all.\<close>

definition wf_all :: "('w, 'z) tss_scheme \<Rightarrow> nv_map \<Rightarrow> bool" where
  "wf_all T N \<longleftrightarrow> (\<forall>uid. wf_uid T uid N)"

lemma wf_other:
  assumes "uid_step T uid N N'" "wf_uid T uid N" "wf_uid T v N" "v \<noteq> uid"
  shows "wf_uid T v N'"
proof -
  have "N' k = N k" if "owns T v k" for k
    using assms that layout.owner_unique [of T v k uid] by (auto simp: uid_step_def owns_def)
  then show ?thesis using assms(3) by (simp add: wf_uid_def owns_def)
qed

definition global_step :: "('w, 'z) tss_scheme \<Rightarrow> nv_map \<Rightarrow> nv_map \<Rightarrow> bool" where
  "global_step T N N' \<longleftrightarrow>
     (wf_all T N \<longrightarrow> wf_all T N' \<and> (\<forall>k. (\<forall>uid. \<not> owns T uid k) \<longrightarrow> N' k = N k))"

lemma uid_step_global: "uid_step T uid N N' \<Longrightarrow> global_step T N N'"
proof -
  assume s: "uid_step T uid N N'"
  have "wf_uid T v N'" if "wf_all T N" for v
    using s that wf_other [OF s, of v] by (cases "v = uid") (auto simp: wf_all_def uid_step_def)
  then show ?thesis using s by (auto simp: global_step_def wf_all_def uid_step_def)
qed

lemma exec_op_uid_step:
  assumes S: "tss_sound T V"
  shows "uid_step T uid (nvs V w) (nvs V (exec_op T m (OpSetup uid pin) w))"
    and "uid_step T uid (nvs V w) (nvs V (exec_op T m (OpVerify uid pin) w))"
    and "uid_step T uid (nvs V w) (nvs V (exec_op T m (OpDeleteAuth uid pin) w))"
    and "uid_step T uid (nvs V w) (nvs V (exec_op T m (OpDeleteAdmin uid) w))"
    and "nvs V (exec_op T m (OpStatus uid) w) = nvs V w"
    and "nvs V (exec_op T m OpRestart w) = nvs V w"
  using operation_steps [OF S] queries_keep(1) [OF S] restart_context_keeps [OF S]
  by (simp_all add: evolves_def)

lemma exec_op_global:
  assumes S: "tss_sound T V"
  shows "global_step T (nvs V w) (nvs V (exec_op T m x w))"
proof (cases x)
  case (OpStatus uid)
  then show ?thesis using exec_op_uid_step(5) [OF S] by (simp only: global_step_def) simp
next
  case OpRestart
  then show ?thesis using exec_op_uid_step(6) [OF S] by (simp only: global_step_def) simp
qed (use exec_op_uid_step(1-4) [OF S] uid_step_global in blast)+

lemma reaches_global:
  assumes S: "tss_sound T V" and "reaches T m w ops w'"
  shows "global_step T (nvs V w) (nvs V w')"
  using assms(2)
proof induction
  case (step w ops w' x)
  then show ?case using exec_op_global [OF S, of w' m x] by (simp add: global_step_def)
qed (simp add: global_step_def)

text \<open>C28: From well-formed indices, every history of operations, by any users and whatever fails
  in the TPM, ends in well-formed indices and leaves every index of no user alone.\<close>
theorem reachable_indices:
  assumes "tss_sound T V" and "reaches T m w ops w'" and "wf_all T (nvs V w)"
  shows "wf_all T (nvs V w') \<and> (\<forall>k. (\<forall>uid. \<not> owns T uid k) \<longrightarrow> nvs V w' k = nvs V w k)"
  using reaches_global [OF assms(1,2)] assms(3) by (simp add: global_step_def)

section \<open>Other users\<close>

fun op_uid :: "operation \<Rightarrow> u32 option" where
  "op_uid (OpSetup uid _) = Some uid"
| "op_uid (OpVerify uid _) = Some uid"
| "op_uid (OpDeleteAuth uid _) = Some uid"
| "op_uid (OpDeleteAdmin uid) = Some uid"
| "op_uid (OpStatus uid) = Some uid"
| "op_uid OpRestart = None"

lemma exec_op_other:
  assumes S: "tss_sound T V" and wf: "wf_all T (nvs V w)" and x: "op_uid x \<noteq> Some uid" and k: "owns T uid k"
  shows "nvs V (exec_op T m x w) k = nvs V w k"
proof -
  have frame: "N' k = nvs V w k" if "uid_step T v (nvs V w) N'" "v \<noteq> uid" for v N'
    using that wf k layout.owner_unique [of T v k uid] by (auto simp: uid_step_def wf_all_def owns_def)
  note steps = exec_op_uid_step(1-4) [OF S, THEN frame]
  show ?thesis
  proof (cases x)
    case (OpStatus v)
    then show ?thesis using exec_op_uid_step(5) [OF S] by metis
  next
    case OpRestart
    then show ?thesis using exec_op_uid_step(6) [OF S] by metis
  qed (use x steps in simp_all)
qed

text \<open>The operations for other users leave a user's slot and version tag exactly as they are.\<close>
lemma other_users_untouched:
  assumes "tss_sound T V" and "reaches T m w ops w'" and "wf_all T (nvs V w)"
    and "\<forall>x \<in> set ops. op_uid x \<noteq> Some uid" and "owns T uid k"
  shows "nvs V w' k = nvs V w k"
  using assms(2-4)
proof induction
  case (step w ops w' x)
  then have "wf_all T (nvs V w')"
    using reaches_global [OF assms(1) step.hyps] by (simp add: global_step_def)
  then show ?case using step exec_op_other [OF assms(1) _ _ assms(5), of w' x m] by simp
qed simp

section \<open>A locked slot\<close>

lemma exec_op_locked:
  assumes S: "tss_sound T V" and wf: "wf_all T (nvs V w)"
    and e: "slot_of T uid (nvs V w) = Some e" and left: "attempts_left T uid (nvs V w) = 0"
    and x: "x \<noteq> OpDeleteAdmin uid"
  shows "slot_of T uid (nvs V (exec_op T m x w)) = Some e"
proof -
  obtain i where i: "nv_index_for_uid T uid = Ok i" and n: "nvs V w i = Some e"
    using e by (auto simp: slot_of_def split: res.splits)
  have g: "guarded T V uid w" using S wf i by (auto simp: guarded_def wf_all_def)
  have verify: "nvs V w1 = nvs V w \<and> (\<forall>s. r \<noteq> Ok (VerifySuccess s))"
    if "verify_pin T m uid p w = (r, w1)" for p r w1
  proof -
    have "verify_attempt T m uid p w = (\<exists>s. r = Ok (VerifySuccess s), w1)"
      using that by (auto simp: verify_attempt_iff)
    then have "\<forall>s. r \<noteq> Ok (VerifySuccess s)"
      using guard.wrong_refused [OF g] left by fastforce
    moreover have "nvs V w1 = nvs V w"
      using wrong_attempt(2) [OF g _ that] left pin_reject_effect(2) by fastforce
    ultimately show ?thesis by simp
  qed
  have "nvs V (exec_op T m x w) i = nvs V w i"
  proof (cases "op_uid x = Some uid")
    case False
    then show ?thesis using exec_op_other [OF S wf] i by (simp add: owns_def)
  next
    case True
    then consider p where "x = OpSetup uid p" | p where "x = OpVerify uid p" | p where "x = OpDeleteAuth uid p"
      | "x = OpStatus uid"
      using x by (cases x) auto
    then show ?thesis
    proof cases
      case 1
      obtain r w1 where r: "setup_pin T m uid p w = (r, w1)" by fastforce
      then show ?thesis using 1 setup_pin_existing(2) [OF S i _ r] n by simp
    next
      case 2
      obtain r w1 where "verify_pin T m uid p w = (r, w1)" by fastforce
      then show ?thesis using 2 verify by simp
    next
      case 3
      obtain r w1 where r: "verify_pin T m uid p w = (r, w1)" by fastforce
      then have "delete_pin_with_auth T m uid p w = (case r of
          Ok (VerifyInvalid l) \<Rightarrow> (Ok (DeleteInvalid l), w1) | Ok _ \<Rightarrow> (Ok DeleteLockedOut, w1)
        | Err x \<Rightarrow> (Err x, w1) | Panic x \<Rightarrow> (Panic x, w1))"
        using verify [OF r] by (simp add: delete_pin_with_auth_def andThen_def ok_def
            split: res.splits verification_result.splits)
      then have "snd (delete_pin_with_auth T m uid p w) = w1"
        by (simp split: res.splits verification_result.splits)
      then show ?thesis using 3 verify [OF r] by simp
    next
      case 4
      then show ?thesis using exec_op_uid_step(5) [OF S] by simp
    qed
  qed
  then show ?thesis using i n by (simp add: slot_of_def)
qed

text \<open>C5: Once a user's attempts are used up, no history of operations, the user's own and
  everyone else's, changes the slot: the lockout ends only with an administrative deletion.\<close>
theorem lockout_until_admin_delete:
  assumes "tss_sound T V" and "reaches T m w ops w'" and "wf_all T (nvs V w)"
    and "slot_of T uid (nvs V w) = Some e" and "attempts_left T uid (nvs V w) = 0"
    and "OpDeleteAdmin uid \<notin> set ops"
  shows "slot_of T uid (nvs V w') = Some e \<and> attempts_left T uid (nvs V w') = 0"
  using assms(2-6)
proof induction
  case (step w ops w' x)
  then have "wf_all T (nvs V w')"
    using reaches_global [OF assms(1) step.hyps] by (simp add: global_step_def)
  then have "slot_of T uid (nvs V (exec_op T m x w')) = Some e"
    using step exec_op_locked [OF assms(1), of w' uid e x m] by auto
  then show ?case using step by (simp add: attempts_left_def counters_of_def)
qed simp

end
