(* ===== verification/PinutilSafety.thy ===== *)
theory PinutilSafety imports PinutilEffects History begin

text \<open>
  What a process running \<open>pinutil\<close> can do to the TPM, whoever started it, whatever it is
  told and whatever fails: three relations on the NV indices, each an instance of the effects
  interface.
\<close>

section \<open>The platform\<close>

text \<open>
  The terminal does not reach the TPM's indices, and the calls of the master-key commands work on
  persistent objects and files, not on NV indices.
\<close>

definition platform_quiet :: "('w, 'z) os_scheme \<Rightarrow> ('w, 'v) view_scheme \<Rightarrow> bool" where
  "platform_quiet E V \<longleftrightarrow>
     tss_sound E V \<and> terminal_evolves E (nvs V) (=) \<and> key_calls_evolve E (nvs V) (=)"

lemma evolves_imp: "evolves obs (\<lambda>x y. P \<longrightarrow> S x y) m \<longleftrightarrow> (P \<longrightarrow> evolves obs S m)"
  by (auto simp: evolves_def)

lemma terminal_evolves_imp:
  "terminal_evolves E obs (\<lambda>x y. P \<longrightarrow> S x y) \<longleftrightarrow> (P \<longrightarrow> terminal_evolves E obs S)"
  by (auto simp: terminal_evolves_def evolves_imp)

lemma key_calls_imp:
  "key_calls_evolve E obs (\<lambda>x y. P \<longrightarrow> S x y) \<longleftrightarrow> (P \<longrightarrow> key_calls_evolve E obs S)"
  by (auto simp: key_calls_evolve_def evolves_imp)

lemma preorder_imp: "world_preorder S \<Longrightarrow> world_preorder (\<lambda>x y. P \<longrightarrow> S x y)"
  by (auto simp: world_preorder_def)

lemma terminal_mono:
  assumes p: "world_preorder R" and t: "terminal_evolves E obs (=)"
  shows "terminal_evolves E obs R"
proof -
  note keep = world_preorder.equal_evolves [OF p]
  from t have env: "obs (set_env E k v w) = obs w" for k v w
    unfolding terminal_evolves_def by metis
  have refl: "R x x" for x using p by (simp add: world_preorder_def)
  show ?thesis
    using t unfolding terminal_evolves_def env by (auto intro: keep refl)
qed

lemma key_calls_mono:
  assumes p: "world_preorder R" and t: "key_calls_evolve E obs (=)"
  shows "key_calls_evolve E obs R"
proof -
  note keep = world_preorder.equal_evolves [OF p]
  from t have hooks: "obs (no_session_begin E w) = obs w" "obs (no_session_end E w) = obs w"
      "obs (session_begin E h w) = obs w" "obs (session_end E w) = obs w" for h w
    unfolding key_calls_evolve_def by metis+
  have refl: "R x x" for x using p by (simp add: world_preorder_def)
  show ?thesis
    using t unfolding key_calls_evolve_def hooks by (auto intro: keep refl)
qed

text \<open>How an effects contract follows from the effect of each of the manager's operations.\<close>

lemma effects_intro:
  assumes p: "world_preorder S"
    and Q: "P \<Longrightarrow> platform_quiet E V"
    and ops: "\<And>m uid pin. P \<Longrightarrow> can_manage_pin (proc E) uid \<Longrightarrow> evolves (nvs V) S (setup_pin E m uid pin)"
      "\<And>m uid pin. P \<Longrightarrow> typed_pin E pin \<Longrightarrow> can_attempt_pin (proc E) uid \<or> can_manage_pin (proc E) uid \<Longrightarrow>
        evolves (nvs V) S (verify_pin E m uid pin)"
      "\<And>m uid pin. P \<Longrightarrow> typed_pin E pin \<Longrightarrow> can_manage_pin (proc E) uid \<Longrightarrow> evolves (nvs V) S (delete_pin_with_auth E m uid pin)"
      "\<And>uid. P \<Longrightarrow> get_uid (proc E) = 0 \<Longrightarrow> evolves (nvs V) S (delete_pin_admin E uid)"
  shows "pinutil_effects (\<lambda>N N'. P \<longrightarrow> S N N') E (nvs V)"
proof (intro pinutil_effects.intro terminal_effects.intro terminal_effects_axioms.intro
      pinutil_effects_axioms.intro preorder_imp p;
    unfold evolves_imp terminal_evolves_imp key_calls_imp; rule impI)
  note keep = world_preorder.equal_evolves [OF p]
  assume P
  then have q: "tss_sound E V" "terminal_evolves E (nvs V) (=)" "key_calls_evolve E (nvs V) (=)"
    using Q by (simp_all add: platform_quiet_def)
  show "terminal_evolves E (nvs V) S" by (rule terminal_mono [OF p q(2)])
  show "key_calls_evolve E (nvs V) S" by (rule key_calls_mono [OF p q(3)])
  show "evolves (nvs V) S (manager_new E pp)" for pp
    unfolding manager_new_def with_tcti_def
    by (rule keep) (intro keep_rules unchanged.mapErr_evolves q(1))
  show "evolves (nvs V) S (restart_context E m)" for m by (rule keep [OF restart_context_keeps [OF q(1)]])
  show "evolves (nvs V) S (clear_sessions E :: ('a, unit, pin_error) eff)"
    by (rule keep [OF clear_sessions_keeps [OF q(1)]])
  show "evolves (nvs V) S (get_attempt_count E uid)" "evolves (nvs V) S (get_pin_slot E uid)" for uid
    by (rule keep, rule queries_keep [OF q(1)])+
qed (use ops in blast)+

text \<open>Prompting and reporting leave the indices.\<close>

interpretation dialogue: terminal_effects "\<lambda>N N'. platform_quiet E V \<longrightarrow> N = N'" E "nvs V" for E V
  by (intro terminal_effects.intro terminal_effects_axioms.intro preorder_imp unchanged.world_preorder_axioms)
    (simp add: terminal_evolves_imp platform_quiet_def)

lemma quiet_dialogue:
  assumes "platform_quiet E V"
  shows "keeps_nv V (prompt_pin E s a machine)" "keeps_nv V (prompt_new_pin E k c machine)"
    "keeps_nv V (println E s :: ('w, unit, 'e) eff)" "keeps_nv V (eprintln E s :: ('w, unit, 'e) eff)"
    "keeps_nv V (report_result E machine x :: ('w, unit, 'e) eff)"
  using dialogue.prompt_pin_evolves [of V E s a machine] dialogue.prompt_new_pin_evolves [of V E k c machine]
    dialogue.prints_evolve(2,4) [of V E s] dialogue.report_evolves [of V E machine x] assms
  by (simp_all add: evolves_imp)

section \<open>Every run keeps the indices well formed\<close>

lemma global_preorder: "world_preorder (global_step T)"
  by unfold_locales (auto simp: global_step_def)

lemma global_operations:
  assumes "tss_sound T V"
  shows "evolves (nvs V) (global_step T) (setup_pin T m uid pin)"
    "evolves (nvs V) (global_step T) (verify_pin T m uid pin)"
    "evolves (nvs V) (global_step T) (delete_pin_with_auth T m uid pin)"
    "evolves (nvs V) (global_step T) (delete_pin_admin T uid)"
  by (rule evolves_mono [OF operation_steps(1) [OF assms]] evolves_mono [OF operation_steps(2) [OF assms]]
      evolves_mono [OF operation_steps(3) [OF assms]] evolves_mono [OF operation_steps(4) [OF assms]];
      erule uid_step_global)+

interpretation any_run: pinutil_effects "\<lambda>N N'. platform_quiet E V \<longrightarrow> global_step E N N'" E "nvs V" for E V
  by (rule effects_intro [OF global_preorder]) (auto simp: platform_quiet_def intro: global_operations)

section \<open>An unprivileged run touches its own user's indices only\<close>

definition unprivileged :: "process \<Rightarrow> bool" where
  "unprivileged ps \<longleftrightarrow> real_uid ps \<noteq> 0 \<and> effective_uid ps \<noteq> 0"

lemma unprivileged_uid:
  "unprivileged ps \<Longrightarrow> can_attempt_pin ps uid \<or> can_manage_pin ps uid \<Longrightarrow> uid = real_uid ps"
  by (auto simp: unprivileged_def can_attempt_pin_def can_manage_pin_def get_uid_def)

interpretation own_run: pinutil_effects
  "\<lambda>N N'. platform_quiet E V \<and> unprivileged (proc E) \<longrightarrow> uid_step E (real_uid (proc E)) N N'" E "nvs V"
  for E V
proof (rule effects_intro [OF user.world_preorder_axioms], goal_cases)
  case (2 m uid pin)
  then show ?case using unprivileged_uid by (metis operation_steps(1) platform_quiet_def)
next
  case (3 m uid pin)
  then show ?case using unprivileged_uid by (metis operation_steps(2) platform_quiet_def)
next
  case (4 m uid pin)
  then show ?case using unprivileged_uid by (metis operation_steps(3) platform_quiet_def)
qed (auto simp: unprivileged_def get_uid_def)

section \<open>No run but root's ends a lockout\<close>

definition lock_step :: "('w, 'z) tss_scheme \<Rightarrow> u32 \<Rightarrow> nv_map \<Rightarrow> nv_map \<Rightarrow> bool" where
  "lock_step T uid N N' \<longleftrightarrow>
     (wf_all T N \<longrightarrow> wf_all T N' \<and>
       (\<forall>e. slot_of T uid N = Some e \<longrightarrow> attempts_left T uid N = 0 \<longrightarrow> slot_of T uid N' = Some e))"

lemma attempts_left_slot: "slot_of T uid N = slot_of T uid N' \<Longrightarrow> attempts_left T uid N = attempts_left T uid N'"
  by (simp add: attempts_left_def counters_of_def)

lemma lock_preorder: "world_preorder (lock_step T uid)"
proof
  fix N1 N2 N3 assume "lock_step T uid N1 N2" "lock_step T uid N2 N3"
  then show "lock_step T uid N1 N3"
    using attempts_left_slot [of T uid N1 N2] by (auto simp: lock_step_def)
qed (simp add: lock_step_def)

lemma exec_op_lock_step:
  assumes S: "tss_sound T V" and x: "x \<noteq> OpDeleteAdmin uid"
  shows "lock_step T uid (nvs V w) (nvs V (exec_op T m x w))"
  using exec_op_global [OF S, of w m x] exec_op_locked [OF S _ _ _ x]
  by (auto simp: lock_step_def global_step_def)

lemma lock_operations:
  assumes S: "tss_sound T V"
  shows "evolves (nvs V) (lock_step T uid) (setup_pin T m u pin)"
    "evolves (nvs V) (lock_step T uid) (verify_pin T m u pin)"
    "evolves (nvs V) (lock_step T uid) (delete_pin_with_auth T m u pin)"
  using exec_op_lock_step [OF S, of "OpSetup u pin" uid _ m] exec_op_lock_step [OF S, of "OpVerify u pin" uid _ m]
    exec_op_lock_step [OF S, of "OpDeleteAuth u pin" uid _ m]
  by (simp_all add: evolves_def)

interpretation locked_run: pinutil_effects
  "\<lambda>N N'. platform_quiet E V \<and> real_uid (proc E) \<noteq> 0 \<longrightarrow> lock_step E uid N N'" E "nvs V"
  for E V uid
  by (rule effects_intro [OF lock_preorder]) (auto simp: platform_quiet_def get_uid_def intro: lock_operations)

section \<open>Properties\<close>

text \<open>C23: Whoever runs \<open>pinutil\<close>, with whatever arguments and input and whatever fails, well-formed
  indices stay well formed and indices that belong to no user stay as they are.\<close>
theorem pinutil_keeps_indices:
  assumes "platform_quiet E V" and "wf_all E (nvs V w)" and "pinutil_main E args w = (r, w')"
  shows "wf_all E (nvs V w') \<and> (\<forall>k. (\<forall>uid. \<not> owns E uid k) \<longrightarrow> nvs V w' k = nvs V w k)"
  using evolvesD [OF any_run.main_evolves assms(3)] assms(1,2) by (auto simp: global_step_def)

text \<open>C12: A run of \<open>pinutil\<close> whose real and effective user are not root changes no index but those of
  its real user, whatever arguments, input and failures.\<close>
theorem unprivileged_run_is_isolated:
  assumes "platform_quiet E V" and "unprivileged (proc E)" and "wf_all E (nvs V w)"
    and "pinutil_main E args w = (r, w')" and "\<not> owns E (real_uid (proc E)) k"
  shows "nvs V w' k = nvs V w k"
  using evolvesD [OF own_run.main_evolves assms(4)] assms by (auto simp: uid_step_def wf_all_def)

text \<open>C13: A user locked out stays locked out through any run of \<open>pinutil\<close> by anyone but root, even
  one with root's effective user id: the slot does not change at all.\<close>
theorem lockout_survives_pinutil:
  assumes "platform_quiet E V" and "real_uid (proc E) \<noteq> 0" and "wf_all E (nvs V w)"
    and "slot_of E uid (nvs V w) = Some e" and "attempts_left E uid (nvs V w) = 0"
    and "pinutil_main E args w = (r, w')"
  shows "slot_of E uid (nvs V w') = Some e \<and> attempts_left E uid (nvs V w') = 0"
proof -
  have "evolves (nvs V) (\<lambda>N N'. platform_quiet E V \<and> real_uid (proc E) \<noteq> 0 \<longrightarrow> lock_step E uid N N')
      (pinutil_main E args)"
    by (rule locked_run.main_evolves)
  from evolvesD [OF this assms(6)] have "slot_of E uid (nvs V w') = Some e"
    using assms(1-5) by (auto simp: lock_step_def)
  then show ?thesis using attempts_left_slot [of E uid "nvs V w" "nvs V w'"] assms(4,5) by simp
qed

end
