(* ===== verification/ManagerEffects.thy ===== *)
theory ManagerEffects imports PinManager begin

text \<open>
  How the manager's operations move any observation of the world along any preorder, given how the
  TSS calls do: what the TPM calls leave alone, the operations leave alone.
\<close>

definition tss_calls_evolve ::
  "('w, 'z) tss_scheme \<Rightarrow> ('w \<Rightarrow> 'n) \<Rightarrow> ('n \<Rightarrow> 'n \<Rightarrow> bool) \<Rightarrow> bool"
where
  "tss_calls_evolve T obs R \<longleftrightarrow>
     (\<forall>c. evolves obs R (context_new T c)) \<and> (\<forall>w. R (obs w) (obs (ctx_clear_sessions T w))) \<and>
     evolves obs R (nullauth_begin T) \<and> evolves obs R (nullauth_end T) \<and>
     (\<forall>w. R (obs w) (obs (no_session_begin T w))) \<and> (\<forall>w. R (obs w) (obs (no_session_end T w))) \<and>
     (\<forall>s w. R (obs w) (obs (session_begin T s w))) \<and> (\<forall>w. R (obs w) (obs (session_end T w))) \<and>
     (\<forall>t. evolves obs R (start_auth_session T t)) \<and> (\<forall>s. evolves obs R (tr_sess_set_attributes T s)) \<and>
     (\<forall>s c. evolves obs R (policy_command_code T s c)) \<and> (\<forall>s b. evolves obs R (policy_nv_written T s b)) \<and>
     (\<forall>s. evolves obs R (policy_get_digest T s)) \<and> (\<forall>s. evolves obs R (flush_context T s)) \<and>
     (\<forall>i. evolves obs R (tr_from_tpm_public T i)) \<and> (\<forall>h a. evolves obs R (tr_set_auth T h a)) \<and>
     (\<forall>a h n k. evolves obs R (nv_read T a h n k)) \<and> (\<forall>a i. evolves obs R (nv_read_full T a i)) \<and>
     (\<forall>a h d k. evolves obs R (nv_write T a h d k)) \<and> (\<forall>a p. evolves obs R (nv_define_space T a p)) \<and>
     (\<forall>h. evolves obs R (nv_undefine_space T h))"

locale tss_effects = world_preorder R
  for R :: "'n \<Rightarrow> 'n \<Rightarrow> bool" +
  fixes T :: "('w, 'z) tss_scheme" and obs :: "'w \<Rightarrow> 'n"
  assumes calls: "tss_calls_evolve T obs R"
begin

lemma tss_calls:
  "evolves obs R (context_new T c)" "evolves obs R (act (ctx_clear_sessions T))"
  "evolves obs R (nullauth_begin T)" "evolves obs R (nullauth_end T)"
  "evolves obs R (act (no_session_begin T))" "evolves obs R (act (no_session_end T))"
  "evolves obs R (act (session_begin T s))" "evolves obs R (act (session_end T))"
  "evolves obs R (start_auth_session T st)" "evolves obs R (tr_sess_set_attributes T s)"
  "evolves obs R (policy_command_code T s cc)" "evolves obs R (policy_nv_written T s b)"
  "evolves obs R (policy_get_digest T s)" "evolves obs R (flush_context T s)"
  "evolves obs R (tr_from_tpm_public T i)" "evolves obs R (tr_set_auth T h a)"
  "evolves obs R (nv_read T na h n k)" "evolves obs R (nv_read_full T na i)"
  "evolves obs R (nv_write T na h d k)" "evolves obs R (nv_define_space T oa pub)"
  "evolves obs R (nv_undefine_space T h)"
  using calls by (simp_all add: tss_calls_evolve_def evolves_act)

lemma checked_evolves: "evolves obs R (checked c x)"
  unfolding checked_def by (intro evolves_intros branch_evolves)

lemma clear_evolves: "evolves obs R (clear_sessions T)"
  unfolding clear_sessions_def by (rule tss_calls)

lemma bracketed:
  assumes "evolves obs R f"
  shows "evolves obs R (without_session T f)" "evolves obs R (with_session T s f)"
    "evolves obs R (with_nullauth T f)"
  unfolding without_session_def with_session_def with_nullauth_def
  by (intro evolves_intros tss_calls assms)+

lemma then_clear_evolves: "evolves obs R f \<Longrightarrow> evolves obs R (then_clear T f)"
  unfolding then_clear_def by (intro evolves_intros clear_evolves)

lemmas tss_rules =
  evolves_intros branch_evolves tss_calls checked_evolves clear_evolves bracketed
  then_clear_evolves

lemma context_evolves: "evolves obs R (manager_new T p)" "evolves obs R (restart_context T m)"
  unfolding manager_new_def with_tcti_def restart_context_def by (intro tss_rules)+

lemma read_slot_evolves: "evolves obs R (read_pin_slot_owner T i)"
  unfolding read_pin_slot_owner_def by (intro tss_rules)

lemma get_slot_evolves: "evolves obs R (get_pin_slot T uid)"
  unfolding get_pin_slot_def by (intro tss_rules read_slot_evolves)

lemma read_tag_evolves: "evolves obs R (read_pin_version_tag T uid)"
  unfolding read_pin_version_tag_def by (intro tss_rules)

lemma write_existing_evolves: "evolves obs R (write_pin_version_tag_existing T i v)"
  unfolding write_pin_version_tag_existing_def by (intro tss_rules)

lemma define_tag_evolves: "evolves obs R (define_pin_version_tag T i)"
  unfolding define_pin_version_tag_def by (intro tss_rules)

lemma write_tag_evolves: "evolves obs R (write_pin_version_tag T uid v)"
  unfolding write_pin_version_tag_def
  by (auto intro!: tss_rules write_existing_evolves define_tag_evolves split: pin_error.split)

lemma delete_tag_evolves: "evolves obs R (delete_pin_version_tag T uid)"
  unfolding delete_pin_version_tag_def by (intro tss_rules)

lemma delete_admin_evolves: "evolves obs R (delete_pin_admin T uid)"
  unfolding delete_pin_admin_def by (intro tss_rules delete_tag_evolves)

lemma start_policy_evolves: "evolves obs R (start_write_policy T st what)"
  unfolding start_write_policy_def by (intro tss_rules)

lemma template_evolves: "evolves obs R (pin_slot_template T i)"
  unfolding pin_slot_template_def by (intro tss_rules start_policy_evolves)

lemma initial_evolves: "evolves obs R (write_initial_slot T m i a)"
  unfolding write_initial_slot_def by (intro tss_rules start_policy_evolves)

lemma define_slot_evolves: "evolves obs R (define_pin_slot T m i a)"
  unfolding define_pin_slot_def by (intro tss_rules template_evolves initial_evolves)

lemma setup_evolves: "evolves obs R (setup_pin T m uid pin)"
  unfolding setup_pin_def
  by (intro tss_rules read_slot_evolves define_slot_evolves context_evolves write_tag_evolves
      delete_admin_evolves)

lemma exact_evolves: "evolves obs R (verify_pin_exact T uid a)"
  unfolding verify_pin_exact_def by (intro tss_rules read_slot_evolves)

lemma migrate_evolves: "evolves obs R (migrate_legacy_pin_format T m uid pin)"
  unfolding migrate_legacy_pin_format_def
  by (intro tss_rules write_tag_evolves delete_admin_evolves context_evolves setup_evolves)

lemma verify_evolves: "evolves obs R (verify_pin T m uid pin)"
  unfolding verify_pin_def
  by (intro tss_rules read_tag_evolves exact_evolves context_evolves migrate_evolves)

lemma delete_auth_evolves: "evolves obs R (delete_pin_with_auth T m uid pin)"
  unfolding delete_pin_with_auth_def
  by (auto intro!: tss_rules verify_evolves delete_admin_evolves split: verification_result.split)

end

end
