(* ===== verification/PinutilTest.thy ===== *)
theory PinutilTest imports PinutilSafety ManagerEffects begin

text \<open>
  \<open>pinutil -m test\<close> as its caller sees it: the line it reads, the PIN it verifies, the report it
  prints and its exit code.
\<close>

section \<open>Standard input and output\<close>

record 'w pipes =
  inp :: "'w \<Rightarrow> string"
  out :: "'w \<Rightarrow> string"

definition take_line :: "string \<Rightarrow> string" where
  "take_line s =
     takeWhile (\<lambda>c. c \<noteq> newline) s @ (if newline \<in> set s then [newline] else [])"

abbreviation stdio :: "('w, 'q) pipes_scheme \<Rightarrow> 'w \<Rightarrow> string \<times> string" where
  "stdio Q w \<equiv> (inp Q w, out Q w)"

text \<open>
  Reading takes the next line of the input; writing appends to the output, or a part when it
  fails; nothing else touches either.
\<close>

definition stdio_law :: "('w, 'z) os_scheme \<Rightarrow> ('w, 'q) pipes_scheme \<Rightarrow> bool" where
  "stdio_law E Q \<longleftrightarrow>
     (\<forall>w. wp (stdin_read_line E)
        (\<lambda>r w'. out Q w' = out Q w \<and> (\<forall>l. r = Ok l \<longrightarrow> l = take_line (inp Q w))) w) \<and>
     (\<forall>s w. wp (stdout_write E s)
        (\<lambda>r w'. (r = Ok () \<longrightarrow> out Q w' = out Q w @ s) \<and>
           (\<exists>t. prefix t s \<and> out Q w' = out Q w @ t)) w) \<and>
     (\<forall>s. evolves (stdio Q) (=) (stderr_write E s)) \<and>
     (\<forall>k v w. stdio Q (set_env E k v w) = stdio Q w) \<and>
     (\<forall>r. evolves (stdio Q) (=) (ll_restrict_self E r)) \<and>
     tss_calls_evolve E (stdio Q) (=)"

lemma stdio_sandbox:
  assumes L: "stdio_law E Q"
  shows "evolves (stdio Q) (=) (pinutil_sandbox E)"
    "evolves (stdio Q) (=) (eprintln E s :: ('w, unit, 'e) eff)"
    "evolves (stdio Q) (=) (act (set_env E k v) :: ('w, unit, 'e) eff)"
proof -
  have a: "evolves (stdio Q) (=) (ll_restrict_self E r)" "evolves (stdio Q) (=) (stderr_write E s)" for r s
    using L by (simp_all add: stdio_law_def)
  show "evolves (stdio Q) (=) (pinutil_sandbox E)"
      "evolves (stdio Q) (=) (eprintln E s :: ('w, unit, 'e) eff)"
    unfolding pinutil_sandbox_def eprintln_def eprint_def Let_def
    by (intro unchanged.evolves_intros unchanged.branch_evolves a)+
  show "evolves (stdio Q) (=) (act (set_env E k v) :: ('w, unit, 'e) eff)"
    unfolding evolves_act using L by (metis stdio_law_def)
qed

interpretation silent: tss_effects "\<lambda>x y. stdio_law E Q \<longrightarrow> x = y" E "stdio Q" for E Q
  by (intro tss_effects.intro tss_effects_axioms.intro preorder_imp unchanged.world_preorder_axioms)
    (auto simp: stdio_law_def tss_calls_evolve_def evolves_imp)

lemma silent_operations:
  assumes "stdio_law E Q"
  shows "evolves (stdio Q) (=) (manager_new E p)" "evolves (stdio Q) (=) (get_pin_slot E uid)"
    "evolves (stdio Q) (=) (verify_pin E m uid pin)"
  using silent.context_evolves(1) [of Q E p] silent.get_slot_evolves [of Q E uid]
    silent.verify_evolves [of Q E m uid pin] assms
  by (simp_all add: evolves_imp)

section \<open>The test command\<close>

lemma ok_then: "andThen (ok x) k = k x" "mapErr f (pure (Ok x)) = ok x"
  by (auto simp: andThen_def ok_def mapErr_def matchRes_def pure_def)

lemma machine_prompt:
  assumes L: "stdio_law E Q" and K: "terminal_evolves E (nvs V) (=)"
    and run: "prompt_pin E s a True w = (r, w')"
  shows "nvs V w' = nvs V w" "out Q w' = out Q w"
    "r = Ok pin \<Longrightarrow> pin_new (take_line (inp Q w)) (cached_policy E) = Ok pin"
proof -
  obtain r1 w1 where 1: "stdin_read_line E w = (r1, w1)" by fastforce
  have n: "nvs V w1 = nvs V w" "out Q w1 = out Q w" "\<forall>l. r1 = Ok l \<longrightarrow> l = take_line (inp Q w)"
    using L K 1 by (auto simp: stdio_law_def terminal_evolves_def wp_fst_snd dest!: spec [of _ w] evolvesD)
  from run 1 have "w' = w1 \<and> (\<forall>pin. r = Ok pin \<longrightarrow>
      (\<exists>l. r1 = Ok l \<and> pin_new l (cached_policy E) = Ok pin))"
    by (cases r1) (auto simp: prompt_pin_def andThen_def mapErr_def matchRes_def ok_def err_def pure_def)
  with n show "nvs V w' = nvs V w" "out Q w' = out Q w"
    "r = Ok pin \<Longrightarrow> pin_new (take_line (inp Q w)) (cached_policy E) = Ok pin"
    by auto
qed

lemma quiet_queries:
  assumes L: "stdio_law E Q" and K: "platform_quiet E V"
  shows "new_manager E w = (r1, w1) \<Longrightarrow> nvs V w1 = nvs V w \<and> stdio Q w1 = stdio Q w"
    and "get_attempt_info E uid w = (r2, w1) \<Longrightarrow> nvs V w1 = nvs V w \<and> stdio Q w1 = stdio Q w"
proof -
  have S: "tss_sound E V" using K by (simp add: platform_quiet_def)
  have a: "keeps_nv V (new_manager E)"
    unfolding new_manager_def manager_new_def with_tcti_def by (intro keep_rules S)
  have b: "evolves (stdio Q) (=) (new_manager E)"
    unfolding new_manager_def by (rule silent_operations [OF L])
  show "new_manager E w = (r1, w1) \<Longrightarrow> nvs V w1 = nvs V w \<and> stdio Q w1 = stdio Q w"
    using evolvesD [OF a, of w r1 w1] evolvesD [OF b, of w r1 w1] by simp
  have a: "keeps_nv V (get_attempt_info E uid)"
    unfolding get_attempt_info_def by (intro keep_rules queries_keep S)
  have b: "evolves (stdio Q) (=) (get_attempt_info E uid)"
    unfolding get_attempt_info_def
    by (intro unchanged.evolves_intros silent_operations [OF L])
  show "get_attempt_info E uid w = (r2, w1) \<Longrightarrow> nvs V w1 = nvs V w \<and> stdio Q w1 = stdio Q w"
    using evolvesD [OF a, of w r2 w1] evolvesD [OF b, of w r2 w1] by simp
qed

text \<open>
  In machine mode the command prints nothing itself.  Either it stops before the TPM is asked, or
  it verifies the PIN on the input line, and it succeeds just when the verification does.
\<close>

definition verified_by ::
  "('w, 'z) os_scheme \<Rightarrow> ('w, 'v) view_scheme \<Rightarrow> string \<Rightarrow> string \<Rightarrow> 'w \<Rightarrow> 'w \<Rightarrow> bool \<Rightarrow> bool"
where
  "verified_by E V name line w w' success \<longleftrightarrow>
     (\<exists>uid m pin w1 w2 v.
        get_uid_from_username (user_table E) name = Ok uid \<and> can_attempt_pin (proc E) uid \<and>
        policy m = cached_policy E \<and>
        pin_new line (cached_policy E) = Ok pin \<and> nvs V w1 = nvs V w \<and>
        verify_pin E m uid pin w1 = (v, w2) \<and> nvs V w' = nvs V w2 \<and>
        success = (\<exists>s. v = Ok (VerifySuccess s)))"

lemma manager_policy: "manager_new E p w = (Ok m, w') \<Longrightarrow> policy m = p"
  unfolding manager_new_def with_tcti_def by (elim run_elims) (auto simp: run_simps)

lemma test_verdict_machine:
  "test_verdict E True v w = (r, w') \<Longrightarrow> w' = w \<and> (\<forall>s. r \<noteq> Panic s) \<and> (r = Ok () \<longleftrightarrow> (\<exists>s. v = VerifySuccess s))"
  by (auto simp: test_verdict_def run_simps split: verification_result.splits)

lemma test_pin_machine:
  assumes L: "stdio_law E Q" and K: "platform_quiet E V" and run: "test_pin E name True w = (r, w')"
  shows "out Q w' = out Q w"
    and "nvs V w' = nvs V w \<and> r \<noteq> Ok () \<or> verified_by E V name (take_line (inp Q w)) w w' (r = Ok ())"
proof -
  have T: "terminal_evolves E (nvs V) (=)" using K by (simp add: platform_quiet_def)
  let ?P = "out Q w' = out Q w \<and> (nvs V w' = nvs V w \<and> r \<noteq> Ok () \<or>
      verified_by E V name (take_line (inp Q w)) w w' (r = Ok ()))"
  have stop: ?P if "w' = w1" "nvs V w1 = nvs V w" "stdio Q w1 = stdio Q w" "r \<noteq> Ok ()" for w1
    using that by simp
  note q = quiet_queries [OF L K]
  from run [unfolded test_pin_def]
  consider (stop) w1 where "w' = w1" "nvs V w1 = nvs V w" "stdio Q w1 = stdio Q w" "r \<noteq> Ok ()"
    | (go) uid m info w1 where "get_uid_from_username (user_table E) name = Ok uid"
        "can_attempt_pin (proc E) uid" "policy m = cached_policy E" "nvs V w1 = nvs V w" "stdio Q w1 = stdio Q w"
        "andThen (prompt_pin E ''PIN'' (Some (prompt_tuple info)) True) (\<lambda>pin.
           andThen (verify_pin E m uid pin) (\<lambda>result. test_verdict E True result)) w1 = (r, w')"
  proof (cases rule: andThenE)
    case (Ok uid w0)
    then have u: "get_uid_from_username (user_table E) name = Ok uid" "w0 = w" by (auto simp: run_simps)
    show ?thesis
    proof (cases "can_attempt_pin (proc E) uid")
      case True
      then have 1: "andThen (new_manager E) (\<lambda>m. andThen (get_attempt_info E uid) (\<lambda>info_opt.
          case info_opt of
            None \<Rightarrow> andThen (unless_machine True (println E (ui_tr E ''no_pin_set_for_user'' [])))
              (\<lambda>_. err NoPinSet)
          | Some info \<Rightarrow>
              if locked info then
                andThen (unless_machine True (println E (ui_tr E ''user_is_locked_out'' [])))
                  (\<lambda>_. err PinIsLocked)
              else
                andThen (prompt_pin E ''PIN'' (Some (prompt_tuple info)) True) (\<lambda>pin.
                andThen (verify_pin E m uid pin) (\<lambda>result. test_verdict E True result)))) w = (r, w')"
        using Ok u by simp
      from 1 show ?thesis
      proof (cases rule: andThenE)
        case (Ok m w1)
        note m = this
        from Ok(2) show ?thesis
        proof (cases rule: andThenE)
          case (Ok info_opt w2)
          then have n: "nvs V w2 = nvs V w" "stdio Q w2 = stdio Q w"
            using q(1) [OF m(1)] q(2) [OF Ok(1)] by simp_all
          have pol: "policy m = cached_policy E" using manager_policy [OF m(1) [unfolded new_manager_def]] .
          show ?thesis
          proof (cases "\<exists>info. info_opt = Some info \<and> \<not> locked info")
            case True
            then show ?thesis using go [OF u(1) \<open>can_attempt_pin (proc E) uid\<close> pol n] Ok(2) by auto
          next
            case False
            then have "w' = w2 \<and> r \<noteq> Ok ()"
              using Ok(2) by (auto simp: andThen_def ok_def err_def split: option.splits if_splits)
            then show ?thesis using stop [of w2] n by simp
          qed
        qed (use q(1) [OF m(1)] q(2) stop in \<open>fastforce+\<close>)
      qed (use q(1) stop in \<open>fastforce+\<close>)
    next
      case False
      then show ?thesis using Ok u stop [of w] by (auto simp: run_simps)
    qed
  qed (use stop [of w] in \<open>auto simp: run_simps\<close>)
  then have ?P
  proof cases
    case go
    from go(6) show ?P
    proof (cases rule: andThenE)
      case (Ok pin w2)
      note p = machine_prompt [OF L T Ok(1)]
      obtain v w3 where v: "verify_pin E m uid pin w2 = (v, w3)" by fastforce
      have o: "stdio Q w3 = stdio Q w2" using evolvesD [OF silent_operations(3) [OF L] v] by simp
      have "w' = w3 \<and> (r = Ok () \<longleftrightarrow> (\<exists>s. v = Ok (VerifySuccess s)))"
        using Ok(2) v by (cases v) (auto simp: andThen_def dest!: test_verdict_machine)
      moreover have "pin_new (take_line (inp Q w)) (cached_policy E) = Ok pin"
        using p(3) go(5) by simp
      ultimately show ?P
        using go p(1,2) o v by (fastforce simp: verified_by_def)
    next
      case (Err e)
      then show ?P using machine_prompt(1,2) [OF L T Err(1)] go(4,5) by simp
    next
      case (Panic s)
      then show ?P using machine_prompt(1,2) [OF L T Panic(1)] go(4,5) by simp
    qed
  qed (rule stop)
  then show "out Q w' = out Q w"
    and "nvs V w' = nvs V w \<and> r \<noteq> Ok () \<or> verified_by E V name (take_line (inp Q w)) w w' (r = Ok ())"
    by simp_all
qed

section \<open>A whole run\<close>

definition test_invocation :: "('w, 'z) os_scheme \<Rightarrow> string list \<Rightarrow> string \<Rightarrow> bool" where
  "test_invocation E args name \<longleftrightarrow>
     (\<exists>c. parse_cli E args = Ok c \<and> command c = Test (Some name) \<and>
        (machine_flag c \<or> \<not> stdin_is_terminal E))"

text \<open>What is printed of a report: all of its line, or a part when writing fails.\<close>

definition reported ::
  "('w, 'z) os_scheme \<Rightarrow> pin_error + unit \<Rightarrow> string \<Rightarrow> bool"
where
  "reported E y t \<longleftrightarrow>
     (\<exists>s. to_json E (map_sum id (\<lambda>_. RUnit) y) = Ok s \<and> prefix t (s @ [newline]))"

lemma stdout_write_D:
  assumes L: "stdio_law E Q" and run: "stdout_write E s w = (r, w')"
  obtains t where "prefix t s" "out Q w' = out Q w @ t" "r = Ok () \<Longrightarrow> t = s"
proof -
  from L have "wp (stdout_write E s) (\<lambda>r w'. (r = Ok () \<longrightarrow> out Q w' = out Q w @ s) \<and>
      (\<exists>t. prefix t s \<and> out Q w' = out Q w @ t)) w"
    unfolding stdio_law_def by blast
  from wpD [OF this run] show thesis using that by auto
qed

lemma report_out:
  assumes L: "stdio_law E Q"
    and run: "report_result E True (map_sum id (\<lambda>_. RUnit) y) w = (r, w')"
  shows "out Q w' = out Q w \<or> (\<exists>t. reported E y t \<and> out Q w' = out Q w @ t)"
proof (cases "to_json E (map_sum id (\<lambda>_. RUnit) y)")
  case (Ok s)
  obtain r1 w1 where 1: "stdout_write E (s @ [newline]) w = (r1, w1)" by fastforce
  then obtain t where "prefix t (s @ [newline])" "out Q w1 = out Q w @ t"
    using stdout_write_D [OF L] by metis
  moreover have "w' = w1"
    using run Ok 1 by (cases r1)
      (auto simp: report_result_def println_def print_def matchRes_def ok_def panic_def)
  ultimately show ?thesis using Ok by (auto simp: reported_def)
qed (use run in \<open>auto simp: report_result_def run_simps\<close>)

text \<open>What a run does before its command: the sandbox and the environment.\<close>

definition before_command :: "('w, 'z) os_scheme \<Rightarrow> cli \<Rightarrow> ('w, unit, main_stop) eff" where
  "before_command E c =
     andThen
       (matchRes (pinutil_sandbox E) (\<lambda>_. ok ())
          (\<lambda>e. eprintln E (ui_tr E ''sandbox_fail'' [] @ '': '' @ e)))
       (\<lambda>_. if \<not> verbose c then act (set_env E ''TSS2_LOG'' ''all+NONE'') else ok ())"

lemma before_command_quiet:
  assumes L: "stdio_law E Q" and K: "platform_quiet E V"
  shows "keeps_nv V (before_command E c)" "evolves (stdio Q) (=) (before_command E c)"
proof -
  have T: "terminal_evolves E (nvs V) (=)" using K by (simp add: platform_quiet_def)
  show "keeps_nv V (before_command E c)" "evolves (stdio Q) (=) (before_command E c)"
    unfolding before_command_def
    using T by (intro unchanged.evolves_intros unchanged.branch_evolves stdio_sandbox [OF L]
        quiet_dialogue [OF K]; auto simp: pinutil_sandbox_def Let_def terminal_evolves_def evolves_act
        intro!: unchanged.evolves_intros unchanged.branch_evolves)+
qed

lemma main_before:
  assumes "parse_cli E args = Ok c"
  shows "pinutil_main E args =
     andThen (before_command E c) (\<lambda>_. run_command E (command c) (machine_flag c \<or> \<not> stdin_is_terminal E))"
  using assms
  by (intro ext) (auto simp: pinutil_main_def before_command_def andThen_def mapErr_def matchRes_def
      pure_def ok_def Let_def split: prod.splits res.splits)

lemma for_user_name: "for_user E (Some name) k = k name"
  by (simp add: for_user_def resolve_username_def andThen_def mapErr_def matchRes_def pure_def ok_def fun_eq_iff)

lemma test_run:
  assumes L: "stdio_law E Q" and K: "platform_quiet E V" and I: "test_invocation E args name"
    and run: "pinutil_main E args w = (r, w')"
  obtains (silent) "nvs V w' = nvs V w" "out Q w' = out Q w" "r \<noteq> Ok ()"
  | (tested) success y where
      "nvs V w' = nvs V w \<and> \<not> success \<or> verified_by E V name (take_line (inp Q w)) w w' success"
      "out Q w' = out Q w \<or> (\<exists>t. reported E y t \<and> out Q w' = out Q w @ t)"
      "success \<longleftrightarrow> y = Inr ()" "r = Ok () \<Longrightarrow> success"
proof -
  obtain c where c: "parse_cli E args = Ok c" "command c = Test (Some name)"
      "machine_flag c \<or> \<not> stdin_is_terminal E"
    using I by (auto simp: test_invocation_def)
  have main: "pinutil_main E args = andThen (before_command E c) (\<lambda>_.
      handle_result E (\<lambda>_. RUnit) (test_pin E name True) True)"
    using main_before [OF c(1)] c(2,3) by (auto simp: for_user_name)
  obtain rp we where 1: "before_command E c w = (rp, we)" by fastforce
  then have q: "nvs V we = nvs V w" "stdio Q we = stdio Q w"
    using evolvesD [OF before_command_quiet(1) [OF L K]] evolvesD [OF before_command_quiet(2) [OF L K]] by fastforce+
  show thesis
  proof (cases rp)
    case (Ok u)
    have h: "handle_result E (\<lambda>_. RUnit) (test_pin E name True) True we = (r, w')"
      using run main 1 Ok by (simp add: andThen_def)
    obtain r0 w0 where t: "test_pin E name True we = (r0, w0)" by fastforce
    note T = test_pin_machine [OF L K t]
    have keep: "nvs V w' = nvs V w0"
      if "report_result E True z w0 = (r1 :: (unit, main_stop) res, w')" for z r1
      using evolvesD [OF quiet_dialogue(5) [OF K] that] by simp
    show thesis
    proof (cases r0)
      case (Ok u)
      obtain r1 :: "(unit, main_stop) res" and w1 where p: "report_result E True (Inr RUnit) w0 = (r1, w1)" by fastforce
      then have "w1 = w'" using h t Ok by (cases r1) (auto simp: handle_result_def matchRes_def andThen_def ok_def)
      then show thesis
        using tested [of True "Inr ()"] T keep [of "Inr RUnit" r1] p Ok q report_out [OF L, of "Inr ()" w0 r1 w']
        by (simp add: verified_by_def)
    next
      case (Err e)
      obtain r1 :: "(unit, main_stop) res" and w1 where p: "report_result E True (Inl e) w0 = (r1, w1)" by fastforce
      then have "w1 = w' \<and> r \<noteq> Ok ()"
        using h t Err by (cases r1) (auto simp: handle_result_def matchRes_def andThen_def err_def)
      then show thesis
        using tested [of False "Inl e"] T keep [of "Inl e" r1] p Err q report_out [OF L, of "Inl e" w0 r1 w']
        by (simp add: verified_by_def)
    next
      case (Panic s)
      then have "w' = w0 \<and> r \<noteq> Ok ()" using h t by (auto simp: handle_result_def matchRes_def)
      then show thesis using tested [of False "Inl NoPinSet"] T Panic q by (simp add: verified_by_def)
    qed
  next
    case (Err e)
    then show thesis using silent 1 q run main by (auto simp: andThen_def)
  next
    case (Panic e)
    then show thesis using silent 1 q run main by (auto simp: andThen_def)
  qed
qed

end
