(* ===== verification/PamSafety.thy ===== *)
theory PamSafety imports PamPin PinutilTest begin

text \<open>
  The PAM module over a deployed \<open>pinutil\<close>: an authentication succeeds only with a right PIN
  and attempts left, wherever the PIN came from and whatever fails, and a wrong one costs at most two attempts.
\<close>

section \<open>The PIN on its way through the pipe\<close>

lemma ws_front_snoc:
  assumes "s \<noteq> []"
  shows "ws_front (s @ [CHR 0x0A]) = ws_front s"
proof -
  have "prefix p (s @ [CHR 0x0A]) \<longleftrightarrow> prefix p s" if "p \<in> set ws_chars" for p
  proof -
    have "p \<noteq> s @ [CHR 0x0A]"
    proof
      assume "p = s @ [CHR 0x0A]"
      then have "CHR 0x0A \<in> set p" "p \<noteq> [CHR 0x0A]" using assms by auto
      then show False using that by (auto simp: ws_chars_def)
    qed
    then show ?thesis by (auto simp: prefix_snoc)
  qed
  then have "find (\<lambda>p. prefix p (s @ [CHR 0x0A])) ws_chars = find (\<lambda>p. prefix p s) ws_chars"
    by (intro find_cong) auto
  then show ?thesis by (simp add: ws_front_def ws_hit_def)
qed

lemma trim_start_snoc:
  "trim_start (s @ [CHR 0x0A]) = (if trim_start s = [] then [] else trim_start s @ [CHR 0x0A])"
proof (induction s rule: trim_start.induct)
  case (1 s)
  show ?case
  proof (cases "s = []")
    case True
    have e: "trim_start [] = []" by (rule trim_start_id) (simp add: ws_front_def ws_hit_0 ws_chars_def)
    have "ws_front [CHR 0x0A] = 1" by (simp add: ws_front_def ws_hit_def ws_chars_def)
    then have "trim_start [CHR 0x0A] = []" using e by (subst trim_start.simps) simp
    then show ?thesis using True e by simp
  next
    case False
    note f = ws_front_snoc [OF False]
    show ?thesis
    proof (cases "ws_front s = 0")
      case True
      then show ?thesis using f False by (simp add: trim_start_id)
    next
      case nz: False
      then have "trim_start (s @ [CHR 0x0A]) = trim_start (drop (ws_front s) s @ [CHR 0x0A])"
        using f ws_front_le [of s] by (subst trim_start.simps) simp
      also have "\<dots> = (if trim_start s = [] then [] else trim_start s @ [CHR 0x0A])"
        using 1 nz by (subst (2 3) trim_start.simps) simp
      finally show ?thesis .
    qed
  qed
qed

lemma trim_end_snoc: "trim_end (s @ [CHR 0x0A]) = trim_end s"
proof -
  have "ws_back (s @ [CHR 0x0A]) = 1"
    by (simp add: ws_back_def ws_hit_def ws_chars_def)
  then show ?thesis by (subst trim_end.simps) simp
qed

lemma trim_Nil: "trim [] = []"
proof -
  have "trim_start [] = []" by (rule trim_start_id) (simp add: ws_front_def ws_hit_0 ws_chars_def)
  moreover have "trim_end [] = []" by (rule trim_end_id) (simp add: ws_back_def ws_hit_0 ws_chars_def)
  ultimately show ?thesis by (simp add: trim_def)
qed

lemma trim_snoc: "trim (s @ [CHR 0x0A]) = trim s"
  using trim_Nil by (auto simp: trim_def trim_start_snoc trim_end_snoc)

text \<open>The PIN the helper verifies when it is given a PIN: its first line, trimmed.\<close>

definition sent_pin :: "pin \<Rightarrow> pin" where
  "sent_pin pin = trim (take_line pin)"

lemma take_line_none:
  assumes "newline \<notin> set s"
  shows "take_line s = s"
proof -
  have "takeWhile (\<lambda>c. c \<noteq> newline) s = s" using assms by (subst takeWhile_eq_all_conv) auto
  then show ?thesis using assms by (simp add: take_line_def)
qed

lemma take_line_newline: "trim (take_line (pin @ [newline])) = sent_pin pin"
proof (cases "newline \<in> set pin")
  case True
  then have "takeWhile (\<lambda>c. c \<noteq> newline) (pin @ [newline]) = takeWhile (\<lambda>c. c \<noteq> newline) pin"
    by (intro takeWhile_append1) auto
  then show ?thesis using True by (simp add: sent_pin_def take_line_def)
next
  case False
  then have "takeWhile (\<lambda>c. c \<noteq> newline) (pin @ [newline]) = pin"
    by (subst takeWhile_append2) auto
  then have "take_line (pin @ [newline]) = pin @ [newline]" by (simp add: take_line_def)
  then show ?thesis using False trim_snoc [of pin] take_line_none [of pin] by (simp add: sent_pin_def)
qed

lemma sent_pin_id: "newline \<notin> set pin \<Longrightarrow> trim pin = pin \<Longrightarrow> sent_pin pin = pin"
  by (simp add: sent_pin_def take_line_none)

section \<open>The deployment\<close>

text \<open>
  Running the helper: it starts with an empty output and, as its input, the PIN's line, or what
  got through the pipe; it sees the TPM as it is and leaves it as it left it; its output is what it
  printed.  A call that fails may have run the helper or not.
\<close>

definition ran ::
  "('w, 'z) os_scheme \<Rightarrow> ('w, 'v) view_scheme \<Rightarrow> ('w, 'q) pipes_scheme \<Rightarrow> string list \<Rightarrow>
     string set \<Rightarrow> nv_map \<Rightarrow> nv_map \<Rightarrow> (unit, main_stop) res \<Rightarrow> string \<Rightarrow> bool"
where
  "ran E V Q args inputs N N' r0 printed \<longleftrightarrow>
     (\<exists>w0 w1. nvs V w0 = N \<and> inp Q w0 \<in> inputs \<and> out Q w0 = [] \<and>
        pinutil_main E args w0 = (r0, w1) \<and> nvs V w1 = N' \<and> out Q w1 = printed)"

definition helper_law ::
  "('w, 'y) pam_scheme \<Rightarrow> ('w, 'z) os_scheme \<Rightarrow> ('w, 'v) view_scheme \<Rightarrow> ('w, 'q) pipes_scheme \<Rightarrow> bool"
where
  "helper_law P E V Q \<longleftrightarrow>
     (\<forall>args pin w. wp (feed_helper P args pin)
        (\<lambda>r w'. (nvs V w' = nvs V w \<and> (\<forall>x. r \<noteq> Ok x)) \<or>
           (\<exists>r0 printed. ran E V Q args {[], pin, pin @ [newline]} (nvs V w) (nvs V w') r0 printed \<and>
              (\<forall>x. r = Ok x \<longrightarrow> out_bytes x = printed))) w) \<and>
     (\<forall>args w. wp (command_output P (helper_path P) args)
        (\<lambda>r w'. (nvs V w' = nvs V w \<and> (\<forall>x. r \<noteq> Ok x)) \<or>
           (\<exists>r0 printed. ran E V Q args UNIV (nvs V w) (nvs V w') r0 printed \<and>
              (\<forall>x. r = Ok x \<longrightarrow> out_bytes x = printed \<and> exit_success x = (exit_code r0 = 0)))) w)"

text \<open>The decoder reads back a report of type \<open>Result<(), PinError>\<close>; no text is no report, and a
  part of a report is no other one.\<close>

definition json_faithful :: "('w, 'y) pam_scheme \<Rightarrow> ('w, 'z) os_scheme \<Rightarrow> bool" where
  "json_faithful P E \<longleftrightarrow>
     (\<forall>y t z. reported E y t \<longrightarrow> json_unit P (from_utf8_lossy t) = Inr z \<longrightarrow> z = y) \<and>
     (\<forall>z. json_unit P [] \<noteq> Inr z)"

definition status_invocation :: "('w, 'z) os_scheme \<Rightarrow> string list \<Rightarrow> string \<Rightarrow> bool" where
  "status_invocation E args name \<longleftrightarrow>
     (\<exists>c. parse_cli E args = Ok c \<and> command c = Status (Some name))"

definition deployed ::
  "('w, 'y) pam_scheme \<Rightarrow> ('w, 'z) os_scheme \<Rightarrow> ('w, 'v) view_scheme \<Rightarrow> ('w, 'q) pipes_scheme \<Rightarrow>
     string \<Rightarrow> u32 \<Rightarrow> bool"
where
  "deployed P E V Q user uid \<longleftrightarrow>
     helper_law P E V Q \<and> stdio_law E Q \<and> platform_quiet E V \<and> json_faithful P E \<and>
     test_invocation E [''-m'', ''test'', user] user \<and>
     status_invocation E [''-m'', ''status'', user] user \<and>
     get_uid_from_username (user_table E) user = Ok uid"

text \<open>The conversation does not reach the TPM.\<close>

definition quiet_io :: "('w, 'v) view_scheme \<Rightarrow> 'w pam_io \<Rightarrow> bool" where
  "quiet_io V io \<longleftrightarrow> (\<forall>f style txt. io = Some f \<longrightarrow> (\<forall>w. nvs V (snd (f style txt w)) = nvs V w))"

section \<open>What a step costs\<close>

text \<open>At most \<open>k\<close> attempts used, the stored PIN as it was.\<close>

definition costs ::
  "('w, 'z) os_scheme \<Rightarrow> ('w, 'v) view_scheme \<Rightarrow> u32 \<Rightarrow> nat \<Rightarrow> 'w \<Rightarrow> 'w \<Rightarrow> bool"
where
  "costs E V uid k w w' \<longleftrightarrow>
     guarded E V uid w' \<and> attempts_left E uid (nvs V w') \<le> attempts_left E uid (nvs V w) \<and>
     attempts_left E uid (nvs V w) \<le> attempts_left E uid (nvs V w') + k \<and>
     pin_matches E uid (nvs V w') = pin_matches E uid (nvs V w)"

lemma guarded_nvs: "guarded E V uid w \<Longrightarrow> nvs V w' = nvs V w \<Longrightarrow> guarded E V uid w'"
  by (simp add: guarded_def)

lemma costs_same: "guarded E V uid w \<Longrightarrow> nvs V w' = nvs V w \<Longrightarrow> costs E V uid k w w'"
  using guarded_nvs [of E V uid w w'] by (simp add: costs_def)

lemma costs_trans: "costs E V uid j w w1 \<Longrightarrow> costs E V uid k w1 w2 \<Longrightarrow> costs E V uid (j + k) w w2"
  by (auto simp: costs_def)

lemma costs_mono: "costs E V uid j w w' \<Longrightarrow> j \<le> k \<Longrightarrow> costs E V uid k w w'"
  by (auto simp: costs_def)

text \<open>Not to be accepted: not the stored PIN, or no attempt left.\<close>

definition hopeless :: "('w, 'z) os_scheme \<Rightarrow> ('w, 'v) view_scheme \<Rightarrow> u32 \<Rightarrow> pin \<Rightarrow> 'w \<Rightarrow> bool" where
  "hopeless E V uid pin w \<longleftrightarrow>
     \<not> pin_matches E uid (nvs V w) pin \<or> attempts_left E uid (nvs V w) = 0"

lemma hopeless_costs: "hopeless E V uid pin w \<Longrightarrow> costs E V uid k w w' \<Longrightarrow> hopeless E V uid pin w'"
  by (auto simp: hopeless_def costs_def)

lemma verified_hopeless:
  assumes g: "guarded E V uid w" and h: "hopeless E V uid (trim line) w"
    and u: "get_uid_from_username (user_table E) user = Ok uid"
    and v: "verified_by E V user line w w' success"
  shows "\<not> success \<and> costs E V uid 1 w w'"
proof -
  from v u obtain m w1 w2 r where p: "nvs V w1 = nvs V w" "verify_pin E m uid (trim line) w1 = (r, w2)"
      "nvs V w' = nvs V w2" "success = (\<exists>s. r = Ok (VerifySuccess s))"
    unfolding verified_by_def by (auto simp: pin_new_def Let_def split: res.splits)
  have g1: "guarded E V uid w1" using g p(1) by (rule guarded_nvs)
  have bad: "\<not> pin_matches E uid (nvs V w1) (trim line) \<or> attempts_left E uid (nvs V w1) = 0"
    using h p(1) by (simp add: hopeless_def)
  have a: "verify_attempt E m uid (trim line) w1 = (success, w2)"
    using p(2,4) by (auto simp: verify_attempt_iff)
  have "\<not> success" by (rule guard.wrong_refused [OF g1 bad a])
  moreover have "costs E V uid 1 w1 w2"
    using wrong_attempt [OF g1 bad p(2)]
  proof (elim disjE exE conjE)
    assume "nvs V w2 = nvs V w1"
    then show ?thesis using g1 by (rule_tac costs_same)
  next
    fix x i assume "guarded E V uid w2" "nv_index_for_uid E uid = Ok i" "pin_reject x i (nvs V w1) (nvs V w2)"
    then show ?thesis using pin_reject_effect(1-3) [of E uid i x "nvs V w1" "nvs V w2"]
      by (simp add: costs_def)
  qed
  ultimately show ?thesis using p(1,3) guarded_nvs [of E V uid w2 w'] by (simp add: costs_def)
qed

section \<open>The helper, seen from the module\<close>

lemma panic_then: "andThen (panic s) k = panic s"
  by (simp add: andThen_def panic_def fun_eq_iff)

lemma quiet_status:
  assumes K: "platform_quiet E V" and I: "status_invocation E args name"
  shows "keeps_nv V (pinutil_main E args)"
proof -
  have S: "tss_sound E V" "terminal_evolves E (nvs V) (=)"
    using K by (simp_all add: platform_quiet_def)
  have q: "keeps_nv V (new_manager E)" "keeps_nv V (get_attempt_info E uid)" for uid
    unfolding new_manager_def manager_new_def with_tcti_def get_attempt_info_def
    by (intro keep_rules queries_keep S)+
  have sb: "keeps_nv V (pinutil_sandbox E)" "keeps_nv V (act (set_env E k v))" for k v
    using S(2) by (auto simp: pinutil_sandbox_def Let_def terminal_evolves_def evolves_act
        intro!: unchanged.evolves_intros unchanged.branch_evolves)
  have status: "keeps_nv V (show_status E n machine)" for n machine
    unfolding show_status_def print_status_def
    by (intro unchanged.evolves_intros unchanged.branch_evolves q quiet_dialogue [OF K])
  obtain c where c: "parse_cli E args = Ok c" "command c = Status (Some name)"
    using I by (auto simp: status_invocation_def)
  have "keeps_nv V (run_command E (command c) machine)" for machine
    by (auto simp: c(2) for_user_def handle_result_def
        intro!: unchanged.evolves_intros unchanged.branch_evolves status quiet_dialogue [OF K])
  then show ?thesis
    unfolding pinutil_main_def Let_def c(1) ok_then
    by (intro unchanged.evolves_intros unchanged.branch_evolves sb quiet_dialogue [OF K])
qed

lemma status_keeps:
  assumes D: "deployed P E V Q user uid"
  shows "evolves (nvs V) (=) (run_pinutil_status P user)"
proof -
  have q: "keeps_nv V (pinutil_main E [''-m'', ''status'', user])"
    using D quiet_status by (auto simp: deployed_def)
  have "evolves (nvs V) (=) (command_output P (helper_path P) [''-m'', ''status'', user])"
  proof (rule evolvesI)
    fix w
    have "wp (command_output P (helper_path P) [''-m'', ''status'', user])
        (\<lambda>r w'. (nvs V w' = nvs V w \<and> (\<forall>x. r \<noteq> Ok x)) \<or>
           (\<exists>r0 printed. ran E V Q [''-m'', ''status'', user] UNIV (nvs V w) (nvs V w') r0 printed \<and>
              (\<forall>x. r = Ok x \<longrightarrow> out_bytes x = printed \<and> exit_success x = (exit_code r0 = 0)))) w"
      using D by (simp add: deployed_def helper_law_def)
    then show "wp (command_output P (helper_path P) [''-m'', ''status'', user]) (\<lambda>r w'. nvs V w = nvs V w') w"
      by (rule wp_mono) (use evolvesD [OF q] in \<open>fastforce simp: ran_def\<close>)
  qed
  then show ?thesis
    unfolding run_pinutil_status_def
    by (intro unchanged.evolves_intros unchanged.branch_evolves)
qed

lemma lossy_Nil: "from_utf8_lossy [] = []"
  by (simp add: from_utf8_lossy.simps)

lemma test_outcome_success: "test_outcome_of z = TestSuccess \<longleftrightarrow> z = Inr ()"
  by (cases z rule: test_outcome_of.cases) auto

text \<open>One test with a hopeless PIN: refused, at the price of at most one attempt.\<close>

lemma ran_test:
  assumes D: "deployed P E V Q user uid" and g: "guarded E V uid w"
    and h: "hopeless E V uid (sent_pin pin) w"
    and run: "ran E V Q [''-m'', ''test'', user] {[], pin, pin @ [newline]} (nvs V w) (nvs V w') r0 printed"
  shows "costs E V uid 1 w w' \<and> json_unit P (from_utf8_lossy printed) \<noteq> Inr (Inr ())"
proof -
  note d = D [unfolded deployed_def]
  from run obtain w0 w1 where m: "nvs V w0 = nvs V w" "inp Q w0 \<in> {[], pin, pin @ [newline]}" "out Q w0 = []"
      "pinutil_main E [''-m'', ''test'', user] w0 = (r0, w1)" "nvs V w1 = nvs V w'" "out Q w1 = printed"
    by (auto simp: ran_def)
  have g0: "guarded E V uid w0" by (rule guarded_nvs [OF g m(1)])
  have moved: "costs E V uid 1 w w'" if "costs E V uid 1 w0 w1"
    using that m(1,5) guarded_nvs [of E V uid w1 w'] by (simp add: costs_def)
  have "stdio_law E Q" "platform_quiet E V" "test_invocation E [''-m'', ''test'', user] user"
    using d by simp_all
  then show ?thesis using m(4)
  proof (cases rule: test_run)
    case silent
    then show ?thesis using moved costs_same [OF g0] m(3,6) lossy_Nil d by (simp add: json_faithful_def)
  next
    case (tested success y)
    have "\<not> success \<and> costs E V uid 1 w0 w1"
    proof (cases "nvs V w1 = nvs V w0 \<and> \<not> success")
      case False
      then have v: "verified_by E V user (take_line (inp Q w0)) w0 w1 success" using tested(1) by blast
      have "hopeless E V uid (trim (take_line (inp Q w0))) w0 \<or> inp Q w0 = []"
        using m(1,2) h take_line_newline [of pin] by (auto simp: hopeless_def sent_pin_def)
      then show ?thesis
      proof
        assume "hopeless E V uid (trim (take_line (inp Q w0))) w0"
        then show ?thesis using verified_hopeless [OF g0 _ _ v] d by simp
      next
        assume "inp Q w0 = []"
        then have "verified_by E V user [] w0 w1 success" using v by (simp add: take_line_def)
        then show ?thesis by (auto simp: verified_by_def pin_new_errors trim_Nil)
      qed
    qed (use costs_same [OF g0] in simp)
    moreover have "json_unit P (from_utf8_lossy printed) \<noteq> Inr (Inr ())" if "\<not> success"
      using that tested(2,3) m(3,6) lossy_Nil d by (fastforce simp: json_faithful_def)
    ultimately show ?thesis using moved by simp
  qed
qed

lemma hopeless_test:
  assumes D: "deployed P E V Q user uid" and g: "guarded E V uid w"
    and h: "hopeless E V uid (sent_pin pin) w" and run: "run_pinutil_test P user pin w = (r, w')"
  shows "r \<noteq> Ok TestSuccess \<and> costs E V uid 1 w w'"
proof -
  let ?m = "feed_helper P [''-m'', ''test'', user] pin"
  obtain r1 w1 where 1: "?m w = (r1, w1)" by fastforce
  have "wp ?m (\<lambda>r w'. (nvs V w' = nvs V w \<and> (\<forall>x. r \<noteq> Ok x)) \<or>
      (\<exists>r0 printed. ran E V Q [''-m'', ''test'', user] {[], pin, pin @ [newline]} (nvs V w) (nvs V w') r0 printed \<and>
         (\<forall>x. r = Ok x \<longrightarrow> out_bytes x = printed))) w"
    using D by (simp add: deployed_def helper_law_def)
  from wpD [OF this 1] ran_test [OF D g h]
  have "costs E V uid 1 w w1 \<and>
      (\<forall>x. r1 = Ok x \<longrightarrow> json_unit P (from_utf8_lossy (out_bytes x)) \<noteq> Inr (Inr ()))"
    using costs_same [OF g] by fastforce
  moreover have "w' = w1 \<and> (r = Ok TestSuccess \<longrightarrow>
      (\<exists>x. r1 = Ok x \<and> json_unit P (from_utf8_lossy (out_bytes x)) = Inr (Inr ())))"
    using run 1 by (cases r1)
      (auto simp: run_pinutil_test_def andThen_def run_simps test_outcome_success split: sum.splits)
  ultimately show ?thesis by auto
qed

section \<open>An authentication with hopeless PINs\<close>

text \<open>The PINs an authentication can come by: the usable first-pass token, when the module is told
  to look at it, and the usable answers of the conversation.\<close>

definition offered ::
  "('w, 'y) pam_scheme \<Rightarrow> 'w pam_io \<Rightarrow> module_args \<Rightarrow> string option \<Rightarrow> pin \<Rightarrow> bool"
where
  "offered P io a authtok pin \<longleftrightarrow>
     (wants_first_pass a \<and> (\<exists>t. authtok = Some t \<and> usable_pin t (pam_policy P) = Some pin)) \<or>
     (\<exists>f prompt w s. io = Some f \<and> fst (f PROMPT_ECHO_OFF prompt w) = (SUCCESS, Some (Some s)) \<and>
        usable_pin (trim s) (pam_policy P) = Some pin)"

text \<open>A computation that does not succeed and uses at most \<open>k\<close> attempts.\<close>

abbreviation refuses ::
  "('w, 'z) os_scheme \<Rightarrow> ('w, 'v) view_scheme \<Rightarrow> u32 \<Rightarrow> nat \<Rightarrow> ('w, pam_code, pam_code) eff \<Rightarrow> 'w \<Rightarrow> bool"
where
  "refuses E V uid k m w \<equiv> wp m (\<lambda>r w'. r \<noteq> Ok SUCCESS \<and> costs E V uid k w w') w"

lemma ffi_wp: "wp (ffi m) Q w \<longleftrightarrow> (case m w of ((st, x), w') \<Rightarrow> Q (if st \<noteq> SUCCESS then Err st else Ok x) w')"
  by (auto simp: wp_def ffi_def split: prod.splits)

lemma converse_wp:
  assumes "quiet_io V io"
  shows "wp (converse io style txt)
    (\<lambda>r w'. nvs V w' = nvs V w \<and> (\<forall>c. r = Err c \<longrightarrow> c \<noteq> SUCCESS) \<and>
       (\<forall>x. r = Ok x \<longrightarrow> (\<exists>f. io = Some f \<and> fst (f style txt w) = (SUCCESS, x)))) w"
proof (cases io)
  case (Some f)
  obtain st x w' where "f style txt w = ((st, x), w')" by (metis surj_pair)
  moreover from this have "nvs V w' = nvs V w" using assms Some unfolding quiet_io_def by (metis snd_conv)
  ultimately show ?thesis using Some by (simp add: converse_def wp_simps ffi_wp)
qed (simp add: converse_def wp_simps)

lemma send_wp:
  assumes "quiet_io V io"
  shows "wp (send_message io style txt) (\<lambda>r w'. nvs V w' = nvs V w \<and> (\<forall>c. r = Err c \<longrightarrow> c \<noteq> SUCCESS)) w"
  unfolding send_message_def wp_simps by (rule wp_mono [OF converse_wp [OF assms]]) auto

lemma refuse_wp:
  assumes "quiet_io V io" "guarded E V uid w" "code \<noteq> SUCCESS"
  shows "refuses E V uid k (refuse_with (io_err io txt) code) w"
    "refuses E V uid k (refuse_with (io_info io txt) code) w"
  unfolding refuse_with_def io_err_def io_info_def wp_simps
  by (rule wp_mono [OF send_wp [OF assms(1)]], use costs_same [OF assms(2)] assms(3) in auto)+

lemma finalize_wp:
  assumes "quiet_io V io" "guarded E V uid w" "outcome \<noteq> TestSuccess"
  shows "refuses E V uid k (finalize_outcome P io outcome) w"
  using assms(3) by (cases outcome) (simp_all add: refuse_wp assms(1,2))

lemma hidden_wp:
  assumes "quiet_io V io"
  shows "wp (prompt_hidden io prompt)
    (\<lambda>r w'. nvs V w' = nvs V w \<and> (\<forall>c. r = Err c \<longrightarrow> c \<noteq> SUCCESS) \<and>
       (\<forall>x. r = Ok x \<longrightarrow> (\<exists>f s w0. io = Some f \<and> x = trim s \<and>
          fst (f PROMPT_ECHO_OFF prompt w0) = (SUCCESS, Some (Some s))))) w"
  unfolding prompt_hidden_def wp_simps
  by (rule wp_mono [OF converse_wp [OF assms]]) (fastforce simp: wp_simps split: option.splits)

lemma prompt_wp:
  assumes "quiet_io V io"
  shows "wp (prompt_for_pin P io used limit)
    (\<lambda>r w'. nvs V w' = nvs V w \<and> (\<forall>c. r = Err c \<longrightarrow> c \<noteq> SUCCESS) \<and>
       (\<forall>pin. r = Ok pin \<longrightarrow> offered P io a authtok pin)) w"
proof -
  have ask: "wp (ask_pin P io prompt)
     (\<lambda>r w'. nvs V w' = nvs V w \<and> (\<forall>c. r = Err c \<longrightarrow> c \<noteq> SUCCESS) \<and>
       (\<forall>pin. r = Ok pin \<longrightarrow> offered P io a authtok pin)) w" for prompt
    unfolding ask_pin_def wp_andThen
  proof (rule wp_mono [OF hidden_wp [OF assms]], elim conjE, intro conjI allI impI, goal_cases)
    case (1 r w1 x)
    have say: "wp (andThen (io_err io t) (\<lambda>_. err AUTH_ERR :: ('a, pin, pam_code) eff))
        (\<lambda>r w'. nvs V w' = nvs V w \<and> (\<forall>c. r = Err c \<longrightarrow> c \<noteq> SUCCESS) \<and>
          (\<forall>pin. r = Ok pin \<longrightarrow> offered P io a authtok pin)) w1" for t
      unfolding io_err_def wp_simps by (rule wp_mono [OF send_wp [OF assms]]) (use 1 in auto)
    show ?case
    proof (cases "pin_new x (pam_policy P)")
      case (Ok pin)
      then have "offered P io a authtok pin" using 1 unfolding offered_def usable_pin_def by fastforce
      then show ?thesis using Ok 1 by (simp add: wp_simps)
    next
      case (Err e)
      then show ?thesis using say by (cases e) simp_all
    qed (use 1 in \<open>simp add: wp_simps\<close>)
  qed auto
  show ?thesis
    unfolding prompt_for_pin_def sub_u32_def
    by (auto simp: ok_then wp_err wp_panic panic_then intro: ask)
qed

lemma costs_guarded: "costs E V uid k w w' \<Longrightarrow> guarded E V uid w'"
  by (simp add: costs_def)

lemma refuses_after:
  "costs E V uid j w w1 \<Longrightarrow> refuses E V uid k m w1 \<Longrightarrow> j + k \<le> n \<Longrightarrow> refuses E V uid n (\<lambda>_. m w1) w"
  unfolding wp_def by (auto split: prod.splits dest: costs_trans costs_mono)

lemma test_wp:
  assumes D: "deployed P E V Q user uid" and io: "quiet_io V io" and g: "guarded E V uid w"
    and h: "hopeless E V uid (sent_pin pin) w"
    and k: "\<And>outcome w1. outcome \<noteq> TestSuccess \<Longrightarrow> costs E V uid 1 w w1 \<Longrightarrow> refuses E V uid j (k outcome) w1"
  shows "refuses E V uid (Suc j) (test_or_unavailable P io user pin k) w"
proof -
  obtain r w1 where 1: "run_pinutil_test P user pin w = (r, w1)" by fastforce
  have t: "r \<noteq> Ok TestSuccess" "costs E V uid 1 w w1" using hopeless_test [OF D g h 1] by simp_all
  show ?thesis
  proof (cases r)
    case (Ok outcome)
    then show ?thesis
      using refuses_after [OF t(2) k [OF _ t(2)]] t(1) 1
      by (auto simp: test_or_unavailable_def matchRes_def wp_def)
  next
    case (Err e)
    then show ?thesis
      using refuses_after [OF t(2) refuse_wp(1) [OF io costs_guarded [OF t(2)]], of AUTHINFO_UNAVAIL j "Suc j"] 1
      by (simp add: test_or_unavailable_def matchRes_def wp_def)
  next
    case (Panic s)
    then show ?thesis
      using 1 costs_mono [OF t(2), of "Suc j"] by (simp add: test_or_unavailable_def matchRes_def wp_def)
  qed
qed

lemma prompt_and_test_wp:
  assumes D: "deployed P E V Q user uid" and io: "quiet_io V io" and g: "guarded E V uid w"
    and h: "\<And>pin. offered P io a authtok pin \<Longrightarrow> hopeless E V uid (sent_pin pin) w"
  shows "refuses E V uid 1 (prompt_and_test P io user used limit) w"
proof (cases "limit \<le> used")
  case True
  then show ?thesis using refuse_wp(1) [OF io g] by (simp add: prompt_and_test_def)
next
  case False
  obtain r w1 where 1: "prompt_for_pin P io used limit w = (r, w1)" by fastforce
  from wpD [OF prompt_wp [OF io, where P = P and used = used and limit = limit and a = a and authtok = authtok] this]
  have p: "nvs V w1 = nvs V w" "\<And>c. r = Err c \<Longrightarrow> c \<noteq> SUCCESS" "\<And>pin. r = Ok pin \<Longrightarrow> offered P io a authtok pin"
    by auto
  have g1: "guarded E V uid w1" using g p(1) by (rule guarded_nvs)
  have same: "costs E V uid 0 w w1" using g p(1) by (rule costs_same)
  show ?thesis
  proof (cases r)
    case (Ok pin)
    then have "hopeless E V uid (sent_pin pin) w1" using hopeless_costs [OF h same] p(3) by simp
    then have "refuses E V uid 1 (test_or_unavailable P io user pin (finalize_outcome P io)) w1"
      unfolding One_nat_def by (intro test_wp [OF D io g1] finalize_wp [OF io costs_guarded])
    from refuses_after [OF same this] Ok 1 False show ?thesis
      by (simp add: prompt_and_test_def matchRes_def wp_def)
  next
    case (Err c)
    then show ?thesis using 1 False p(2) costs_mono [OF same, of 1]
      by (simp add: prompt_and_test_def matchRes_def wp_def ok_def)
  next
    case (Panic s)
    then show ?thesis using 1 False costs_mono [OF same, of 1]
      by (simp add: prompt_and_test_def matchRes_def wp_def)
  qed
qed

lemma after_first_wp:
  assumes "deployed P E V Q user uid" "quiet_io V io" "guarded E V uid w" "outcome \<noteq> TestSuccess"
    and "\<And>pin. offered P io a authtok pin \<Longrightarrow> hopeless E V uid (sent_pin pin) w"
  shows "refuses E V uid 1 (after_first_pass P io a user used limit outcome) w"
proof -
  have "refuses E V uid 1 (prompt_and_test P io user u l) w" for u l
    by (rule prompt_and_test_wp [OF assms(1-3,5)])
  then show ?thesis
    using finalize_wp [OF assms(2,3,4), where k = 1 and P = P] assms(4)
    by (auto simp: after_first_pass_def simp del: finalize_outcome.simps)
qed

lemma authenticate_wp:
  assumes D: "deployed P E V Q user uid" and io: "quiet_io V io" and g: "guarded E V uid w"
    and h: "\<And>pin. offered P io a authtok pin \<Longrightarrow> hopeless E V uid (sent_pin pin) w"
  shows "refuses E V uid 2 (authenticate_user P io user a authtok) w"
proof (cases "get_uid_from_username (pam_user_table P) user")
  case (Ok puid)
  obtain r :: "(pin_status, pam_code) res" and w1 where 1: "run_pinutil_status P user w = (r, w1)" by fastforce
  have same: "costs E V uid 0 w w1"
    using costs_same [OF g] evolvesD [OF status_keeps [OF D] 1] by simp
  have g1: "guarded E V uid w1" by (rule costs_guarded [OF same])
  have h1: "hopeless E V uid (sent_pin pin) w1" if "offered P io a authtok pin" for pin
    using hopeless_costs [OF h same] that by simp
  have rest: "refuses E V uid 2 (case st of
            StUnavailable _ \<Rightarrow>
              refuse_with (io_err io (pam_tr P ''pin_auth_unavail'' [])) AUTHINFO_UNAVAIL
          | StNotProvisioned \<Rightarrow>
              refuse_with (io_info io (pam_tr P ''pin_not_conf_for_user'' [])) AUTHINFO_UNAVAIL
          | StLockedOut \<Rightarrow> refuse_with (io_err io (pam_tr P ''account_locked'' [])) MAXTRIES
          | StAvailable used limit \<Rightarrow>
              (case decide_first_pass a authtok (pam_policy P) of
                 Deny \<Rightarrow> refuse_with (io_err io (pam_tr P ''auth_failure'' [])) AUTH_ERR
               | TryFirstPass pin \<Rightarrow>
                   test_or_unavailable P io user pin (after_first_pass P io a user used limit)
               | PromptUser \<Rightarrow> prompt_and_test P io user used limit)) w1" for st
  proof (cases st)
    case (StAvailable used limit)
    show ?thesis
    proof (cases "decide_first_pass a authtok (pam_policy P)")
      case (TryFirstPass pin)
      then have "offered P io a authtok pin"
        by (auto simp: decide_first_pass_def offered_def bind_eq_Some_conv split: if_splits option.splits bool.splits)
      then have "refuses E V uid (Suc 1) (test_or_unavailable P io user pin (after_first_pass P io a user used limit)) w1"
        by (intro test_wp [OF D io g1] after_first_wp [OF D io] h1)
          (auto intro: costs_guarded hopeless_costs h1)
      then show ?thesis using StAvailable TryFirstPass by (simp add: numeral_2_eq_2)
    next
      case PromptUser
      have "refuses E V uid 1 (prompt_and_test P io user used limit) w1"
        by (rule prompt_and_test_wp [OF D io g1 h1])
      then have "refuses E V uid 2 (prompt_and_test P io user used limit) w1"
        by (rule wp_mono) (auto intro: costs_mono)
      then show ?thesis using StAvailable PromptUser by simp
    qed (use StAvailable refuse_wp [OF io g1] in simp)
  qed (use refuse_wp [OF io g1] in simp_all)
  show ?thesis
  proof (cases r)
    case (Ok st)
    then show ?thesis using refuses_after [OF same rest [of st]] 1 \<open>get_uid_from_username (pam_user_table P) user = Ok puid\<close>
      by (simp add: authenticate_user_def andThen_def wp_def)
  next
    case (Err e)
    then have False using 1
      by (auto simp: run_pinutil_status_def matchRes_def run_simps split: prod.splits res.splits sum.splits if_splits)
    then show ?thesis ..
  next
    case (Panic s)
    then show ?thesis using 1 costs_mono [OF same, of 2] \<open>get_uid_from_username (pam_user_table P) user = Ok puid\<close>
      by (simp add: authenticate_user_def andThen_def wp_def)
  qed
next
  case (Err e)
  then show ?thesis using refuse_wp(1) [OF io g] by (simp add: authenticate_user_def)
next
  case (Panic s)
  then show ?thesis using costs_same [OF g] by (simp add: authenticate_user_def wp_simps)
qed

section \<open>Logins as guesses\<close>

definition login ::
  "('w, 'y) pam_scheme \<Rightarrow> 'w pam_io \<Rightarrow> string \<Rightarrow> module_args \<times> string option \<Rightarrow> 'w \<Rightarrow> bool \<times> 'w"
where
  "login P io user g w =
     (case authenticate_user P io user (fst g) (snd g) w of (r, w') \<Rightarrow> (r = Ok SUCCESS, w'))"

definition login_guarded ::
  "('w, 'y) pam_scheme \<Rightarrow> ('w, 'z) os_scheme \<Rightarrow> ('w, 'v) view_scheme \<Rightarrow> ('w, 'q) pipes_scheme \<Rightarrow>
     'w pam_io \<Rightarrow> string \<Rightarrow> u32 \<Rightarrow> 'w \<Rightarrow> bool"
where
  "login_guarded P E V Q io user uid w \<longleftrightarrow>
     deployed P E V Q user uid \<and> quiet_io V io \<and> guarded E V uid w"

lemma login_refused:
  assumes "login_guarded P E V Q io user uid w"
    and "\<not> (\<exists>pin. offered P io (fst g) (snd g) pin \<and> pin_matches E uid (nvs V w) (sent_pin pin)) \<or>
      attempts_left E uid (nvs V w) = 0"
    and "login P io user g w = (b, w')"
  shows "\<not> b \<and> costs E V uid 2 w w'"
proof -
  have "refuses E V uid 2 (authenticate_user P io user (fst g) (snd g)) w"
    by (rule authenticate_wp) (use assms(1,2) in \<open>auto simp: login_guarded_def hopeless_def\<close>)
  then show ?thesis using assms(3) by (auto simp: login_def wp_def split: prod.splits)
qed

interpretation logins: attempt_guard "login P io user" "login_guarded P E V Q io user uid"
  "\<lambda>w. attempts_left E uid (nvs V w)"
  "\<lambda>w g. \<exists>pin. offered P io (fst g) (snd g) pin \<and> pin_matches E uid (nvs V w) (sent_pin pin)"
  for P E V Q io user uid
proof
  fix w g w'
  assume "login_guarded P E V Q io user uid w" "login P io user g w = (True, w')"
  then show "(\<exists>pin. offered P io (fst g) (snd g) pin \<and> pin_matches E uid (nvs V w) (sent_pin pin)) \<and>
      0 < attempts_left E uid (nvs V w)"
    using login_refused [of P E V Q io user uid w g True w'] by blast
next
  fix w g b w'
  assume *: "login_guarded P E V Q io user uid w"
    "\<not> (\<exists>pin. offered P io (fst g) (snd g) pin \<and> pin_matches E uid (nvs V w) (sent_pin pin)) \<or>
      attempts_left E uid (nvs V w) = 0"
    "login P io user g w = (b, w')"
  then show "login_guarded P E V Q io user uid w' \<and> attempts_left E uid (nvs V w') \<le> attempts_left E uid (nvs V w) \<and>
      (\<lambda>g. \<exists>pin. offered P io (fst g) (snd g) pin \<and> pin_matches E uid (nvs V w') (sent_pin pin)) =
      (\<lambda>g. \<exists>pin. offered P io (fst g) (snd g) pin \<and> pin_matches E uid (nvs V w) (sent_pin pin))"
    using login_refused [OF *] by (auto simp: login_guarded_def costs_def)
qed

section \<open>Properties\<close>

text \<open>What libpam tells the module does not reach the TPM, its conversation function neither, and the
  user it names is the one of this login.\<close>

definition libpam_law :: "('w, 'y) pam_scheme \<Rightarrow> ('w, 'v) view_scheme \<Rightarrow> string \<Rightarrow> bool" where
  "libpam_law P V user \<longleftrightarrow>
     (\<forall>w. nvs V (snd (get_item_conv P w)) = nvs V w) \<and> (\<forall>w. nvs V (snd (pam_get_user P w)) = nvs V w) \<and>
     (\<forall>w. nvs V (snd (get_item_authtok P w)) = nvs V w) \<and>
     (\<forall>w io w'. get_item_conv P w = ((SUCCESS, Some io), w') \<longrightarrow> quiet_io V io) \<and>
     (\<forall>w u w'. pam_get_user P w = ((SUCCESS, Some u), w') \<longrightarrow> u = user)"

text \<open>The PINs an authentication comes by: what the user answers to the prompts of the conversation
  libpam hands out, and libpam's authentication token when the module's arguments ask for it.\<close>

definition came_by :: "('w, 'y) pam_scheme \<Rightarrow> module_args \<Rightarrow> pin \<Rightarrow> bool" where
  "came_by P a pin \<longleftrightarrow>
     (\<exists>io authtok. (\<exists>w w'. get_item_conv P w = ((SUCCESS, Some io), w')) \<and>
        (\<forall>t. authtok = Some t \<longrightarrow> (\<exists>w w'. get_item_authtok P w = ((SUCCESS, Some t), w'))) \<and>
        offered P io a authtok pin)"

lemma ffi_cases:
  "ffi m w = (Ok x, w') \<Longrightarrow> m w = ((SUCCESS, x), w')" "ffi m w = (Err c, w') \<Longrightarrow> c \<noteq> SUCCESS"
  by (auto simp: ffi_def split: prod.splits if_splits)

lemma item_cases:
  "pam_io_new P w = (Ok io, w') \<Longrightarrow> get_item_conv P w = ((SUCCESS, Some io), w')"
  "get_username P w = (Ok u, w') \<Longrightarrow> pam_get_user P w = ((SUCCESS, Some u), w')"
  "get_pam_authtok P w = (Ok t, w') \<Longrightarrow> \<exists>item. get_item_authtok P w = ((SUCCESS, item), w') \<and> t \<in> {None, item}"
  "pam_io_new P w = (Err c, w') \<Longrightarrow> c \<noteq> SUCCESS" "get_username P w = (Err c, w') \<Longrightarrow> c \<noteq> SUCCESS"
  "get_pam_authtok P w = (Err c, w') \<Longrightarrow> c \<noteq> SUCCESS"
  by (auto simp: pam_io_new_def get_username_def get_pam_authtok_def run_simps
      elim!: andThenE dest!: ffi_cases split: option.splits if_splits)

lemma entry_inversion:
  assumes "pam_sm_authenticate P argc argv w = (Ok SUCCESS, w')"
  shows "\<exists>io w1 user w2 authtok w3. get_item_conv P w = ((SUCCESS, Some io), w1) \<and>
     pam_get_user P w1 = ((SUCCESS, Some user), w2) \<and>
     (w3 = w2 \<and> authtok = None \<or> (\<exists>item. get_item_authtok P w2 = ((SUCCESS, item), w3) \<and> authtok \<in> {None, item})) \<and>
     authenticate_user P io user (from_strs (argv_to_strings argc argv)) authtok w3 = (Ok SUCCESS, w')"
  using assms unfolding pam_sm_authenticate_def Let_def
proof (cases rule: matchResE)
  case (Ok io w1)
  from Ok(2) show ?thesis
  proof (cases rule: matchResE)
    case user: (Ok user w2)
    from user(2) show ?thesis
    proof (cases rule: matchResE)
      case tok: (Ok authtok w3)
      from tok(1) have "w3 = w2 \<and> authtok = None \<or>
          (\<exists>item. get_item_authtok P w2 = ((SUCCESS, item), w3) \<and> authtok \<in> {None, item})"
        using item_cases(3) [of P w2 authtok w3] by (simp add: ok_run split: if_splits)
      then show ?thesis using item_cases(1) [OF Ok(1)] item_cases(2) [OF user(1)] tok(2) by blast
    qed (auto simp: run_simps split: if_splits dest: item_cases(6))
  qed (auto simp: ignore_def run_simps elim!: andThenE dest: item_cases(5))
qed (auto simp: run_simps dest: item_cases(4))



text \<open>C10: A user without attempts left is refused by every one of a sequence of authentications, with
  whatever PINs, right ones included, and whatever module arguments.\<close>
theorem pam_lockout_is_final:
  assumes "deployed P E V Q user uid" and "quiet_io V io" and "guarded E V uid w"
    and "attempts_left E uid (nvs V w) = 0"
    and "run_attempts (login P io user) guesses w = (bs, w')"
  shows "True \<notin> set bs \<and> attempts_left E uid (nvs V w') = 0"
  using logins.locked_forever [of P E V Q io user uid w guesses bs w'] assms
  by (simp add: login_guarded_def)

end
