(* ===== verification/ManagerLive.thy ===== *)
theory ManagerLive imports Lockout begin

text \<open>
  The PIN manager on a TPM that meets \<^const>\<open>tss_live\<close>: what each operation returns and
  leaves, branch by branch, on well-formed indices.
\<close>

section \<open>Calls as rules\<close>

lemma wp_seq:
  assumes "wp m (\<lambda>r w1. \<exists>x. r = Ok x \<and> R x w1) w" and "\<And>x w1. R x w1 \<Longrightarrow> wp (k x) Q w1"
  shows "wp (andThen m k) Q w"
proof (rule wpI)
  fix r w' assume run: "andThen m k w = (r, w')"
  obtain x w1 where "m w = (Ok x, w1)" "R x w1"
    using assms(1) by (auto simp: wp_def split: prod.splits)
  then show "Q r w'" using run wpD [OF assms(2)] by (simp add: andThen_def)
qed

lemma wp_lift:
  "wp m (\<lambda>r w1. \<exists>x. r = Ok x \<and> R x w1) w \<Longrightarrow> wp (liftTss T m) (\<lambda>r w1. \<exists>x. r = Ok x \<and> R x w1) w"
  by (auto simp: wp_def mapErr_def matchRes_def ok_def split: prod.splits)

lemma wp_OkI: "m w = (Ok x, w1) \<Longrightarrow> R x w1 \<Longrightarrow> wp m (\<lambda>r w1. \<exists>x. r = Ok x \<and> R x w1) w"
  by (simp add: wp_def)

lemma live_sound: "tss_live T V \<Longrightarrow> tss_sound T V"
  by (simp add: tss_live_def)

lemma live_parts:
  assumes "tss_live T V"
  shows "live_checks T" "live_sessions T V" "live_handles T V" "live_nv T V"
  using assms by (simp_all add: tss_live_def)

lemma live_nullauth:
  assumes "tss_live T V"
  shows "\<exists>w1. nullauth_begin T w = (Ok (), w1) \<and> nvs V w1 = nvs V w \<and> objs V w1 = objs V w"
    and "\<exists>w1. nullauth_end T w = (Ok (), w1) \<and> nvs V w1 = nvs V w"
proof -
  note S = live_sound [OF assms]
  have "fst (nullauth_begin T w) = Ok ()" "fst (nullauth_end T w) = Ok ()"
    using live_parts(2) [OF assms] by (simp_all add: live_sessions_def)
  then obtain w1 w2 where *: "nullauth_begin T w = (Ok (), w1)" "nullauth_end T w = (Ok (), w2)"
    by (metis prod.collapse)
  moreover have "objs V w1 = objs V w"
    using S *(1) by (auto simp: tss_sound_def law_keeps_objs_def dest: evolvesD)
  ultimately show "\<exists>w1. nullauth_begin T w = (Ok (), w1) \<and> nvs V w1 = nvs V w \<and> objs V w1 = objs V w"
    and "\<exists>w1. nullauth_end T w = (Ok (), w1) \<and> nvs V w1 = nvs V w"
    using evolvesD [OF sound_keeps(3) [OF S]] evolvesD [OF sound_keeps(4) [OF S]] by metis+
qed

text \<open>In a null-auth session a closure ends as it would outside of one.\<close>

lemma live_with_nullauth:
  assumes L: "tss_live T V"
    and f: "\<And>w1. nvs V w1 = nvs V w \<Longrightarrow> objs V w1 = objs V w \<Longrightarrow> wp f (\<lambda>r w2. P r (nvs V w2)) w1"
  shows "wp (with_nullauth T f) (\<lambda>r w'. P r (nvs V w')) w"
proof (rule wpI)
  fix r w' assume run: "with_nullauth T f w = (r, w')"
  obtain w1 where 1: "nullauth_begin T w = (Ok (), w1)" "nvs V w1 = nvs V w" "objs V w1 = objs V w"
    using live_nullauth(1) [OF L] by blast
  obtain r2 w2 where 2: "f w1 = (r2, w2)" by fastforce
  obtain w3 where 3: "nullauth_end T w2 = (Ok (), w3)" "nvs V w3 = nvs V w2"
    using live_nullauth(2) [OF L] by blast
  have "P r2 (nvs V w2)" using wpD [OF f [OF 1(2,3)] 2] .
  then show "P r (nvs V w')"
    using run 1(1) 2 3 by (cases r2) (auto simp: with_nullauth_def andThen_def matchRes_def ok_def err_def)
qed

lemma wp_then_clear:
  assumes "tss_sound T V" and "wp m (\<lambda>r w'. P r (nvs V w')) w"
  shows "wp (then_clear T m) (\<lambda>r w'. P r (nvs V w')) w"
proof (rule wpI)
  fix r w' assume "then_clear T m w = (r, w')"
  then show "P r (nvs V w')" by (rule then_clear_D [OF assms(1)]) (metis wpD assms(2))
qed

lemma live_restart:
  assumes "tss_live T V" "tcti_check T (mgr_tcti_spec m) = None"
  shows "\<exists>w1. restart_context T m w = (Ok (), w1) \<and> nvs V w1 = nvs V w"
proof -
  have "fst (context_new T (mgr_tcti_spec m) w) = Ok ()"
    using live_parts(2) [OF assms(1)] assms(2) by (simp add: live_sessions_def)
  then have "fst (restart_context T m w) = Ok ()"
    using assms(2) by (auto simp: restart_context_def parse_tcti_spec_def andThen_def pure_def mapErr_def
        matchRes_def ok_def split: prod.splits)
  then show ?thesis
    using restart_context_D [OF live_sound [OF assms(1)]] by (metis prod.collapse)
qed

lemma live_clear:
  "tss_live T V \<Longrightarrow> \<exists>w1. clear_sessions T w = (Ok () :: (unit, 'e) res, w1) \<and> nvs V w1 = nvs V w"
  using session_hooks(4) [OF live_sound] by (simp add: clear_sessions_def act_def)

lemma live_tr_from:
  assumes L: "tss_live T V"
  shows "nvs V w i \<noteq> None \<Longrightarrow> \<exists>h w1. tr_from_tpm_public T i w = (Ok h, w1) \<and> nvs V w1 = nvs V w \<and>
      objs V w1 h = Some (i, []) \<and> pols V w1 = pols V w \<and> pols V w h = None"
    and "nvs V w i = None \<Longrightarrow> \<exists>rc w1. tr_from_tpm_public T i w = (Err (Tss2Error rc), w1) \<and>
      rc_kind T rc = Some RcHandle \<and> nvs V w1 = nvs V w"
proof -
  obtain r w1 where run: "tr_from_tpm_public T i w = (r, w1)" by fastforce
  have "wp (tr_from_tpm_public T i) (\<lambda>r w'. (nvs V w i \<noteq> None \<longrightarrow> (\<exists>h. r = Ok h)) \<and>
           (nvs V w i = None \<longrightarrow>
              (\<exists>rc. r = Err (Tss2Error rc) \<and> rc_kind T rc = Some RcHandle))) w"
    using live_parts(3) [OF L] by (simp add: live_handles_def)
  from wpD [OF this run] run tr_from_D [OF live_sound [OF L] run]
  show "nvs V w i \<noteq> None \<Longrightarrow> \<exists>h w1. tr_from_tpm_public T i w = (Ok h, w1) \<and> nvs V w1 = nvs V w \<and>
      objs V w1 h = Some (i, []) \<and> pols V w1 = pols V w \<and> pols V w h = None"
    and "nvs V w i = None \<Longrightarrow> \<exists>rc w1. tr_from_tpm_public T i w = (Err (Tss2Error rc), w1) \<and>
      rc_kind T rc = Some RcHandle \<and> nvs V w1 = nvs V w"
    by auto
qed

lemma live_set_auth:
  assumes L: "tss_live T V" and h: "objs V w h = Some (i, b)"
  shows "\<exists>w1. tr_set_auth T h a w = (Ok (), w1) \<and> nvs V w1 = nvs V w \<and> objs V w1 h = Some (i, a)"
proof -
  obtain r w1 where run: "tr_set_auth T h a w = (r, w1)" by fastforce
  have "wp (tr_set_auth T h a) (\<lambda>r w'. r = Ok () \<and> pols V w' = pols V w \<and> cur V w' = cur V w) w"
    using live_parts(3) [OF L] h by (simp add: live_handles_def)
  from wpD [OF this run] run tr_set_auth_D [OF live_sound [OF L] run] h show ?thesis by auto
qed

section \<open>Queries\<close>

lemma slot_attributes:
  "slot_entry_ok e \<Longrightarrow> owner_read (index_attributes (e_public e)) \<and>
     auth_read (index_attributes (e_public e)) \<and> policy_write (index_attributes (e_public e)) \<and>
     data_area_size (e_public e) = PIN_DATA_SIZE"
  by (simp add: slot_entry_ok_def pin_slot_attributes_def)

lemma tag_attributes:
  "tag_entry_ok e \<Longrightarrow> owner_read (index_attributes (e_public e)) \<and>
     owner_write (index_attributes (e_public e)) \<and> data_area_size (e_public e) = PIN_VERSION_TAG_SIZE"
  by (simp add: tag_entry_ok_def version_tag_attributes_def)

lemma live_read_full:
  assumes L: "tss_live T V" and attr: "\<And>e. nvs V w i = Some e \<Longrightarrow> owner_read (index_attributes (e_public e))"
  shows "wp (nv_read_full T AuthOwner i)
     (\<lambda>r w'. nvs V w' = nvs V w \<and>
        (case Option.bind (nvs V w i) e_data of
           Some d \<Rightarrow> r = Ok d
         | None \<Rightarrow> \<exists>e. r = Err e \<and> is_missing T e)) w"
proof (rule wpI)
  fix r w' assume run: "nv_read_full T AuthOwner i w = (r, w')"
  have "wp (nv_read_full T AuthOwner i)
        (\<lambda>r w'. (\<forall>e d. nvs V w i = Some e \<longrightarrow> owner_read (index_attributes (e_public e)) \<longrightarrow>
              e_data e = Some d \<longrightarrow> r = Ok d) \<and>
           ((\<forall>e. nvs V w i = Some e \<longrightarrow>
                owner_read (index_attributes (e_public e)) \<and> e_data e = None) \<longrightarrow>
              (\<exists>rc. r = Err (Tss2Error rc) \<and>
                 rc_kind T rc \<in> {Some RcHandle, Some RcNvUninitialized}))) w"
    using live_parts(4) [OF L] by (simp add: live_nv_def)
  from wpD [OF this run] nv_read_full_D(1) [OF live_sound [OF L] run] attr
  show "nvs V w' = nvs V w \<and> (case Option.bind (nvs V w i) e_data of
           Some d \<Rightarrow> r = Ok d | None \<Rightarrow> \<exists>e. r = Err e \<and> is_missing T e)"
    by (cases "nvs V w i") (auto simp: is_missing_iff split: option.splits)
qed

lemma live_read_slot:
  assumes L: "tss_live T V" and ok: "\<And>e. nvs V w i = Some e \<Longrightarrow> slot_entry_ok e"
  shows "\<exists>w'. read_pin_slot_owner T i w = (Ok (Option.bind (nvs V w i) entry_pin), w') \<and> nvs V w' = nvs V w"
proof -
  define f where "f = andThen (nv_read_full T AuthOwner i)
     (\<lambda>data. case from_bytes data of Some slot \<Rightarrow> ok slot | None \<Rightarrow> err (WrapperError WrongValueFromTpm))"
  define P where "P = (\<lambda>r N. N = nvs V w \<and>
     (case Option.bind (nvs V w i) entry_pin of
        Some s \<Rightarrow> r = Ok s | None \<Rightarrow> \<exists>e. r = Err e \<and> is_missing T e))"
  have size: "from_bytes d \<noteq> None" if "nvs V w i = Some e" "e_data e = Some d" for e d
    using ok [OF that(1)] that(2) by (simp add: slot_entry_ok_def from_bytes_None_iff)
  have "wp f (\<lambda>r w2. P r (nvs V w2)) w1" if "nvs V w1 = nvs V w" for w1
    using live_read_full [OF L, of w1 i] slot_attributes ok that
    by (auto simp: f_def P_def wp_def andThen_def ok_def entry_pin_def dest: size
        split: option.splits prod.splits bind_splits res.splits)
  then have "wp (then_clear T (with_nullauth T f)) (\<lambda>r w'. P r (nvs V w')) w"
    by (intro wp_then_clear live_sound [OF L] live_with_nullauth [OF L]) blast
  then show ?thesis
    unfolding read_pin_slot_owner_def f_def [symmetric]
    by (auto simp: P_def wp_def matchRes_def ok_def split: option.splits prod.splits)
qed

lemma live_read_tag:
  assumes L: "tss_live T V" and j: "version_nv_index_for_uid T uid = Ok j"
    and wf: "wf_uid T uid (nvs V w)"
  shows "\<exists>t w'. read_pin_version_tag T uid w = (Ok t, w') \<and> nvs V w' = nvs V w \<and>
     tag_of T uid (nvs V w) = (case t of None \<Rightarrow> None | Some v \<Rightarrow> Some [v])"
proof -
  define P where "P = (\<lambda>r N. N = nvs V w \<and>
     (case tag_of T uid (nvs V w) of
        Some d \<Rightarrow> r = Ok d | None \<Rightarrow> \<exists>e. r = Err e \<and> is_missing T e))"
  have ok: "\<And>e. nvs V w j = Some e \<Longrightarrow> tag_entry_ok e" using wf_uid_tag [OF wf j] .
  have "wp (nv_read_full T AuthOwner j) (\<lambda>r w2. P r (nvs V w2)) w1" if "nvs V w1 = nvs V w" for w1
    using live_read_full [OF L, of w1 j] tag_attributes ok that j
    by (auto simp: P_def wp_def tag_of_def split: option.splits prod.splits bind_splits res.splits)
  then have *: "wp (then_clear T (with_nullauth T (nv_read_full T AuthOwner j))) (\<lambda>r w'. P r (nvs V w')) w"
    by (intro wp_then_clear live_sound [OF L] live_with_nullauth [OF L]) blast
  have size: "length d = PIN_VERSION_TAG_SIZE" if "tag_of T uid (nvs V w) = Some d" for d
    using that ok j by (auto simp: tag_of_def tag_entry_ok_def split: bind_splits)
  show ?thesis
  proof (cases "tag_of T uid (nvs V w)")
    case None
    with * j show ?thesis
      by (auto simp: read_pin_version_tag_def P_def wp_def matchRes_def andThen_def pure_def ok_def
          split: prod.splits)
  next
    case (Some d)
    with size obtain v where "d = [v]" by (auto simp: PIN_VERSION_TAG_SIZE_def length_Suc_conv)
    with * j Some show ?thesis
      by (auto simp: read_pin_version_tag_def P_def wp_def matchRes_def andThen_def pure_def ok_def
          PIN_VERSION_TAG_SIZE_def split: prod.splits)
  qed
qed

section \<open>One comparison\<close>

text \<open>
  The contract of one verification, on the counters alone: the answer and the counters left by
  presenting a right or a wrong value.
\<close>

definition exact_outcome :: "bool \<Rightarrow> pin_data \<Rightarrow> verification_result \<times> pin_data" where
  "exact_outcome right s =
     (if right \<and> pin_open s then
        (let s' = s\<lparr>pinCount := 0\<rparr> in
         (if slot_locked s' then VerifyLockedOut else VerifySuccess s', s'))
      else
        (let s' = (if pin_open s then s\<lparr>pinCount := pinCount s + 1\<rparr> else s) in
         (VerifyInvalid (slot_locked s'), s')))"

lemma set_pin_same:
  "slot_entry_ok e \<Longrightarrow> entry_pin e = Some s \<Longrightarrow> set_pin s e = e"
  by (cases e) (auto simp: slot_entry_ok_def entry_pin_def set_pin_def bind_eq_Some_conv dest: from_bytes_8)

lemma live_auth_check: "tss_live T V \<Longrightarrow> length a \<le> 64 \<Longrightarrow> auth_check T a = None"
  using live_parts(1) [of T V] by (simp add: live_checks_def)

lemma live_pin_read:
  assumes L: "tss_live T V" and h: "objs V w h = Some (i, a)" and e: "nvs V w i = Some e"
    and ok: "slot_entry_ok e" and s: "entry_pin e = Some s" and run: "nv_read T (AuthNvIndex h) h PIN_DATA_SIZE 0 w = (r, w')"
  shows "nvs V w' = (nvs V w)(i \<mapsto> set_pin (snd (exact_outcome (auth_eq (e_auth e) a) s)) e)"
    and "auth_eq (e_auth e) a \<and> pin_open s \<Longrightarrow> r = Ok (to_bytes (s\<lparr>pinCount := 0\<rparr>))"
    and "\<not> (auth_eq (e_auth e) a \<and> pin_open s) \<Longrightarrow> \<exists>er. r = Err er \<and> is_auth_failure T er"
proof -
  have "wp (nv_read T (AuthNvIndex h) h PIN_DATA_SIZE 0)
          (\<lambda>r w'. (auth_eq (e_auth e) a \<and> pin_open s \<longrightarrow> (\<exists>d. r = Ok d)) \<and>
             (\<not> (auth_eq (e_auth e) a \<and> pin_open s) \<longrightarrow>
                (\<exists>rc. r = Err (Tss2Error rc) \<and>
                   rc_kind T rc \<in> {Some RcAuthFail, Some RcBadAuth}))) w"
    using live_parts(4) [OF L] h e slot_entry_pin [OF ok] slot_attributes [OF ok] s
    by (simp add: live_nv_def)
  from wpD [OF this run] have live: "auth_eq (e_auth e) a \<and> pin_open s \<Longrightarrow> \<exists>d. r = Ok d"
    "\<not> (auth_eq (e_auth e) a \<and> pin_open s) \<Longrightarrow> \<exists>rc. r = Err (Tss2Error rc) \<and>
       rc_kind T rc \<in> {Some RcAuthFail, Some RcBadAuth}" by auto
  have ro: "read_outcome T a i (nvs V w) (nvs V w') r"
    using nv_read_D [OF live_sound [OF L] h _ run] e slot_entry_pin [OF ok] by simp
  have same: "(nvs V w)(i \<mapsto> set_pin s e) = nvs V w"
    using set_pin_same [OF ok s] e by auto
  show n: "nvs V w' = (nvs V w)(i \<mapsto> set_pin (snd (exact_outcome (auth_eq (e_auth e) a) s)) e)"
  proof (cases "auth_eq (e_auth e) a \<and> pin_open s")
    case True
    then show ?thesis using live(1) ro e s
      by (auto simp: read_outcome_def pin_accept_def exact_outcome_def Let_def)
  next
    case False
    then obtain rc where "r = Err (Tss2Error rc)" "rc_kind T rc \<in> {Some RcAuthFail, Some RcBadAuth}"
      using live(2) by blast
    then have "pin_reject a i (nvs V w) (nvs V w') \<or> nvs V w' = nvs V w \<and> pin_refuse i (nvs V w)"
      using ro by (auto simp: read_outcome_def)
    then show ?thesis
      using False e s same by (auto simp: pin_reject_def pin_refuse_def exact_outcome_def Let_def)
  qed
  show "auth_eq (e_auth e) a \<and> pin_open s \<Longrightarrow> r = Ok (to_bytes (s\<lparr>pinCount := 0\<rparr>))"
  proof -
    assume acc: "auth_eq (e_auth e) a \<and> pin_open s"
    with live(1) obtain d where d: "r = Ok d" by blast
    then obtain e' where "nvs V w' i = Some e'" "e_data e' = Some d"
      using ro by (auto simp: read_outcome_def)
    then show ?thesis
      using n acc d by (auto simp: exact_outcome_def Let_def set_pin_def)
  qed
  show "\<not> (auth_eq (e_auth e) a \<and> pin_open s) \<Longrightarrow> \<exists>er. r = Err er \<and> is_auth_failure T er"
    using live(2) by (auto simp: is_auth_failure_iff)
qed

lemma live_read_slot_auth:
  assumes L: "tss_live T V" and h: "objs V w h = Some (i, b)" and e: "nvs V w i = Some e"
    and ok: "slot_entry_ok e" and s: "entry_pin e = Some s" and a: "length a \<le> 64"
  shows "wp (with_nullauth T (read_slot_auth T h a))
    (\<lambda>r w'. nvs V w' = (nvs V w)(i \<mapsto> set_pin (snd (exact_outcome (auth_eq (e_auth e) a) s)) e) \<and>
       (if auth_eq (e_auth e) a \<and> pin_open s then r = Ok (to_bytes (s\<lparr>pinCount := 0\<rparr>))
        else \<exists>er. r = Err er \<and> is_auth_failure T er)) w"
proof (rule live_with_nullauth [OF L])
  fix w1 assume w1: "nvs V w1 = nvs V w" "objs V w1 = objs V w"
  obtain w2 where 2: "tr_set_auth T h a w1 = (Ok (), w2)" "nvs V w2 = nvs V w" "objs V w2 h = Some (i, a)"
    using live_set_auth [OF L, of w1 h i b a] h w1 by auto
  obtain r w3 where 3: "nv_read T (AuthNvIndex h) h PIN_DATA_SIZE 0 w2 = (r, w3)" by fastforce
  have "read_slot_auth T h a w1 = (r, w3)"
    using 2(1) 3 live_auth_check [OF L a] by (simp add: read_slot_auth_def checked_def andThen_def ok_def)
  then show "wp (read_slot_auth T h a)
    (\<lambda>r w'. nvs V w' = (nvs V w)(i \<mapsto> set_pin (snd (exact_outcome (auth_eq (e_auth e) a) s)) e) \<and>
       (if auth_eq (e_auth e) a \<and> pin_open s then r = Ok (to_bytes (s\<lparr>pinCount := 0\<rparr>))
        else \<exists>er. r = Err er \<and> is_auth_failure T er)) w1"
    using live_pin_read [OF L 2(3) _ ok s 3] e 2(2) by (simp add: wp_def)
qed

lemma live_verify_exact:
  assumes L: "tss_live T V" and i: "nv_index_for_uid T uid = Ok i" and e: "nvs V w i = Some e"
    and ok: "slot_entry_ok e" and s: "entry_pin e = Some s" and a: "length a \<le> 64"
  shows "\<exists>w'. verify_pin_exact T uid a w = (Ok (fst (exact_outcome (auth_eq (e_auth e) a) s)), w') \<and>
    nvs V w' = (nvs V w)(i \<mapsto> set_pin (snd (exact_outcome (auth_eq (e_auth e) a) s)) e)"
proof -
  let ?o = "exact_outcome (auth_eq (e_auth e) a) s"
  obtain h w1 where 1: "tr_from_tpm_public T i w = (Ok h, w1)" "nvs V w1 = nvs V w" "objs V w1 h = Some (i, [])"
    using live_tr_from(1) [OF L, of w i] e by blast
  obtain r w2 where 2: "with_nullauth T (read_slot_auth T h a) w1 = (r, w2)" by fastforce
  have "nvs V w1 i = Some e" using e 1(2) by simp
  note * = wpD [OF live_read_slot_auth [OF L 1(3) this ok s a] 2]
  have n2: "nvs V w2 = (nvs V w)(i \<mapsto> set_pin (snd ?o) e)" using * 1(2) by simp
  show ?thesis
  proof (cases "auth_eq (e_auth e) a \<and> pin_open s")
    case True
    then have "r = Ok (to_bytes (s\<lparr>pinCount := 0\<rparr>))" using * by simp
    then have "verify_pin_exact T uid a w = (Ok (fst ?o), w2)"
      using True i 1(1) 2 by (simp add: verify_pin_exact_unfold andThen_def matchRes_def pure_def mapErr_def
          ok_def exact_outcome_def Let_def)
    then show ?thesis using n2 by blast
  next
    case False
    then obtain er where er: "r = Err er" "is_auth_failure T er" using * by auto
    have "slot_entry_ok e'" if "nvs V w2 i = Some e'" for e'
      using that n2 slot_entry_set_pin [OF ok] by auto
    then obtain w3 where 3: "read_pin_slot_owner T i w2 = (Ok (Some (snd ?o)), w3)" "nvs V w3 = nvs V w2"
      using live_read_slot [OF L, of w2 i] n2 by auto
    have "verify_pin_exact T uid a w = (Ok (VerifyInvalid (slot_locked (snd ?o))), w3)"
      using i 1(1) 2 er 3(1) by (simp add: verify_pin_exact_unfold andThen_def matchRes_def pure_def mapErr_def ok_def)
    moreover have "fst ?o = VerifyInvalid (slot_locked (snd ?o))"
      using False by (auto simp: exact_outcome_def Let_def)
    ultimately show ?thesis using n2 3(2) by auto
  qed
qed

text \<open>A user without a slot: the missing index surfaces as a TPM error.\<close>

lemma live_verify_absent:
  assumes L: "tss_live T V" and i: "nv_index_for_uid T uid = Ok i" and e: "nvs V w i = None"
  shows "\<exists>w' rc. verify_pin_exact T uid a w = (Err (from_tss T (Tss2Error rc)), w') \<and>
    rc_kind T rc = Some RcHandle \<and> nvs V w' = nvs V w"
proof -
  obtain rc w1 where "tr_from_tpm_public T i w = (Err (Tss2Error rc), w1)" "rc_kind T rc = Some RcHandle"
      "nvs V w1 = nvs V w"
    using live_tr_from(2) [OF L e] by blast
  then show ?thesis
    using i by (auto simp: verify_pin_exact_unfold andThen_def matchRes_def pure_def mapErr_def err_def)
qed

section \<open>Deleting\<close>

lemma live_undefine:
  assumes L: "tss_live T V"
  shows "wp (then_clear T (with_nullauth T
      (andThen (tr_from_tpm_public T k) (\<lambda>handle. nv_undefine_space T handle))))
    (\<lambda>r w'. nvs V w' = (nvs V w)(k := None) \<and>
       (if nvs V w k \<noteq> None then r = Ok () else \<exists>e. r = Err e \<and> is_missing T e)) w"
proof (intro wp_then_clear live_sound [OF L] live_with_nullauth [OF L])
  fix w1 assume n: "nvs V w1 = nvs V w"
  show "wp (andThen (tr_from_tpm_public T k) (\<lambda>handle. nv_undefine_space T handle))
    (\<lambda>r w'. nvs V w' = (nvs V w)(k := None) \<and>
       (if nvs V w k \<noteq> None then r = Ok () else \<exists>e. r = Err e \<and> is_missing T e)) w1"
  proof (cases "nvs V w k = None")
    case True
    obtain rc w2 where "tr_from_tpm_public T k w1 = (Err (Tss2Error rc), w2)"
        "rc_kind T rc = Some RcHandle" "nvs V w2 = nvs V w"
      using live_tr_from(2) [OF L, of w1 k] True n by auto
    then show ?thesis
      using True by (auto simp: wp_def andThen_def is_missing_iff fun_upd_idem)
  next
    case False
    obtain h w2 where 2: "tr_from_tpm_public T k w1 = (Ok h, w2)" "nvs V w2 = nvs V w" "objs V w2 h = Some (k, [])"
      using live_tr_from(1) [OF L, of w1 k] False n by auto
    have "fst (nv_undefine_space T h w2) = Ok ()"
      using live_parts(4) [OF L] 2 False by (auto simp: live_nv_def)
    then obtain w3 where 3: "nv_undefine_space T h w2 = (Ok (), w3)"
      by (metis prod.collapse)
    then show ?thesis
      using 2 False nv_undefine_D(2) [OF live_sound [OF L] 2(3) 3] by (simp add: wp_def andThen_def)
  qed
qed

lemma live_delete_tag:
  assumes L: "tss_live T V" and j: "version_nv_index_for_uid T uid = Ok j"
  shows "\<exists>w'. delete_pin_version_tag T uid w = (Ok (), w') \<and> nvs V w' = (nvs V w)(j := None)"
  using live_undefine [OF L, of j w] j
  by (auto simp: delete_pin_version_tag_def andThen_def [of "pure (Ok j)"] pure_def matchRes_def wp_def
      ok_def split: prod.splits if_splits)

lemma undefine_unit:
  "andThen m (\<lambda>handle. andThen (nv_undefine_space T handle) (\<lambda>_. ok ())) =
     andThen m (\<lambda>handle. nv_undefine_space T handle)"
proof -
  have "andThen (nv_undefine_space T h) (\<lambda>_. ok ()) = nv_undefine_space T h" for h
    by (rule ext) (auto simp: andThen_def ok_def split: prod.splits res.splits)
  then show ?thesis by simp
qed

lemma live_delete_admin:
  assumes L: "tss_live T V" and i: "nv_index_for_uid T uid = Ok i"
    and j: "version_nv_index_for_uid T uid = Ok j"
  shows "nvs V w i \<noteq> None \<Longrightarrow>
      \<exists>w'. delete_pin_admin T uid w = (Ok (), w') \<and> nvs V w' = (nvs V w)(i := None, j := None)"
    and "nvs V w i = None \<Longrightarrow>
      \<exists>w'. delete_pin_admin T uid w = (Err (NotProvisioned uid), w') \<and> nvs V w' = nvs V w"
proof -
  let ?u = "then_clear T (with_nullauth T
      (andThen (tr_from_tpm_public T i) (\<lambda>handle. nv_undefine_space T handle)))"
  obtain r w1 where run: "?u w = (r, w1)" by fastforce
  note * = wpD [OF live_undefine [OF L] run]
  obtain w2 where 2: "delete_pin_version_tag T uid w1 = (Ok (), w2)" "nvs V w2 = (nvs V w1)(j := None)"
    using live_delete_tag [OF L j] by blast
  show "\<exists>w'. delete_pin_admin T uid w = (Ok (), w') \<and> nvs V w' = (nvs V w)(i := None, j := None)"
    if "nvs V w i \<noteq> None"
    using that * run 2 i unfolding delete_pin_admin_def undefine_unit
    by (simp add: andThen_def [of "pure _"] andThen_def [of "matchRes _ _ _"] pure_def matchRes_def ok_def)
  show "\<exists>w'. delete_pin_admin T uid w = (Err (NotProvisioned uid), w') \<and> nvs V w' = nvs V w"
    if "nvs V w i = None"
    using that * run i unfolding delete_pin_admin_def undefine_unit
    by (auto simp: andThen_def [of "pure _"] andThen_def [of "matchRes _ _ _"] pure_def matchRes_def ok_def
        err_def fun_upd_idem)
qed

section \<open>Writing the version tag\<close>

lemma live_nv_write:
  assumes L: "tss_live T V" and h: "objs V w h = Some (i, a)" and e: "nvs V w i = Some e"
    and m: "may_write V au w e" and d: "length d = data_area_size (e_public e)"
  shows "\<exists>w'. nv_write T au h d 0 w = (Ok (), w') \<and> nvs V w' = (nvs V w)(i \<mapsto> e\<lparr>e_data := Some d\<rparr>)"
proof -
  have "fst (nv_write T au h d 0 w) = Ok ()"
    using live_parts(4) [OF L] h e m d by (simp add: live_nv_def)
  then obtain w' where w': "nv_write T au h d 0 w = (Ok (), w')"
    by (metis prod.collapse)
  then show ?thesis
    using write_done_exact [OF nv_write_D(2) [OF live_sound [OF L] h w' refl] e] d by simp
qed

lemma live_buffer_check: "tss_live T V \<Longrightarrow> length d \<le> 2048 \<Longrightarrow> max_nv_buffer_check T d = None"
  using live_parts(1) [of T V] by (simp add: live_checks_def)

definition write_fresh :: "('w, 'z) tss_scheme \<Rightarrow> nv_handle \<Rightarrow> u8 \<Rightarrow> ('w, unit, tss_error) eff" where
  "write_fresh T j v =
     andThen (tr_from_tpm_public T j) (\<lambda>handle.
     andThen (checked (max_nv_buffer_check T [v]) [v]) (\<lambda>payload.
     nv_write T AuthOwner handle payload 0))"

lemma live_write_existing:
  assumes L: "tss_live T V"
  shows "nvs V w j = Some e \<Longrightarrow> tag_entry_ok e \<Longrightarrow>
      \<exists>w'. write_pin_version_tag_existing T j v w = (Ok (), w') \<and>
        nvs V w' = (nvs V w)(j \<mapsto> e\<lparr>e_data := Some [v]\<rparr>)"
    and "nvs V w j = None \<Longrightarrow>
      \<exists>x w'. write_pin_version_tag_existing T j v w = (Err (TpmError x), w') \<and> nvs V w' = nvs V w"
proof -
  let ?m = "then_clear T (with_nullauth T (write_fresh T j v))"
  obtain r w' where run: "?m w = (r, w')" by fastforce
  have run': "write_pin_version_tag_existing T j v w = liftTss T ?m w"
    by (simp add: write_pin_version_tag_existing_def write_fresh_def)
  show "\<exists>w'. write_pin_version_tag_existing T j v w = (Ok (), w') \<and>
        nvs V w' = (nvs V w)(j \<mapsto> e\<lparr>e_data := Some [v]\<rparr>)"
    if e: "nvs V w j = Some e" "tag_entry_ok e"
  proof -
    have "wp ?m (\<lambda>r w'. r = Ok () \<and> nvs V w' = (nvs V w)(j \<mapsto> e\<lparr>e_data := Some [v]\<rparr>)) w"
    proof (intro wp_then_clear live_sound [OF L] live_with_nullauth [OF L])
      fix w1 assume n: "nvs V w1 = nvs V w"
      obtain h w2 where 2: "tr_from_tpm_public T j w1 = (Ok h, w2)" "nvs V w2 = nvs V w" "objs V w2 h = Some (j, [])"
        using live_tr_from(1) [OF L, of w1 j] e n by auto
      have "may_write V AuthOwner w2 e" "length [v] = data_area_size (e_public e)"
        using tag_attributes [OF e(2)] by (simp_all add: may_write_def PIN_VERSION_TAG_SIZE_def)
      then obtain w3 where "nv_write T AuthOwner h [v] 0 w2 = (Ok (), w3)"
          "nvs V w3 = (nvs V w)(j \<mapsto> e\<lparr>e_data := Some [v]\<rparr>)"
        using live_nv_write [OF L 2(3), of e AuthOwner "[v]"] e 2(2) by auto
      then show "wp (write_fresh T j v) (\<lambda>r w'. r = Ok () \<and> nvs V w' = (nvs V w)(j \<mapsto> e\<lparr>e_data := Some [v]\<rparr>)) w1"
        using 2(1) live_buffer_check [OF L, of "[v]"]
        by (simp add: wp_def write_fresh_def andThen_def checked_def ok_def)
    qed
    from wpD [OF this run] run run' show ?thesis by (simp add: mapErr_Ok)
  qed
  show "\<exists>x w'. write_pin_version_tag_existing T j v w = (Err (TpmError x), w') \<and> nvs V w' = nvs V w"
    if e: "nvs V w j = None"
  proof -
    have "wp ?m (\<lambda>r w'. (\<exists>er. r = Err er) \<and> nvs V w' = nvs V w) w"
    proof (intro wp_then_clear live_sound [OF L] live_with_nullauth [OF L])
      fix w1 assume n: "nvs V w1 = nvs V w"
      obtain rc w2 where 2: "tr_from_tpm_public T j w1 = (Err (Tss2Error rc), w2)" "nvs V w2 = nvs V w"
        using live_tr_from(2) [OF L, of w1 j] e n by auto
      then show "wp (write_fresh T j v) (\<lambda>r w'. (\<exists>er. r = Err er) \<and> nvs V w' = nvs V w) w1"
        by (simp add: wp_def write_fresh_def andThen_def)
    qed
    from wpD [OF this run] run run' show ?thesis by (auto simp: mapErr_Err from_tss_def)
  qed
qed

text \<open>A version tag as the program writes it.\<close>

definition tag_written :: "u8 \<Rightarrow> nv_entry option \<Rightarrow> bool" where
  "tag_written v x \<longleftrightarrow> (\<exists>t. x = Some t \<and> tag_entry_ok t \<and> e_data t = Some [v])"

lemma tag_ok_data: "tag_entry_ok e \<Longrightarrow> tag_entry_ok (e\<lparr>e_data := Some [v]\<rparr>)"
  by (simp add: tag_entry_ok_def PIN_VERSION_TAG_SIZE_def)

lemma version_index_valid:
  "version_nv_index_for_uid T uid = Ok j \<Longrightarrow> nv_index_check T j = None"
  by (drule version_nv_index_Ok_iff [THEN iffD1]) blast

lemma live_attributes:
  assumes "tss_live T V"
  shows "attributes_check T version_tag_attributes = None" "attributes_check T pin_slot_attributes = None"
    "nv_public_check T (version_tag_public j) = None" "nv_public_check T (pin_slot_public i dig) = None"
  using live_parts(1) [OF assms]
  by (simp_all add: live_checks_def version_tag_attributes_def pin_slot_attributes_def
      version_tag_public_def pin_slot_public_def PIN_VERSION_TAG_SIZE_def PIN_DATA_SIZE_def)

lemma live_nv_define:
  assumes L: "tss_live T V" and n: "nvs V w (nv_index pub) = None" "nv_index_check T (nv_index pub) = None"
    "attributes_check T (index_attributes pub) = None"
  shows "\<exists>w'. nv_define_space T a pub w = (Ok (), w') \<and>
    nvs V w' = (nvs V w)(nv_index pub \<mapsto> fresh_entry a pub)"
proof -
  obtain r w' where run: "nv_define_space T a pub w = (r, w')" by fastforce
  have "wp (nv_define_space T a pub)
        (\<lambda>r w'. (nvs V w (nv_index pub) = None \<longrightarrow>
              nv_index_check T (nv_index pub) = None \<longrightarrow>
              attributes_check T (index_attributes pub) = None \<longrightarrow> r = Ok ()) \<and>
           (nvs V w (nv_index pub) \<noteq> None \<longrightarrow> (\<exists>e. r = Err e))) w"
    using live_parts(4) [OF L] by (simp add: live_nv_def)
  from wpD [OF this run] n have "r = Ok ()" by simp
  then show ?thesis using run nv_define_D(2) [OF live_sound [OF L] run] by simp
qed

lemma live_define_tag:
  assumes L: "tss_live T V" and j: "nv_index_check T j = None" and n: "nvs V w j = None"
  shows "\<exists>w'. define_pin_version_tag T j w = (Ok (), w') \<and>
    nvs V w' = (nvs V w)(j \<mapsto> fresh_entry None (version_tag_public j))"
proof -
  let ?f = "andThen (checked (attributes_check T version_tag_attributes) version_tag_attributes) (\<lambda>_.
        andThen (checked (nv_public_check T (version_tag_public j)) (version_tag_public j)) (\<lambda>pub.
        andThen (nv_define_space T None pub) (\<lambda>_. ok ())))"
  have pub: "nv_index (version_tag_public j) = j" "index_attributes (version_tag_public j) = version_tag_attributes"
    by (simp_all add: version_tag_public_def)
  have "wp (with_nullauth T ?f) (\<lambda>r w'. r = Ok () \<and>
      nvs V w' = (nvs V w)(j \<mapsto> fresh_entry None (version_tag_public j))) w"
  proof (rule live_with_nullauth [OF L])
    fix w1 assume n1: "nvs V w1 = nvs V w"
    obtain w2 where "nv_define_space T None (version_tag_public j) w1 = (Ok (), w2)"
        "nvs V w2 = (nvs V w)(j \<mapsto> fresh_entry None (version_tag_public j))"
      using live_nv_define [OF L, of w1 "version_tag_public j" None] n n1 j pub live_attributes [OF L] by auto
    then show "wp ?f (\<lambda>r w'. r = Ok () \<and>
      nvs V w' = (nvs V w)(j \<mapsto> fresh_entry None (version_tag_public j))) w1"
      by (simp add: live_attributes [OF L] checked_def wp_def andThen_def ok_def)
  qed
  moreover obtain r w' where run: "with_nullauth T ?f w = (r, w')" by fastforce
  ultimately have r: "r = Ok ()" "nvs V w' = (nvs V w)(j \<mapsto> fresh_entry None (version_tag_public j))"
    by (auto dest: wpD)
  obtain w2 where "clear_sessions T w' = (Ok () :: (unit, pin_error) res, w2)" "nvs V w2 = nvs V w'"
    using live_clear [OF L] by blast
  then show ?thesis
    using run r unfolding define_pin_version_tag_def by (simp add: andThen_def mapErr_Ok ok_def)
qed

lemma live_write_tag:
  assumes L: "tss_live T V" and j: "version_nv_index_for_uid T uid = Ok j"
    and ok: "\<And>e. nvs V w j = Some e \<Longrightarrow> tag_entry_ok e"
  shows "\<exists>t w'. write_pin_version_tag T uid v w = (Ok (), w') \<and> nvs V w' = (nvs V w)(j \<mapsto> t) \<and>
    tag_written v (Some t)"
proof (cases "nvs V w j")
  case (Some e)
  obtain w1 where "write_pin_version_tag_existing T j v w = (Ok (), w1)"
      "nvs V w1 = (nvs V w)(j \<mapsto> e\<lparr>e_data := Some [v]\<rparr>)"
    using live_write_existing(1) [OF L Some ok [OF Some]] by blast
  then show ?thesis
    using j tag_ok_data [OF ok [OF Some]]
    by (auto simp: write_pin_version_tag_def andThen_def pure_def matchRes_def ok_def tag_written_def)
next
  case None
  obtain x w1 where 1: "write_pin_version_tag_existing T j v w = (Err (TpmError x), w1)" "nvs V w1 = nvs V w"
    using live_write_existing(2) [OF L None] by blast
  obtain w2 where 2: "define_pin_version_tag T j w1 = (Ok (), w2)"
      "nvs V w2 = (nvs V w)(j \<mapsto> fresh_entry None (version_tag_public j))"
    using live_define_tag [OF L version_index_valid [OF j], of w1] None 1(2) by auto
  have fresh: "tag_entry_ok (fresh_entry None (version_tag_public j))"
    by (simp add: tag_entry_ok_def fresh_entry_def version_tag_public_def)
  obtain w3 where 3: "write_pin_version_tag_existing T j v w2 = (Ok (), w3)"
      "nvs V w3 = (nvs V w)(j \<mapsto> (fresh_entry None (version_tag_public j))\<lparr>e_data := Some [v]\<rparr>)"
    using live_write_existing(1) [OF L _ fresh, of w2 j v] 2(2) by auto
  then show ?thesis
    using j 1 2 tag_ok_data [OF fresh]
    by (auto simp: write_pin_version_tag_def andThen_def pure_def matchRes_def ok_def tag_written_def)
qed

section \<open>Defining a slot\<close>

definition write_policy :: "policy_cmd list" where
  "write_policy = [PcCommandCode CcNvWrite, PcNvWritten False]"

lemma live_sessionD:
  assumes "tss_live T V"
  shows "wp (start_auth_session T st) (\<lambda>r w'. \<exists>s. r = Ok (Some s) \<and> pols V w' s = Some [] \<and>
      objs V w' s = None \<and> policy_session_check T s = None) w"
    and "pols V w s \<noteq> None \<Longrightarrow> wp (tr_sess_set_attributes T s)
      (\<lambda>r w'. r = Ok () \<and> pols V w' = pols V w \<and> objs V w' = objs V w) w"
    and "pols V w s = Some cs \<Longrightarrow> wp (policy_command_code T s c)
      (\<lambda>r w'. r = Ok () \<and> pols V w' s = Some (cs @ [PcCommandCode c]) \<and> objs V w' = objs V w) w"
    and "pols V w s = Some cs \<Longrightarrow> wp (policy_nv_written T s b)
      (\<lambda>r w'. r = Ok () \<and> pols V w' s = Some (cs @ [PcNvWritten b]) \<and> objs V w' = objs V w) w"
    and "pols V w s = Some cs \<Longrightarrow> wp (policy_get_digest T s)
      (\<lambda>r w'. r = Ok (policy_digest V cs) \<and> pols V w' s = Some cs) w"
    and "pols V (ctx_clear_sessions T w) = pols V w"
    and "pols V w s \<noteq> None \<Longrightarrow> fst (flush_context T s w) = Ok ()"
    and "cur V (session_begin T s w) = Some s" "pols V (session_begin T s w) = pols V w"
  using live_parts(2) [OF assms] by (simp_all add: live_sessions_def)

text \<open>A total call with its effect on the session's policy, keeping the indices.\<close>

lemma live_keep:
  assumes "wp m (\<lambda>r w'. \<exists>x. r = Ok x \<and> R x w') w" "keeps_nv V m"
  shows "wp m (\<lambda>r w'. \<exists>x. r = Ok x \<and> R x w' \<and> nvs V w' = nvs V w) w"
  using assms evolvesD [OF assms(2)] by (auto simp: wp_def split: prod.splits)

lemma live_start_policy:
  assumes L: "tss_live T V"
  shows "wp (start_write_policy T st msg)
    (\<lambda>r w'. \<exists>s. r = Ok s \<and> pols V w' s = Some write_policy \<and> nvs V w' = nvs V w) w"
proof -
  note S = live_sound [OF L]
  note D = live_sessionD [OF L]
  obtain s w1 where 1: "start_auth_session T st w = (Ok (Some s), w1)" "pols V w1 s = Some []"
      "policy_session_check T s = None"
    using D(1) [of st w] by (auto simp: wp_def split: prod.splits)
  obtain w2 where 2: "tr_sess_set_attributes T s w1 = (Ok (), w2)" "pols V w2 s = Some []"
    using D(2) [of w1 s] 1(2) by (auto simp: wp_def split: prod.splits)
  obtain w3 where 3: "tr_sess_set_attributes T s w2 = (Ok (), w3)" "pols V w3 s = Some []"
    using D(2) [of w2 s] 2(2) by (auto simp: wp_def split: prod.splits)
  obtain w4 where 4: "policy_command_code T s CcNvWrite w3 = (Ok (), w4)"
      "pols V w4 s = Some [PcCommandCode CcNvWrite]"
    using D(3) [OF 3(2), of CcNvWrite] by (auto simp: wp_def split: prod.splits)
  obtain w5 where 5: "policy_nv_written T s False w4 = (Ok (), w5)" "pols V w5 s = Some write_policy"
    using D(4) [OF 4(2), of False] by (auto simp: wp_def write_policy_def split: prod.splits)
  have run: "start_write_policy T st msg w = (Ok s, w5)"
    using 1 2 3 4 5 by (simp add: start_write_policy_def andThen_def checked_def ok_def)
  then show ?thesis
    using 5(2) evolvesD [OF start_write_policy_keeps [OF S] run] by (simp add: wp_def)
qed

lemma live_template:
  assumes L: "tss_live T V"
  shows "\<exists>w'. pin_slot_template T i w =
      (Ok (pin_slot_public i (policy_digest V write_policy), policy_digest V write_policy), w') \<and>
    nvs V w' = nvs V w"
proof -
  note S = live_sound [OF L]
  note D = live_sessionD [OF L]
  let ?msg = "''Failed to create trial session''" and ?w0 = "no_session_begin T w"
  let ?d = "policy_digest V write_policy"
  obtain s w1 where 1: "start_write_policy T Trial ?msg ?w0 = (Ok s, w1)" "pols V w1 s = Some write_policy"
    using live_start_policy [OF L, of Trial ?msg ?w0] by (auto simp: wp_def split: prod.splits)
  obtain w2 where 2: "policy_get_digest T s w1 = (Ok ?d, w2)" "pols V w2 s = Some write_policy"
    using D(5) [OF 1(2)] by (auto simp: wp_def split: prod.splits)
  let ?w3 = "ctx_clear_sessions T w2"
  have "fst (flush_context T s ?w3) = Ok ()" using D(6,7) 2(2) by simp
  then obtain w4 where 4: "flush_context T s ?w3 = (Ok (), w4)" by (metis prod.collapse)
  have run: "pin_slot_template T i w = (Ok (pin_slot_public i ?d, ?d), no_session_end T w4)"
    using 1 2 4 live_attributes [OF L]
    by (simp add: pin_slot_template_def without_session_def andThen_def matchRes_def act_def checked_def
        clear_sessions_def ok_def)
  then show ?thesis using evolvesD [OF pin_slot_template_keeps [OF S] run] by simp
qed

lemma live_write_initial:
  assumes L: "tss_live T V" and e: "nvs V w i = Some e"
    and pub: "e_public e = pin_slot_public i (policy_digest V write_policy)" "e_data e = None"
  shows "\<exists>w'. write_initial_slot T m i a w = (Ok (), w') \<and>
    nvs V w' = (nvs V w)(i \<mapsto> e\<lparr>e_data := Some (to_bytes (pin_data_new 0 (max_attempts (policy m))))\<rparr>)"
proof -
  note S = live_sound [OF L]
  note D = live_sessionD [OF L]
  let ?msg = "''Failed to create auth session''" and ?w0 = "no_session_begin T w"
  let ?d = "to_bytes (pin_data_new 0 (max_attempts (policy m)))"
  obtain s w1 where 1: "start_write_policy T Policy ?msg ?w0 = (Ok s, w1)"
      "pols V w1 s = Some write_policy" "nvs V w1 = nvs V w"
    using live_start_policy [OF L, of Policy ?msg ?w0] session_hooks(1) [OF S]
    by (auto simp: wp_def split: prod.splits)
  obtain h w2 where 2: "tr_from_tpm_public T i w1 = (Ok h, w2)" "nvs V w2 = nvs V w"
      "objs V w2 h = Some (i, [])" "pols V w2 s = Some write_policy"
    using live_tr_from(1) [OF L, of w1 i] 1 e by auto
  let ?w3 = "session_begin T s w2"
  have 3: "nvs V ?w3 = nvs V w" "objs V ?w3 h = Some (i, [])" "pols V ?w3 s = Some write_policy"
    "cur V ?w3 = Some s"
    using session_begin_D [OF S] D(8,9) 2 by simp_all
  have "wp (tr_set_auth T s a) (\<lambda>r w'. r = Ok () \<and> pols V w' = pols V ?w3 \<and> cur V w' = cur V ?w3) ?w3"
    using live_parts(3) [OF L] 3(3) by (simp add: live_handles_def)
  then obtain w4 where 4: "tr_set_auth T s a ?w3 = (Ok (), w4)" "pols V w4 s = Some write_policy"
      "cur V w4 = Some s"
    using 3 by (auto simp: wp_def split: prod.splits)
  obtain b where 5: "objs V w4 h = Some (i, b)" "nvs V w4 = nvs V w"
    using tr_set_auth_bound [OF S 4(1) 3(2)] tr_set_auth_D(1) [OF S 4(1)] 3(1) by metis
  have may: "may_write V (AuthNvIndex h) w4 e"
    using 4 pub by (simp add: may_write_def pin_slot_public_def pin_slot_attributes_def write_policy_def)
  have size: "length ?d = data_area_size (e_public e)" using pub by (simp add: pin_slot_public_def)
  have e4: "nvs V w4 i = Some e" using e 5(2) by simp
  obtain w6 where 6: "nv_write T (AuthNvIndex h) h ?d 0 w4 = (Ok (), w6)"
      "nvs V w6 = (nvs V w)(i \<mapsto> e\<lparr>e_data := Some ?d\<rparr>)"
    using live_nv_write [OF L 5(1) e4 may size] 5(2) by auto
  have "max_nv_buffer_check T ?d = None"
    by (rule live_buffer_check [OF L]) (simp add: PIN_DATA_SIZE_def)
  then have run: "write_initial_slot T m i a w = (Ok (), no_session_end T (session_end T w6))"
    using 1(1) 2(1) 4(1) 6(1)
    by (simp add: write_initial_slot_def without_session_def with_session_def andThen_def matchRes_def
        act_def ok_def Let_def)
  then show ?thesis using 6(2) session_hooks [OF S] by simp
qed

lemma live_define_slot:
  assumes L: "tss_live T V" and i: "nv_index_check T i = None" and n: "nvs V w i = None"
    and a: "length a \<le> 64"
  shows "\<exists>e w'. define_pin_slot T m i a w = (Ok (), w') \<and> nvs V w' = (nvs V w)(i \<mapsto> e) \<and>
    provisioned m i a e"
proof -
  let ?pub = "pin_slot_public i (policy_digest V write_policy)"
  obtain w1 where 1: "pin_slot_template T i w = (Ok (?pub, policy_digest V write_policy), w1)"
      "nvs V w1 = nvs V w"
    using live_template [OF L] by blast
  let ?f = "andThen (nv_define_space T (Some a) ?pub) (\<lambda>_. ok ())"
  have pub: "nv_index ?pub = i" "index_attributes ?pub = pin_slot_attributes"
    by (simp_all add: pin_slot_public_def)
  have "wp (with_nullauth T ?f) (\<lambda>r w'. r = Ok () \<and>
      nvs V w' = (nvs V w)(i \<mapsto> fresh_entry (Some a) ?pub)) w1"
  proof (rule live_with_nullauth [OF L])
    fix w2 assume n2: "nvs V w2 = nvs V w1"
    obtain w3 where "nv_define_space T (Some a) ?pub w2 = (Ok (), w3)"
        "nvs V w3 = (nvs V w)(i \<mapsto> fresh_entry (Some a) ?pub)"
      using live_nv_define [OF L, of w2 ?pub "Some a"] n n2 i pub 1(2) live_attributes [OF L] by auto
    then show "wp ?f (\<lambda>r w'. r = Ok () \<and> nvs V w' = (nvs V w)(i \<mapsto> fresh_entry (Some a) ?pub)) w2"
      by (simp add: wp_def andThen_def ok_def)
  qed
  moreover obtain r w2 where run: "with_nullauth T ?f w1 = (r, w2)" by fastforce
  ultimately have 2: "r = Ok ()" "nvs V w2 = (nvs V w)(i \<mapsto> fresh_entry (Some a) ?pub)"
    by (auto dest: wpD)
  let ?e = "(fresh_entry (Some a) ?pub)\<lparr>e_data := Some (to_bytes (pin_data_new 0 (max_attempts (policy m))))\<rparr>"
  obtain w3 where 3: "write_initial_slot T m i a w2 = (Ok (), w3)" "nvs V w3 = (nvs V w)(i \<mapsto> ?e)"
    using live_write_initial [OF L, of w2 i "fresh_entry (Some a) ?pub" m a] 2(2)
    by (auto simp: fresh_entry_def)
  have "define_pin_slot T m i a w = (Ok (), w3)"
    using 1 run 2(1) 3(1) live_auth_check [OF L a]
    by (simp add: define_pin_slot_def andThen_def checked_def mapErr_def matchRes_def ok_def)
  moreover have "provisioned m i a ?e" by (auto simp: provisioned_def fresh_entry_def)
  ultimately show ?thesis using 3(2) by blast
qed

section \<open>Setting up\<close>

lemma index_valid: "nv_index_for_uid T uid = Ok i \<Longrightarrow> nv_index_check T i = None"
  by (drule nv_index_Ok_iff [THEN iffD1]) blast

lemma live_setup:
  assumes L: "tss_live T V" and i: "nv_index_for_uid T uid = Ok i"
    and j: "version_nv_index_for_uid T uid = Ok j" and wf: "wf_uid T uid (nvs V w)"
    and n: "nvs V w i = None" and a: "length pin \<le> 64" and tcti: "tcti_check T (mgr_tcti_spec m) = None"
  shows "\<exists>e t w'. setup_pin T m uid pin w = (Ok (), w') \<and> nvs V w' = (nvs V w)(i \<mapsto> e, j \<mapsto> t) \<and>
    provisioned m i (pin_as_bytes pin) e \<and> tag_written PIN_VERSION_CURRENT (Some t)"
proof -
  obtain w1 where 1: "read_pin_slot_owner T i w = (Ok None, w1)" "nvs V w1 = nvs V w"
    using live_read_slot [OF L, of w i] n by auto
  have a': "length (pin_as_bytes pin) \<le> 64" using a by (simp add: pin_as_bytes_def as_bytes_def)
  obtain e w2 where 2: "define_pin_slot T m i (pin_as_bytes pin) w1 = (Ok (), w2)"
      "nvs V w2 = (nvs V w)(i \<mapsto> e)" "provisioned m i (pin_as_bytes pin) e"
    using live_define_slot [OF L index_valid [OF i] _ a', of w1 m] n 1(2) by auto
  obtain w3 where 3: "restart_context T m w2 = (Ok (), w3)" "nvs V w3 = nvs V w2"
    using live_restart [OF L tcti] by blast
  have "\<And>x. nvs V w3 j = Some x \<Longrightarrow> tag_entry_ok x"
    using wf_uid_tag [OF wf j] layout.tag_slot [OF j i] 2(2) 3(2) by simp
  then obtain t w4 where 4: "write_pin_version_tag T uid PIN_VERSION_CURRENT w3 = (Ok (), w4)"
      "nvs V w4 = (nvs V w3)(j \<mapsto> t)" "tag_written PIN_VERSION_CURRENT (Some t)"
    using live_write_tag [OF L j] by blast
  have "setup_pin T m uid pin w = (Ok (), w4)"
    using i 1(1) 2(1) 3(1) 4(1) by (simp add: setup_pin_def andThen_def matchRes_def pure_def ok_def)
  then show ?thesis using 2 3 4 by auto
qed

end
