(* ===== verification/Account.thy ===== *)
theory Account imports ManagerLive begin

text \<open>
  The abstract specification of the PIN manager: one user's account, the four operations on it,
  and the proof that the manager implements them on a live TPM.
\<close>

section \<open>The specification\<close>

text \<open>
  An account is unset, half made (the index is defined but never written), or set: the stored
  value, the counters, and the version tag if there is one.
\<close>

datatype account =
  Unset
| Unwritten
| Set "byte list" pin_data "u8 option"

text \<open>The value of a result, \<^const>\<open>None\<close> for every error.\<close>

fun value_of :: "('a, 'e) res \<Rightarrow> 'a option" where
  "value_of (Ok x) = Some x"
| "value_of (Err e) = None"
| "value_of (Panic s) = None"

lemma value_of_Some: "value_of r = Some x \<longleftrightarrow> r = Ok x"
  by (cases r) auto

definition fresh_account :: "u32 \<Rightarrow> pin \<Rightarrow> account" where
  "fresh_account limit pin = Set (pin_as_bytes pin) (pin_data_new 0 limit) (Some PIN_VERSION_CURRENT)"

fun spec_setup :: "u32 \<Rightarrow> pin \<Rightarrow> account \<Rightarrow> unit option \<times> account" where
  "spec_setup limit pin Unset = (Some (), fresh_account limit pin)"
| "spec_setup limit pin Unwritten = (None, Unwritten)"
| "spec_setup limit pin (Set a s v) = (None, Set a s v)"

fun spec_delete :: "account \<Rightarrow> unit option \<times> account" where
  "spec_delete Unset = (None, Unset)"
| "spec_delete _ = (Some (), Unset)"

fun spec_verify :: "u32 \<Rightarrow> pin \<Rightarrow> account \<Rightarrow> verification_result option \<times> account" where
  "spec_verify limit pin (Set a s (Some v)) =
     (if v \<noteq> PIN_VERSION_CURRENT then (None, Set a s (Some v))
      else
        (case exact_outcome (auth_eq a (pin_as_bytes pin)) s of
           (r, s') \<Rightarrow> (Some r, Set a s' (Some v))))"
| "spec_verify limit pin (Set a s None) =
     (let legacy = normalize_legacy_pin pin in
      case exact_outcome (auth_eq a (as_bytes legacy)) s of
        (r, s') \<Rightarrow>
          (Some r,
           if \<not> is_success r then Set a s' None
           else if legacy = pin then Set a s' (Some PIN_VERSION_CURRENT)
           else fresh_account limit pin))"
| "spec_verify limit pin acct = (None, acct)"

definition spec_delete_auth :: "u32 \<Rightarrow> pin \<Rightarrow> account \<Rightarrow> delete_result option \<times> account" where
  "spec_delete_auth limit pin acct =
     (case spec_verify limit pin acct of
        (None, acct') \<Rightarrow> (None, acct')
      | (Some (VerifySuccess s), acct') \<Rightarrow> (Some DeleteSuccess, snd (spec_delete acct'))
      | (Some (VerifyInvalid l), acct') \<Rightarrow> (Some (DeleteInvalid l), acct')
      | (Some VerifyLockedOut, acct') \<Rightarrow> (Some DeleteLockedOut, acct'))"

section \<open>The abstraction\<close>

definition account_of :: "('w, 'z) tss_scheme \<Rightarrow> u32 \<Rightarrow> nv_map \<Rightarrow> account" where
  "account_of T uid N =
     (case slot_of T uid N of
        None \<Rightarrow> Unset
      | Some e \<Rightarrow>
          (case entry_pin e of
             None \<Rightarrow> Unwritten
           | Some s \<Rightarrow> Set (e_auth e) s (Option.bind (tag_of T uid N) (\<lambda>d. case d of [v] \<Rightarrow> Some v | _ \<Rightarrow> None))))"

text \<open>When the manager can serve a user: a live TPM, a uid in range, well-formed indices.\<close>

definition ready ::
  "('w, 'z) tss_scheme \<Rightarrow> ('w, 'v) view_scheme \<Rightarrow> pin_manager \<Rightarrow> u32 \<Rightarrow> 'w \<Rightarrow> bool"
where
  "ready T V m uid w \<longleftrightarrow>
     tss_live T V \<and> unat uid < 2 ^ 23 \<and> wf_uid T uid (nvs V w) \<and>
     tcti_check T (mgr_tcti_spec m) = None"

lemma ready_indices:
  assumes "ready T V m uid w"
  obtains i j where "nv_index_for_uid T uid = Ok i" "version_nv_index_for_uid T uid = Ok j"
proof -
  from assms have u: "unat uid < 2 ^ 23" and L: "live_checks T"
    by (auto simp: ready_def tss_live_def)
  have "unat (0x01000000 + uid) = 0x01000000 + unat uid" "unat (0x01800000 + uid) = 0x01800000 + unat uid"
    using u by (simp_all add: unat_add32)
  then have "nv_index_check T (0x01000000 + uid) = None" "nv_index_check T (0x01800000 + uid) = None"
    using u L by (simp_all add: live_checks_def)
  then show ?thesis
    using u by (intro that [of "0x01000000 + uid" "0x01800000 + uid"])
      (simp_all add: nv_index_Ok_iff version_nv_index_Ok_iff)
qed

lemma ready_step:
  assumes "ready T V m uid w" "evolves (nvs V) (uid_step T uid) f" "f w = (r, w')"
  shows "ready T V m uid w'"
  using assms evolvesD [OF assms(2,3)] by (simp add: ready_def uid_step_def)

lemma tag_of_cases:
  assumes wf: "wf_uid T uid N"
  obtains "tag_of T uid N = None" | v where "tag_of T uid N = Some [v]"
proof (cases "tag_of T uid N")
  case (Some d)
  then obtain j e where "version_nv_index_for_uid T uid = Ok j" "N j = Some e" "e_data e = Some d"
    by (auto simp: tag_of_def bind_eq_Some_conv split: res.splits)
  then have "length d = 1" using wf_uid_tag [OF wf] by (auto simp: tag_entry_ok_def PIN_VERSION_TAG_SIZE_def)
  then show ?thesis using that(2) Some by (auto simp: length_Suc_conv)
qed (use that in blast)

lemma account_Set:
  assumes wf: "wf_uid T uid N" and i: "nv_index_for_uid T uid = Ok i"
    and a: "account_of T uid N = Set a s v"
  obtains e where "N i = Some e" "slot_entry_ok e" "entry_pin e = Some s" "e_auth e = a"
    "tag_of T uid N = map_option (\<lambda>x. [x]) v"
proof -
  from a i obtain e where e: "N i = Some e" "entry_pin e = Some s" "e_auth e = a"
      and v: "v = Option.bind (tag_of T uid N) (\<lambda>d. case d of [v] \<Rightarrow> Some v | _ \<Rightarrow> None)"
    by (auto simp: account_of_def slot_of_def split: option.splits)
  moreover have "tag_of T uid N = map_option (\<lambda>x. [x]) v"
    using v by (rule_tac tag_of_cases [OF wf]) auto
  ultimately show ?thesis using that wf_uid_slot [OF wf i e(1)] by blast
qed

lemma account_simps:
  assumes "nv_index_for_uid T uid = Ok i"
  shows "N i = None \<Longrightarrow> account_of T uid N = Unset"
    and "account_of T uid N = Unset \<Longrightarrow> N i = None"
    and "N i = Some e \<Longrightarrow> e_auth e = a \<Longrightarrow> entry_pin e = Some s \<Longrightarrow>
      tag_of T uid N = map_option (\<lambda>x. [x]) v \<Longrightarrow> account_of T uid N = Set a s v"
    and "account_of T uid N = Unwritten \<Longrightarrow> \<exists>e. N i = Some e \<and> entry_pin e = None"
  using assms by (auto simp: account_of_def slot_of_def split: option.splits; cases v; simp)+

lemma provisioned_account:
  assumes i: "nv_index_for_uid T uid = Ok i" and j: "version_nv_index_for_uid T uid = Ok j"
    and e: "provisioned m i (pin_as_bytes pin) e" and t: "tag_written PIN_VERSION_CURRENT (Some t)"
  shows "account_of T uid (N(i \<mapsto> e, j \<mapsto> t)) = fresh_account (max_attempts (policy m)) pin"
proof -
  have "(N(i \<mapsto> e, j \<mapsto> t)) i = Some e" using layout.tag_slot [OF j i] by simp
  moreover have "tag_of T uid (N(i \<mapsto> e, j \<mapsto> t)) = Some [PIN_VERSION_CURRENT]"
    using j t by (simp add: tag_of_def tag_written_def)
  ultimately show ?thesis
    using e unfolding fresh_account_def
    by (intro account_simps(3) [OF i]) (auto simp: provisioned_def entry_pin_def)
qed

section \<open>The manager implements it\<close>

lemma setup_refines:
  assumes R: "ready T V m uid w" and p: "length pin \<le> 64"
    and run: "setup_pin T m uid pin w = (r, w')"
  shows "(value_of r, account_of T uid (nvs V w')) =
    spec_setup (max_attempts (policy m)) pin (account_of T uid (nvs V w))"
proof -
  obtain i j where i: "nv_index_for_uid T uid = Ok i" and j: "version_nv_index_for_uid T uid = Ok j"
    using ready_indices [OF R] .
  from R have L: "tss_live T V" and wf: "wf_uid T uid (nvs V w)"
      and tcti: "tcti_check T (mgr_tcti_spec m) = None"
    by (auto simp: ready_def)
  note S = live_sound [OF L]
  show ?thesis
  proof (cases "account_of T uid (nvs V w)")
    case Unset
    obtain e t where "r = Ok ()" "nvs V w' = (nvs V w)(i \<mapsto> e, j \<mapsto> t)"
        "provisioned m i (pin_as_bytes pin) e" "tag_written PIN_VERSION_CURRENT (Some t)"
      using live_setup [OF L i j wf account_simps(2) [OF i Unset] p tcti] run by auto
    then show ?thesis using Unset provisioned_account [OF i j] by simp
  next
    case (Set a s v)
    then obtain e where "nvs V w i = Some e" "entry_pin e = Some s"
      using account_Set [OF wf i Set] by blast
    then have "r \<noteq> Ok () \<and> nvs V w' = nvs V w"
      using setup_pin_existing [OF S i _ run] by simp
    then show ?thesis using Set by (cases r) auto
  next
    case Unwritten
    then obtain e where e: "nvs V w i = Some e" "entry_pin e = None" using account_simps(4) [OF i] by blast
    have "r \<noteq> Ok () \<and> nvs V w' = nvs V w"
      using setup_pin_existing [OF S i _ run] e by simp
    then show ?thesis using Unwritten by (cases r) auto
  qed
qed

lemma delete_refines:
  assumes R: "ready T V m uid w" and run: "delete_pin_admin T uid w = (r, w')"
  shows "(value_of r, account_of T uid (nvs V w')) = spec_delete (account_of T uid (nvs V w))"
    and "account_of T uid (nvs V w) = Unset \<Longrightarrow> r = Err (NotProvisioned uid)"
proof -
  obtain i j where i: "nv_index_for_uid T uid = Ok i" and j: "version_nv_index_for_uid T uid = Ok j"
    using ready_indices [OF R] .
  from R have L: "tss_live T V" by (auto simp: ready_def)
  have "(value_of r, account_of T uid (nvs V w')) = spec_delete (account_of T uid (nvs V w)) \<and>
      (account_of T uid (nvs V w) = Unset \<longrightarrow> r = Err (NotProvisioned uid))"
  proof (cases "nvs V w i")
    case None
    then show ?thesis
      using live_delete_admin(2) [OF L i j None] run account_simps(1) [OF i] by auto
  next
    case (Some e)
    then have *: "r = Ok ()" "nvs V w' i = None"
      using live_delete_admin(1) [OF L i j, of w] run by auto
    have "spec_delete (account_of T uid (nvs V w)) = (Some (), Unset)"
      using Some i by (auto simp: account_of_def slot_of_def split: option.splits)
    moreover have "account_of T uid (nvs V w) \<noteq> Unset"
      using Some account_simps(2) [OF i] by fastforce
    ultimately show ?thesis using * account_simps(1) [OF i] by simp
  qed
  then show "(value_of r, account_of T uid (nvs V w')) = spec_delete (account_of T uid (nvs V w))"
    and "account_of T uid (nvs V w) = Unset \<Longrightarrow> r = Err (NotProvisioned uid)"
    by simp_all
qed

section \<open>Verification\<close>

text \<open>Without a written slot nothing is compared and nothing changes.\<close>

lemma verify_unwritten:
  assumes S: "tss_sound T V" and wf: "wf_uid T uid (nvs V w)" and i: "nv_index_for_uid T uid = Ok i"
    and n: "Option.bind (nvs V w i) entry_pin = None" and run: "verify_pin T m uid pin w = (r, w')"
  shows "(\<forall>v. r \<noteq> Ok v) \<and> nvs V w' = nvs V w"
proof -
  obtain N1 and r1 :: "(verification_result, pin_error) res" where
      o: "verify_outcome (compared_pin T uid (nvs V w) pin) i (nvs V w) N1 r1"
      and v: "\<And>v. r = Ok v \<Longrightarrow> r1 = Ok v"
      and same: "(\<forall>s. r1 \<noteq> Ok (VerifySuccess s)) \<Longrightarrow> nvs V w' = N1"
    using verify_pin_D [OF S i wf run] by metis
  have no: "\<not> pin_accept a i (nvs V w) N1" "\<not> pin_reject a i (nvs V w) N1" "\<not> pin_refuse i (nvs V w)" for a
    using n by (auto simp: pin_accept_def pin_reject_def pin_refuse_def)
  from o no have "N1 = nvs V w" "\<forall>v. r1 \<noteq> Ok v"
    unfolding verify_outcome_def by (blast, metis verification_result.exhaust)
  then show ?thesis using v same by metis
qed

lemma length_normalize: "length (normalize_legacy_pin pin) \<le> max 1 (length pin)"
proof -
  have "length (trim_start_matches (CHR ''0'') pin) \<le> length pin"
    by (simp add: trim_start_matches_def length_dropWhile_le)
  then show ?thesis by (auto simp: normalize_legacy_pin_def Let_def)
qed

lemma live_migrate:
  assumes L: "tss_live T V" and i: "nv_index_for_uid T uid = Ok i"
    and j: "version_nv_index_for_uid T uid = Ok j" and wf: "wf_uid T uid (nvs V w)"
    and e: "nvs V w i = Some e" "entry_pin e = Some s" and p: "length pin \<le> 64"
    and tcti: "tcti_check T (mgr_tcti_spec m) = None"
  shows "\<exists>w'. migrate_legacy_pin_format T m uid pin w = (Ok (), w') \<and>
    account_of T uid (nvs V w') =
      (if normalize_legacy_pin pin = pin then Set (e_auth e) s (Some PIN_VERSION_CURRENT)
       else fresh_account (max_attempts (policy m)) pin)"
proof (cases "normalize_legacy_pin pin = pin")
  case True
  obtain t w' where 1: "write_pin_version_tag T uid PIN_VERSION_CURRENT w = (Ok (), w')"
      "nvs V w' = (nvs V w)(j \<mapsto> t)" "tag_written PIN_VERSION_CURRENT (Some t)"
    using live_write_tag [OF L j wf_uid_tag [OF wf j]] by blast
  have "nvs V w' i = Some e" using 1(2) layout.slot_tag [OF i j] e by simp
  moreover have "tag_of T uid (nvs V w') = Some [PIN_VERSION_CURRENT]"
    using 1 j by (simp add: tag_of_def tag_written_def)
  ultimately have "account_of T uid (nvs V w') = Set (e_auth e) s (Some PIN_VERSION_CURRENT)"
    using e(2) by (intro account_simps(3) [OF i]) auto
  then show ?thesis using True 1(1) by (simp add: migrate_legacy_pin_format_def)
next
  case False
  obtain w1 where 1: "delete_pin_admin T uid w = (Ok (), w1)" "nvs V w1 = (nvs V w)(i := None, j := None)"
    using live_delete_admin(1) [OF L i j, of w] e by auto
  obtain w2 where 2: "restart_context T m w1 = (Ok (), w2)" "nvs V w2 = nvs V w1"
    using live_restart [OF L tcti] by blast
  have "wf_uid T uid (nvs V w1)"
    using evolvesD [OF delete_pin_admin_step [OF live_sound [OF L]] 1(1)] wf by (simp add: uid_step_def)
  moreover have "nvs V w2 i = None" using 1 2 layout.slot_tag [OF i j] by simp
  ultimately obtain e' t w3 where 3: "setup_pin T m uid pin w2 = (Ok (), w3)"
      "nvs V w3 = (nvs V w2)(i \<mapsto> e', j \<mapsto> t)" "provisioned m i (pin_as_bytes pin) e'"
      "tag_written PIN_VERSION_CURRENT (Some t)"
    using live_setup [OF L i j, of w2 pin m] p tcti 2(2) by auto
  obtain w4 where 4: "restart_context T m w3 = (Ok (), w4)" "nvs V w4 = nvs V w3"
    using live_restart [OF L tcti] by blast
  have "migrate_legacy_pin_format T m uid pin w = (Ok (), w4)"
    using False 1 2 3 4 by (simp add: migrate_legacy_pin_format_def andThen_def ok_def)
  then show ?thesis using False 3 4 provisioned_account [OF i j 3(3,4)] by simp
qed

lemma verify_refines:
  assumes R: "ready T V m uid w" and p: "length pin \<le> 64"
    and run: "verify_pin T m uid pin w = (r, w')"
  shows "(value_of r, account_of T uid (nvs V w')) =
    spec_verify (max_attempts (policy m)) pin (account_of T uid (nvs V w))"
proof -
  let ?acct = "account_of T uid (nvs V w)"
  obtain i j where i: "nv_index_for_uid T uid = Ok i" and j: "version_nv_index_for_uid T uid = Ok j"
    using ready_indices [OF R] .
  from R have L: "tss_live T V" and wf: "wf_uid T uid (nvs V w)"
      and tcti: "tcti_check T (mgr_tcti_spec m) = None"
    by (auto simp: ready_def)
  note S = live_sound [OF L]
  show ?thesis
  proof (cases ?acct)
    case Unset
    then have "(\<forall>v. r \<noteq> Ok v) \<and> nvs V w' = nvs V w"
      using verify_unwritten [OF S wf i _ run] account_simps(2) [OF i Unset] by simp
    then show ?thesis using Unset by (cases r) auto
  next
    case Unwritten
    then have "(\<forall>v. r \<noteq> Ok v) \<and> nvs V w' = nvs V w"
      using verify_unwritten [OF S wf i _ run] account_simps(4) [OF i] by fastforce
    then show ?thesis using Unwritten by (cases r) auto
  next
    case (Set a s v)
    then obtain e where e: "nvs V w i = Some e" "slot_entry_ok e" "entry_pin e = Some s" "e_auth e = a"
        and v: "tag_of T uid (nvs V w) = map_option (\<lambda>x. [x]) v"
      using account_Set [OF wf i Set] by blast
    obtain w0 where w0: "clear_sessions T w = (Ok () :: (unit, pin_error) res, w0)" "nvs V w0 = nvs V w"
      using live_clear [OF L] by blast
    obtain t w1 where t: "read_pin_version_tag T uid w0 = (Ok t, w1)" "nvs V w1 = nvs V w"
        "tag_of T uid (nvs V w) = (case t of None \<Rightarrow> None | Some v \<Rightarrow> Some [v])"
      using live_read_tag [OF L j, of w0] wf w0(2) by auto
    then have tv: "t = v" using v by (cases t; cases v) auto
    have e1: "nvs V w1 i = Some e" using e t by simp
    have account: "account_of T uid ((nvs V w)(i \<mapsto> set_pin s' e)) = Set a s' v" for s'
      using e v tag_of_slot_upd [OF i]
      by (intro account_simps(3) [OF i, where e = "set_pin s' e"]) auto
    note run1 = run [unfolded verify_pin_def andThen_def [of "clear_sessions T"]
        andThen_def [of "read_pin_version_tag T uid"]]
    show ?thesis
    proof (cases v)
      case (Some x)
      show ?thesis
      proof (cases "x = PIN_VERSION_CURRENT")
        case True
        obtain w2 where "verify_pin_exact T uid (pin_as_bytes pin) w1 =
            (Ok (fst (exact_outcome (auth_eq a (pin_as_bytes pin)) s)), w2)"
          "nvs V w2 = (nvs V w)(i \<mapsto> set_pin (snd (exact_outcome (auth_eq a (pin_as_bytes pin)) s)) e)"
          using live_verify_exact [OF L i e1 e(2,3), of "pin_as_bytes pin"] p e(4) t(2)
          by (auto simp: pin_as_bytes_def as_bytes_def)
        then show ?thesis
          using run1 w0(1) t(1) tv Some True Set account by (auto simp: split_beta)
      next
        case False
        then show ?thesis
          using run1 w0(1) t tv Some Set by (auto simp: err_def)
      qed
    next
      case None
      let ?legacy = "normalize_legacy_pin pin"
      let ?o = "exact_outcome (auth_eq a (as_bytes ?legacy)) s"
      have "length (as_bytes ?legacy) \<le> 64"
        using length_normalize [of pin] p by (simp add: as_bytes_def)
      then obtain w2 where 2: "verify_pin_exact T uid (as_bytes ?legacy) w1 = (Ok (fst ?o), w2)"
          "nvs V w2 = (nvs V w)(i \<mapsto> set_pin (snd ?o) e)"
        using live_verify_exact [OF L i e1 e(2,3), of "as_bytes ?legacy"] e(4) t(2) by auto
      show ?thesis
      proof (cases "is_success (fst ?o)")
        case True
        obtain w3 where 3: "restart_context T m w2 = (Ok (), w3)" "nvs V w3 = nvs V w2"
          using live_restart [OF L tcti] by blast
        have "wf_uid T uid (nvs V w3)"
          using evolvesD [OF verify_pin_exact_step [OF S] 2(1)] wf t(2) 3(2) by (simp add: uid_step_def)
        then obtain w4 where 4: "migrate_legacy_pin_format T m uid pin w3 = (Ok (), w4)"
            "account_of T uid (nvs V w4) =
              (if ?legacy = pin then Set a (snd ?o) (Some PIN_VERSION_CURRENT)
               else fresh_account (max_attempts (policy m)) pin)"
          using live_migrate [OF L i j, of w3 "set_pin (snd ?o) e" "snd ?o" pin m] 2(2) 3(2) p tcti e(4)
          by auto
        obtain w5 where 5: "restart_context T m w4 = (Ok (), w5)" "nvs V w5 = nvs V w4"
          using live_restart [OF L tcti] by blast
        have "r = Ok (fst ?o) \<and> w' = w5"
          using run1 w0(1) t(1) tv None 2(1) True 3(1) 4(1) 5(1)
          by (simp add: andThen_def matchRes_def ok_def)
        then show ?thesis using 4(2) 5(2) None Set True by (simp add: Let_def split_beta)
      next
        case False
        have "r = Ok (fst ?o) \<and> w' = w2"
          using run1 w0(1) t(1) tv None 2(1) False by (simp add: andThen_def ok_def)
        then show ?thesis using 2(2) None Set False account by (simp add: Let_def split_beta)
      qed
    qed
  qed
qed

lemma delete_auth_refines:
  assumes R: "ready T V m uid w" and p: "length pin \<le> 64"
    and run: "delete_pin_with_auth T m uid pin w = (r, w')"
  shows "(value_of r, account_of T uid (nvs V w')) =
    spec_delete_auth (max_attempts (policy m)) pin (account_of T uid (nvs V w))"
proof -
  obtain r1 w1 where 1: "verify_pin T m uid pin w = (r1, w1)" by fastforce
  have S: "tss_sound T V" using R live_sound by (auto simp: ready_def)
  note R1 = ready_step [OF R verify_pin_step [OF S] 1]
  note spec = verify_refines [OF R p 1]
  show ?thesis
  proof (cases "\<exists>s. r1 = Ok (VerifySuccess s)")
    case True
    then obtain s where s: "r1 = Ok (VerifySuccess s)" by blast
    obtain r2 w2 where 2: "delete_pin_admin T uid w1 = (r2, w2)" by fastforce
    note del = delete_refines [OF R1 2]
    have "account_of T uid (nvs V w1) \<noteq> Unset"
    proof
      assume "account_of T uid (nvs V w1) = Unset"
      then have *: "spec_verify (max_attempts (policy m)) pin (account_of T uid (nvs V w)) = (Some (VerifySuccess s), Unset)"
        using spec s by simp
      show False
        using * by (cases "account_of T uid (nvs V w)"; cases "case account_of T uid (nvs V w) of Set a s v \<Rightarrow> v | _ \<Rightarrow> None")
          (auto simp: Let_def fresh_account_def split: prod.splits if_splits)
    qed
    then have "spec_delete (account_of T uid (nvs V w1)) = (Some (), Unset)"
      by (cases "account_of T uid (nvs V w1)") auto
    then have "r2 = Ok ()" "account_of T uid (nvs V w2) = Unset"
      using del(1) by (cases r2; simp)+
    then show ?thesis
      using run 1 s 2 spec [symmetric] \<open>spec_delete _ = _\<close>
      by (auto simp: delete_pin_with_auth_def andThen_def ok_def spec_delete_auth_def)
  next
    case False
    then show ?thesis
      using run 1 spec [symmetric]
      by (cases r1) (auto simp: delete_pin_with_auth_def andThen_def ok_def spec_delete_auth_def
          split: verification_result.splits)
  qed
qed

section \<open>Refinement\<close>

lemma other_accounts:
  assumes "uid_step T uid N N'" "wf_uid T uid N" "v \<noteq> uid"
  shows "account_of T v N' = account_of T v N"
proof -
  have k: "N' k = N k" if "owns T v k" for k
    using assms that layout.owner_unique [of T v k uid] by (auto simp: uid_step_def owns_def)
  have "slot_of T v N' = slot_of T v N" "tag_of T v N' = tag_of T v N"
    using k by (auto simp: slot_of_def tag_of_def owns_def split: res.splits)
  then show ?thesis by (simp only: account_of_def)
qed

lemma ready_frame:
  assumes R: "ready T V m uid w" and E: "evolves (nvs V) (uid_step T uid) f" and run: "f w = (r, w')"
  shows "ready T V m uid w'"
    and "\<forall>v. v \<noteq> uid \<longrightarrow> account_of T v (nvs V w') = account_of T v (nvs V w)"
proof -
  show "ready T V m uid w'" using ready_step [OF R E run] .
  have "wf_uid T uid (nvs V w)" using R by (simp add: ready_def)
  then show "\<forall>v. v \<noteq> uid \<longrightarrow> account_of T v (nvs V w') = account_of T v (nvs V w)"
    using other_accounts [OF evolvesD [OF E run]] by blast
qed

lemma ready_sound: "ready T V m uid w \<Longrightarrow> tss_sound T V"
  using live_sound by (auto simp: ready_def)



text \<open>C26: On a live TPM administrative deletion unsets the account, half-made ones included, and
  reports a missing one as not provisioned.\<close>
theorem delete_admin_implements_spec:
  assumes "ready T V m uid w" and "delete_pin_admin T uid w = (r, w')"
  shows "(value_of r, account_of T uid (nvs V w')) = spec_delete (account_of T uid (nvs V w)) \<and>
    (account_of T uid (nvs V w) = Unset \<longrightarrow> r = Err (NotProvisioned uid)) \<and>
    ready T V m uid w' \<and> (\<forall>v. v \<noteq> uid \<longrightarrow> account_of T v (nvs V w') = account_of T v (nvs V w))"
  using delete_refines [OF assms] ready_frame [OF assms(1) delete_pin_admin_step [OF ready_sound [OF assms(1)]] assms(2)]
  by simp


end
