(* ===== verification/Metering.thy ===== *)
theory Metering imports Account begin

text \<open>
  Attempt limiting on a live TPM: \<open>verify_pin\<close> is a metered guard, with the limit counted out
  exactly, and the lifecycle of an account.
\<close>

fun acct_left :: "account \<Rightarrow> nat" where
  "acct_left (Set a s v) = unat (pinLimit s) - unat (pinCount s)"
| "acct_left _ = 0"

fun acct_right :: "account \<Rightarrow> pin \<Rightarrow> bool" where
  "acct_right (Set a s v) pin =
     auth_eq a (if v = None then as_bytes (normalize_legacy_pin pin) else pin_as_bytes pin)"
| "acct_right _ pin = False"

text \<open>
  A limit that survives the cast to \<open>c_int\<close>, and a version this program writes (or none).
\<close>

fun acct_sane :: "account \<Rightarrow> bool" where
  "acct_sane (Set a s v) =
     (unat (pinLimit s) < 2 ^ 31 \<and> (v = None \<or> v = Some PIN_VERSION_CURRENT))"
| "acct_sane _ = True"

lemma exact_wrong:
  assumes "\<not> right \<or> \<not> pin_open s"
  shows "(\<forall>x. fst (exact_outcome right s) \<noteq> VerifySuccess x) \<and>
    unat (pinLimit (snd (exact_outcome right s))) - unat (pinCount (snd (exact_outcome right s))) =
      unat (pinLimit s) - unat (pinCount s) - 1 \<and>
    pinLimit (snd (exact_outcome right s)) = pinLimit s"
  using assms unat_succ_below [of "pinCount s" "pinLimit s"]
  by (auto simp: exact_outcome_def Let_def pin_open_def word_less_nat_alt)

lemma exact_right:
  assumes "pin_open s" "unat (pinLimit s) < 2 ^ 31"
  shows "exact_outcome True s = (VerifySuccess (s\<lparr>pinCount := 0\<rparr>), s\<lparr>pinCount := 0\<rparr>)"
proof -
  have "0 < unat (pinLimit s)" using assms(1) by (simp add: pin_open_def word_less_nat_alt)
  then have "0 < sint (pinLimit s)" using assms(2) by (simp only: zero_less_sint_iff)
  then show ?thesis using assms(1) by (simp add: exact_outcome_def Let_def slot_locked_def)
qed

lemma is_success_iff: "is_success r \<longleftrightarrow> (\<exists>s. r = VerifySuccess s)"
  by (cases r) (auto simp: is_success_def)

lemma spec_verify_wrong:
  assumes sane: "acct_sane acct" and bad: "\<not> acct_right acct pin \<or> acct_left acct = 0"
    and run: "spec_verify limit pin acct = (x, acct')"
  shows "(\<forall>s. x \<noteq> Some (VerifySuccess s)) \<and> acct_left acct' = acct_left acct - 1 \<and>
    acct_sane acct' \<and> acct_right acct' = acct_right acct"
proof (cases acct)
  case (Set a s v)
  have "\<not> acct_right acct pin \<or> \<not> pin_open s"
    using bad Set by (auto simp: pin_open_nat)
  then show ?thesis
    using sane run Set exact_wrong [of "acct_right acct pin" s]
    by (cases v) (auto simp: Let_def split_beta is_success_iff fun_eq_iff split: if_splits)
qed (use run in auto)

lemma spec_verify_right:
  assumes sane: "acct_sane acct" and right: "acct_right acct pin" "0 < acct_left acct"
  shows "\<exists>s. fst (spec_verify limit pin acct) = Some (VerifySuccess s)"
proof (cases acct)
  case (Set a s v)
  have "pin_open s" using right Set by (auto simp: pin_open_nat)
  then show ?thesis
    using sane Set right exact_right [of s]
    by (cases v) (auto simp: Let_def split_beta)
qed (use right in auto)

section \<open>The guard is metered\<close>

definition in_service ::
  "('w, 'z) tss_scheme \<Rightarrow> ('w, 'v) view_scheme \<Rightarrow> pin_manager \<Rightarrow> u32 \<Rightarrow> 'w \<Rightarrow> bool"
where
  "in_service T V m uid w \<longleftrightarrow>
     ready T V m uid w \<and>
     (\<forall>s. counters_of T uid (nvs V w) = Some s \<longrightarrow> unat (pinLimit s) < 2 ^ 31) \<and>
     tag_of T uid (nvs V w) \<in> {None, Some [PIN_VERSION_CURRENT]}"

lemma left_account: "attempts_left T uid N = acct_left (account_of T uid N)"
  by (auto simp: attempts_left_def counters_of_def account_of_def split: option.splits bind_splits)

lemma in_service_account:
  assumes s: "in_service T V m uid w"
  shows "acct_sane (account_of T uid (nvs V w))"
    and "account_of T uid (nvs V w) \<noteq> Unwritten \<Longrightarrow>
      pin_matches T uid (nvs V w) pin = acct_right (account_of T uid (nvs V w)) pin"
proof -
  let ?N = "nvs V w"
  from s have R: "ready T V m uid w" and wf: "wf_uid T uid ?N" by (auto simp: in_service_def ready_def)
  obtain i where i: "nv_index_for_uid T uid = Ok i" using ready_indices [OF R] .
  show "acct_sane (account_of T uid ?N)"
  proof (cases "account_of T uid ?N")
    case (Set a c v)
    then obtain e where "?N i = Some e" "entry_pin e = Some c" "tag_of T uid ?N = map_option (\<lambda>x. [x]) v"
      using account_Set [OF wf i Set] by blast
    then show ?thesis
      using s i Set by (cases v) (auto simp: in_service_def counters_of_def slot_of_def)
  qed simp_all
  show "pin_matches T uid ?N pin = acct_right (account_of T uid ?N) pin" if "account_of T uid ?N \<noteq> Unwritten"
  proof (cases "account_of T uid ?N")
    case (Set a c v)
    then obtain e where "?N i = Some e" "e_auth e = a" "tag_of T uid ?N = map_option (\<lambda>x. [x]) v"
      using account_Set [OF wf i Set] by blast
    then show ?thesis
      using i Set by (simp add: pin_matches_def slot_of_def compared_pin_def)
  next
    case Unset
    then show ?thesis using account_simps(2) [OF i Unset] i by (simp add: pin_matches_def slot_of_def)
  qed (use that in simp)
qed

lemma in_service_guarded: "in_service T V m uid w \<Longrightarrow> guarded T V uid w"
  using ready_indices live_sound by (fastforce simp: in_service_def guarded_def ready_def)

lemma verify_attempt_value:
  "verify_attempt T m uid pin w = (b, w') \<Longrightarrow>
     \<exists>r. verify_pin T m uid pin w = (r, w') \<and> b = (\<exists>s. value_of r = Some (VerifySuccess s))"
proof -
  assume "verify_attempt T m uid pin w = (b, w')"
  then obtain r where "verify_pin T m uid pin w = (r, w')" "b = (\<exists>s. r = Ok (VerifySuccess s))"
    by (auto simp: verify_attempt_iff)
  moreover have "(r = Ok x) = (value_of r = Some x)" for x by (cases r) auto
  ultimately show ?thesis by auto
qed

interpretation meter: metered_guard "verify_attempt T m uid" "in_service T V m uid"
  "\<lambda>w. attempts_left T uid (nvs V w)" "\<lambda>w. pin_matches T uid (nvs V w)"
  "\<lambda>pin. length pin \<le> 64" for T V m uid
proof
  fix w pin w'
  assume "in_service T V m uid w" "verify_attempt T m uid pin w = (True, w')"
  then show "pin_matches T uid (nvs V w) pin \<and> 0 < attempts_left T uid (nvs V w)"
    by (rule guard.accepted [OF in_service_guarded])
next
  fix w pin b w'
  assume s: "in_service T V m uid w"
    and bad: "\<not> pin_matches T uid (nvs V w) pin \<or> attempts_left T uid (nvs V w) = 0"
    and a: "verify_attempt T m uid pin w = (b, w')"
  obtain r where r: "verify_pin T m uid pin w = (r, w')" using a by (auto simp: verify_attempt_iff)
  have R: "ready T V m uid w" using s by (simp add: in_service_def)
  have S: "tss_sound T V" using R live_sound by (auto simp: ready_def)
  have "ready T V m uid w'" by (rule ready_step [OF R verify_pin_step [OF S] r])
  moreover have "tag_of T uid (nvs V w') = tag_of T uid (nvs V w)"
    "map_option pinLimit (counters_of T uid (nvs V w')) = map_option pinLimit (counters_of T uid (nvs V w))"
    using wrong_attempt(2) [OF in_service_guarded [OF s] bad r] pin_reject_effect(4,5) by fastforce+
  ultimately have "in_service T V m uid w'"
    using s by (fastforce simp: in_service_def map_option_case split: option.splits)
  then show "in_service T V m uid w' \<and> attempts_left T uid (nvs V w') \<le> attempts_left T uid (nvs V w) \<and>
      pin_matches T uid (nvs V w') = pin_matches T uid (nvs V w)"
    using guard.stays [OF in_service_guarded [OF s] bad a] by blast
next
  fix w pin b w'
  assume s: "in_service T V m uid w" and wrong: "\<not> pin_matches T uid (nvs V w) pin"
    and p: "length pin \<le> 64" and a: "verify_attempt T m uid pin w = (b, w')"
  obtain r where r: "verify_pin T m uid pin w = (r, w')" using a by (auto simp: verify_attempt_iff)
  have R: "ready T V m uid w" using s by (simp add: in_service_def)
  note spec = verify_refines [OF R p r, symmetric]
  show "attempts_left T uid (nvs V w') = attempts_left T uid (nvs V w) - 1"
  proof (cases "account_of T uid (nvs V w) = Unwritten")
    case True
    then show ?thesis using spec by (simp add: left_account)
  next
    case False
    then show ?thesis
      using spec_verify_wrong [OF in_service_account(1) [OF s] _ spec] wrong
        in_service_account(2) [OF s False] by (simp add: left_account)
  qed
next
  fix w pin
  assume s: "in_service T V m uid w" and right: "pin_matches T uid (nvs V w) pin"
    and p: "length pin \<le> 64" and left: "0 < attempts_left T uid (nvs V w)"
  have R: "ready T V m uid w" using s by (simp add: in_service_def)
  obtain b w' where a: "verify_attempt T m uid pin w = (b, w')" by fastforce
  from verify_attempt_value [OF a] obtain r where r: "verify_pin T m uid pin w = (r, w')"
      and b: "b = (\<exists>s. value_of r = Some (VerifySuccess s))"
    by blast
  have "account_of T uid (nvs V w) \<noteq> Unwritten" using left by (auto simp: left_account)
  from in_service_account(2) [OF s this] right left
  have *: "acct_right (account_of T uid (nvs V w)) pin" "0 < acct_left (account_of T uid (nvs V w))"
    by (simp_all add: left_account)
  have "value_of r = fst (spec_verify (max_attempts (policy m)) pin (account_of T uid (nvs V w)))"
    by (simp add: verify_refines [OF R p r, symmetric])
  with spec_verify_right [OF in_service_account(1) [OF s] *, of "max_attempts (policy m)"] b
  have b by simp
  then show "\<exists>w'. verify_attempt T m uid pin w = (True, w')" using a by auto
qed

section \<open>Counting out the limit\<close>

text \<open>C1: On a live TPM, once as many wrong PINs as there are attempts left have been tried, even
  the right PIN is not accepted any more.\<close>
theorem limit_locks_out:
  assumes "in_service T V m uid w"
    and "\<forall>g \<in> set pins. \<not> pin_matches T uid (nvs V w) g \<and> length g \<le> 64"
    and "attempts_left T uid (nvs V w) \<le> length pins"
    and "run_attempts (verify_attempt T m uid) pins w = (bs, w')"
    and "verify_pin T m uid pin w' = (r, w'')"
  shows "\<forall>s. r \<noteq> Ok (VerifySuccess s)"
proof -
  have "verify_attempt T m uid pin w' = (\<exists>s. r = Ok (VerifySuccess s), w'')"
    using assms(5) by (auto simp: verify_attempt_iff)
  then show ?thesis using meter.exhausted [OF assms(1-4)] by blast
qed


section \<open>From setup to verification\<close>

text \<open>Without trailing zero bytes the TPM compares authorisation values exactly.\<close>

lemma auth_norm_id: "a = [] \<or> last a \<noteq> 0 \<Longrightarrow> auth_norm a = a"
proof (cases a rule: rev_cases)
  case (snoc xs x)
  assume "a = [] \<or> last a \<noteq> 0"
  then show ?thesis using snoc by (simp add: auth_norm_def)
qed (simp add: auth_norm_def)

lemma auth_eq_exact:
  "(a = [] \<or> last a \<noteq> 0) \<Longrightarrow> (b = [] \<or> last b \<noteq> 0) \<Longrightarrow> auth_eq a b \<longleftrightarrow> a = b"
  by (simp add: auth_eq_def auth_norm_id)

text \<open>A PIN that does not end in a NUL.\<close>

definition proper_pin :: "pin \<Rightarrow> bool" where
  "proper_pin pin \<longleftrightarrow> pin \<noteq> [] \<and> last pin \<noteq> CHR 0x00 \<and> length pin \<le> 64"

lemma as_bytes_last: "pin \<noteq> [] \<Longrightarrow> last (as_bytes pin) = of_char (last pin)"
  by (simp add: as_bytes_def last_map)

lemma of_char_0: "(of_char c :: byte) = 0 \<longleftrightarrow> c = CHR 0x00"
  using of_char_byte_inj [of c "CHR 0x00"] by simp

lemma proper_auth_eq:
  assumes "proper_pin p" "proper_pin q"
  shows "auth_eq (pin_as_bytes p) (pin_as_bytes q) \<longleftrightarrow> p = q"
  using assms
  by (subst auth_eq_exact) (auto simp: proper_pin_def pin_as_bytes_def as_bytes_last of_char_0)

lemma spec_verify_fresh:
  assumes "0 < unat limit" "unat limit < 2 ^ 31"
  shows "spec_verify l q (fresh_account limit p) =
    (if auth_eq (pin_as_bytes p) (pin_as_bytes q)
     then (Some (VerifySuccess (pin_data_new 0 limit)), fresh_account limit p)
     else (Some (VerifyInvalid (limit = 1)), Set (pin_as_bytes p) (pin_data_new 1 limit) (Some PIN_VERSION_CURRENT)))"
proof -
  have o: "pin_open (pin_data_new 0 limit)" using assms(1) by (simp add: pin_open_def pin_data_new_def word_less_nat_alt)
  have "exact_outcome False (pin_data_new 0 limit) =
      (VerifyInvalid (slot_locked (pin_data_new 1 limit)), pin_data_new 1 limit)"
    using o by (simp add: exact_outcome_def Let_def pin_data_new_def)
  moreover have "slot_locked (pin_data_new 1 limit) \<longleftrightarrow> limit = 1"
    using assms slot_locked_nat [of "pin_data_new 1 limit"]
    by (auto simp: pin_data_new_def word_unat_eq_iff)
  ultimately show ?thesis
    using exact_right [OF o] assms(2) by (simp add: fresh_account_def pin_data_new_def split_beta)
qed




text \<open>C31: Verifying a PIN of a user who has none is a TPM error, not \<open>NotProvisioned\<close>: the missing
  index is met before the code that tells the two apart.\<close>
theorem verify_absent_is_tpm_error:
  assumes "ready T V m uid w" and "account_of T uid (nvs V w) = Unset"
    and "tag_of T uid (nvs V w) = None" and "verify_pin T m uid p w = (r, w')"
  shows "\<exists>x. r = Err (TpmError x)"
proof -
  obtain i j where i: "nv_index_for_uid T uid = Ok i" and j: "version_nv_index_for_uid T uid = Ok j"
    using ready_indices [OF assms(1)] .
  from assms(1) have L: "tss_live T V" and wf: "wf_uid T uid (nvs V w)" by (auto simp: ready_def)
  obtain w0 where w0: "clear_sessions T w = (Ok () :: (unit, pin_error) res, w0)" "nvs V w0 = nvs V w"
    using live_clear [OF L] by blast
  obtain t w1 where t: "read_pin_version_tag T uid w0 = (Ok t, w1)" "nvs V w1 = nvs V w"
      "tag_of T uid (nvs V w) = (case t of None \<Rightarrow> None | Some v \<Rightarrow> Some [v])"
    using live_read_tag [OF L j, of w0] wf w0(2) by auto
  have "t = None" using t(3) assms(3) by (cases t) auto
  moreover have "nvs V w1 i = None" using account_simps(2) [OF i assms(2)] t(2) by simp
  then obtain w2 rc where "verify_pin_exact T uid (as_bytes (normalize_legacy_pin p)) w1 =
      (Err (from_tss T (Tss2Error rc)), w2)"
    using live_verify_absent [OF L i] by blast
  ultimately show ?thesis
    using assms(4) w0(1) t(1) by (auto simp: verify_pin_def andThen_def from_tss_def)
qed

end
