(* ===== verification/PamFlow.thy ===== *)
theory PamFlow imports PamPin begin

text \<open>
  The flow of the PAM module by itself: what its arguments mean, and that its countdown of
  attempts never underflows.
\<close>

section \<open>Module arguments\<close>

lemma fold_from_str:
  "fold from_str args a =
     \<lparr>try_first_pass = try_first_pass a \<or> ''try_first_pass'' \<in> set args,
      use_first_pass = use_first_pass a \<or> ''use_first_pass'' \<in> set args\<rparr>"
  by (induction args arbitrary: a) (auto simp: from_str_def)

lemma from_strs_flags:
  "from_strs args =
     \<lparr>try_first_pass = ''try_first_pass'' \<in> set args, use_first_pass = ''use_first_pass'' \<in> set args\<rparr>"
  by (simp add: from_strs_def fold_from_str default_args_def)


section \<open>The countdown\<close>

text \<open>The module as built with or without overflow checks.\<close>

abbreviation built :: "bool \<Rightarrow> ('w, 'z) pam_scheme \<Rightarrow> ('w, 'z) pam_scheme" where
  "built checks P \<equiv> P\<lparr>pam_overflow_checks := checks\<rparr>"

lemma sub_u32_below: "used < limit \<Longrightarrow> sub_u32 checks limit used = ok (limit - used)"
  by (auto simp: sub_u32_def fun_eq_iff)

lemma built_policy: "pam_policy (built b P) = pam_policy P" "helper_path (built b P) = helper_path P"
proof -
  have "parse_setting (built b P) fs key val p = parse_setting P fs key val p" for fs key val p
    by (simp add: parse_setting_def parse_tcti_setting_def parse_tcti_spec_def parse_pinutil_path_def
        invalid_param_def from_tss_def cong: if_cong option.case_cong)
  then have "parse_parts (built b P) fs p parts = parse_parts P fs p parts" for fs p parts
    by (induction parts arbitrary: p) (auto simp: missing_param_def from_tss_def split: option.split res.split)
  then have "load_from_path (built b P) fs path = load_from_path P fs path" for fs path
    by (simp add: load_from_path_def parse_config_def cong: option.case_cong)
  then have "load_first (built b P) fs paths = load_first P fs paths" for fs paths
    by (induction paths) (simp_all split: option.split)
  then show "pam_policy (built b P) = pam_policy P"
    by (simp add: pam_policy_def cached_def load_from_standard_locations_def)
  then show "helper_path (built b P) = helper_path P" by (simp add: helper_path_def)
qed

lemma built_parts:
  "feed_helper (built b P) args pin = feed_helper P args pin"
  "run_pinutil_status (built b P) user = run_pinutil_status P user"
  "ask_pin (built b P) io prompt = ask_pin P io prompt"
  "finalize_outcome (built b P) io outcome = finalize_outcome P io outcome"
  by (simp_all add: feed_helper_def run_pinutil_status_def ask_pin_def built_policy
      cong: if_cong option.case_cong sum.case_cong res.case_cong pin_error.case_cong)
    (cases outcome; simp)

lemma built_test: "run_pinutil_test (built b P) user pin = run_pinutil_test P user pin"
  by (simp add: run_pinutil_test_def built_parts cong: sum.case_cong)

lemma built_prompt:
  "used < limit \<Longrightarrow> prompt_for_pin (built b P) io used limit = prompt_for_pin P io used limit"
  by (simp add: prompt_for_pin_def sub_u32_below built_parts cong: if_cong)

lemma built_prompt_and_test:
  "prompt_and_test (built b P) io user used limit = prompt_and_test P io user used limit"
proof (cases "limit \<le> used")
  case False
  have "finalize_outcome (built b P) io = finalize_outcome P io" by (rule ext) (rule built_parts)
  then show ?thesis
    using False built_prompt [of used limit b P io]
    by (simp add: prompt_and_test_def test_or_unavailable_def built_test)
qed (simp add: prompt_and_test_def)

lemma built_after_first_pass:
  "after_first_pass (built b P) io a user used limit = after_first_pass P io a user used limit"
  by (rule ext) (simp add: after_first_pass_def built_parts built_prompt_and_test)

text \<open>C39: The countdown \<open>limit - used\<close> of the prompt never underflows: an authentication runs the same way,
  for every count and limit the helper may report, in a build with overflow checks and in one without.\<close>
theorem countdown_never_underflows:
  "authenticate_user (P\<lparr>pam_overflow_checks := True\<rparr>) io user a authtok =
     authenticate_user (P\<lparr>pam_overflow_checks := False\<rparr>) io user a authtok"
proof -
  have "authenticate_user (built b P) io user a authtok = authenticate_user P io user a authtok" for b
    by (simp add: authenticate_user_def built_parts built_policy built_prompt_and_test
        test_or_unavailable_def built_test built_after_first_pass
        cong: res.case_cong pin_status.case_cong first_pass_decision.case_cong)
  then show ?thesis by simp
qed

end
