(* ===== verification/MasterKeyPam.thy ===== *)
theory MasterKeyPam imports PamPin begin

text \<open>
  \<open>pinpam-master-key-pam/src/lib.rs\<close>: the PAM module that stamps \<open>PAM_AUTHTOK\<close> with the
  user's token, obtained from \<open>pinutil\<close>.
\<close>

record 'w mk_pam = "'w pam" +
  json_token :: "string \<Rightarrow> string + (pin_error + string)"
  set_item_authtok :: "string \<Rightarrow> ('w, unit) c_call"

definition derive_user_token_via_pinutil ::
  "('w, 'z) mk_pam_scheme \<Rightarrow> string \<Rightarrow> ('w, string, string) eff"
where
  "derive_user_token_via_pinutil P username =
     andThen
       (mapErr (\<lambda>e. ''failed to execute pinutil via '' @ helper_path P @ '': '' @ e)
         (command_output P (helper_path P) [''-m'', ''master-key'', ''get-user-token'', username]))
       (\<lambda>output.
     let stdout = from_utf8_lossy (out_bytes output); stderr = from_utf8_lossy (err_bytes output) in
     if \<not> exit_success output then
       err (''pinutil exited with '' @ status_text output @ '': '' @ trim stderr)
     else
       (case json_token P stdout of
          Inl e \<Rightarrow> err (''pinutil output isn't valid JSON or is malformed: '' @ e @ ''; stdout='' @
            [CHR 0x27] @ trim stdout @ [CHR 0x27] @ '' stderr='' @ [CHR 0x27] @ trim stderr @ [CHR 0x27])
        | Inr (Inl e) \<Rightarrow> err (''pinutil returned an error: '' @ show_pin_error P e)
        | Inr (Inr token) \<Rightarrow> ok token))"

definition get_pam_user :: "('w, 'z) mk_pam_scheme \<Rightarrow> ('w, string, pam_code) eff" where
  "get_pam_user P =
     andThen (ffi (pam_get_user P)) (\<lambda>u.
     case u of
       None \<Rightarrow> err USER_UNKNOWN
     | Some s \<Rightarrow> if valid_utf8 s then ok s else err SYSTEM_ERR)"

definition set_pam_authtok :: "('w, 'z) mk_pam_scheme \<Rightarrow> string \<Rightarrow> ('w, unit, pam_code) eff" where
  "set_pam_authtok P authtok = andThen (ffi (set_item_authtok P authtok)) (\<lambda>_. ok ())"

text \<open>\<open>CString::new\<close>: refused when the text contains a NUL.\<close>

definition build_user_token_cstring ::
  "('w, 'z) mk_pam_scheme \<Rightarrow> string \<Rightarrow> ('w, string, pam_code) eff"
where
  "build_user_token_cstring P user =
     matchRes (derive_user_token_via_pinutil P user)
       (\<lambda>token. if CHR 0x00 \<in> set token then err AUTH_ERR else ok token)
       (\<lambda>_. err AUTH_ERR)"

definition mk_pam_sm_authenticate :: "('w, 'z) mk_pam_scheme \<Rightarrow> ('w, pam_code, pam_code) eff" where
  "mk_pam_sm_authenticate P =
     matchRes (get_pam_user P)
       (\<lambda>user.
          matchRes (build_user_token_cstring P user)
            (\<lambda>c_token. matchRes (set_pam_authtok P c_token) (\<lambda>_. ok IGNORE) (\<lambda>_. ok IGNORE))
            (\<lambda>_. ok IGNORE))
       (\<lambda>_. ok IGNORE)"

definition mk_pam_sm_setcred :: pam_code where "mk_pam_sm_setcred = IGNORE"

section \<open>Properties\<close>

lemma build_token_D:
  assumes "build_user_token_cstring P user w = (r, w')"
  shows "w' = snd (command_output P (helper_path P) [''-m'', ''master-key'', ''get-user-token'', user] w)"
    and "r = Ok t \<Longrightarrow> CHR 0x00 \<notin> set t \<and>
     (\<exists>output. fst (command_output P (helper_path P) [''-m'', ''master-key'', ''get-user-token'', user] w) = Ok output \<and>
        exit_success output \<and> json_token P (from_utf8_lossy (out_bytes output)) = Inr (Inr t))"
  using assms
  unfolding build_user_token_cstring_def derive_user_token_via_pinutil_def
  by (auto simp: andThen_def matchRes_def mapErr_def ok_def err_def Let_def
      split: if_splits sum.splits res.splits prod.splits)

text \<open>C24: The master-key PAM module never grants or denies anything: it answers IGNORE, or a call it makes
  panics.  It asks for the user's name, then at most runs the helper for that user, then at most
  stores a token, and what it stores is the NUL-free token of a successful helper run.\<close>
theorem mk_module_only_stamps:
  "case mk_pam_sm_authenticate P w of (r, w') \<Rightarrow>
     (case r of Ok code \<Rightarrow> code = IGNORE | Err _ \<Rightarrow> False | Panic _ \<Rightarrow> True) \<and>
     (let (u, w1) = pam_get_user P w in
        w' = w1 \<or>
        (\<exists>user. u = (SUCCESS, Some user) \<and> valid_utf8 user \<and>
           (let (ran, w2) = command_output P (helper_path P) [''-m'', ''master-key'', ''get-user-token'', user] w1 in
              w' = w2 \<or>
              (\<exists>output token. ran = Ok output \<and> exit_success output \<and>
                 json_token P (from_utf8_lossy (out_bytes output)) = Inr (Inr token) \<and>
                 CHR 0x00 \<notin> set token \<and> w' = snd (set_item_authtok P token w2)))))"
proof -
  let ?run = "\<lambda>user. command_output P (helper_path P) [''-m'', ''master-key'', ''get-user-token'', user]"
  obtain st u w1 where 1: "pam_get_user P w = ((st, u), w1)" by (metis surj_pair)
  show ?thesis
  proof (cases "\<exists>user. (st, u) = (SUCCESS, Some user) \<and> valid_utf8 user")
    case False
    then have "mk_pam_sm_authenticate P w = (Ok IGNORE, w1)"
      using 1 by (auto simp: mk_pam_sm_authenticate_def get_pam_user_def ffi_def matchRes_def andThen_def
          ok_def err_def split: option.splits)
    then show ?thesis using 1 by (simp add: Let_def)
  next
    case True
    then obtain user where u: "st = SUCCESS" "u = Some user" "valid_utf8 user" by auto
    obtain r2 w2 where 2: "build_user_token_cstring P user w1 = (r2, w2)" by fastforce
    obtain ran w3 where 3: "?run user w1 = (ran, w3)" by fastforce
    have w: "w2 = w3" using build_token_D(1) [OF 2] 3 by simp
    have m: "mk_pam_sm_authenticate P w = (case r2 of
        Ok t \<Rightarrow> matchRes (set_pam_authtok P t) (\<lambda>_. ok IGNORE) (\<lambda>_. ok IGNORE) w2
      | Err e \<Rightarrow> (Ok IGNORE, w2) | Panic s \<Rightarrow> (Panic s, w2))"
      using 1 2 u by (auto simp: mk_pam_sm_authenticate_def get_pam_user_def ffi_def matchRes_def andThen_def
          ok_def split: res.splits)
    show ?thesis
    proof (cases r2)
      case (Ok t)
      obtain st4 w4 where 4: "set_item_authtok P t w2 = (st4, w4)" by fastforce
      have "mk_pam_sm_authenticate P w = (Ok IGNORE, w4)"
        using m Ok 4 by (auto simp: set_pam_authtok_def ffi_def matchRes_def andThen_def ok_def split: prod.splits)
      then show ?thesis using build_token_D(2) [OF 2 Ok] 1 3 4 u w by (auto simp: Let_def)
    qed (use m 1 3 u w in \<open>auto simp: Let_def\<close>)
  qed
qed

end
