(* ===== verification/NoPanic.thy ===== *)
theory NoPanic imports Pinutil PamFlow MasterKeyPam begin

text \<open>
  Panic freedom.  A panic of \<open>pinutil\<close> in the middle of a command, or one that unwinds out of a PAM
  module into C, would lose the command's answer; here every operation of the program is shown to
  come back with a value or an error, when the calls it makes do.
\<close>

section \<open>Answers\<close>

text \<open>\<open>m\<close> never panics, and its errors satisfy \<open>Q\<close>.\<close>

definition answers :: "('e \<Rightarrow> bool) \<Rightarrow> ('w, 'a, 'e) eff \<Rightarrow> bool" where
  "answers Q m \<longleftrightarrow> (\<forall>w. case fst (m w) of Ok _ \<Rightarrow> True | Err e \<Rightarrow> Q e | Panic _ \<Rightarrow> False)"

abbreviation calm :: "('w, 'a, 'e) eff \<Rightarrow> bool" where
  "calm \<equiv> answers (\<lambda>_. True)"

lemma answers_wp: "answers Q m \<longleftrightarrow>
    (\<forall>w. wp m (\<lambda>r _. case r of Ok _ \<Rightarrow> True | Err e \<Rightarrow> Q e | Panic _ \<Rightarrow> False) w)"
  by (simp add: answers_def wp_fst_snd)

lemma ok_answers: "answers Q (ok x)"
  by (simp add: answers_def ok_def)

lemma err_answers: "Q e \<Longrightarrow> answers Q (err e)"
  by (simp add: answers_def err_def)

lemma pure_answers: "(\<And>e. r = Err e \<Longrightarrow> Q e) \<Longrightarrow> (\<And>s. r \<noteq> Panic s) \<Longrightarrow> answers Q (pure r)"
  by (simp add: answers_def pure_def split: res.split)

lemma act_answers: "answers Q (act f)"
  by (simp add: answers_def act_def)

lemma peek_answers: "answers Q (peek f)"
  by (simp add: answers_def peek_def)

lemma answersI: "(\<And>w. (\<forall>e. fst (m w) = Err e \<longrightarrow> Q e) \<and> (\<forall>s. fst (m w) \<noteq> Panic s)) \<Longrightarrow> answers Q m"
  by (simp add: answers_def split: res.split)

lemma answersD: "answers Q m \<Longrightarrow> m w = (r, w') \<Longrightarrow> (\<forall>e. r = Err e \<longrightarrow> Q e) \<and> (\<forall>s. r \<noteq> Panic s)"
  unfolding answers_def by (drule spec [of _ w]) auto

lemma andThen_answers:
  fixes m :: "('w, 'a, 'e) eff"
  assumes "answers Q m" "\<And>x w w'. m w = (Ok x, w') \<Longrightarrow> answers Q (k x)"
  shows "answers Q (andThen m k)"
proof (rule answersI)
  fix w :: 'w
  obtain r w1 where m: "m w = (r, w1)" by fastforce
  show "(\<forall>e. fst (andThen m k w) = Err e \<longrightarrow> Q e) \<and> (\<forall>s. fst (andThen m k w) \<noteq> Panic s)"
  proof (cases r)
    case (Ok x)
    then have "answers Q (k x)" using assms(2) m by blast
    then show ?thesis using Ok m answersD [of Q "k x" w1] by (metis andThen_Ok prod.collapse)
  qed (use answersD [OF assms(1) m] m in \<open>simp_all add: andThen_def\<close>)
qed

lemma matchRes_answers:
  fixes m :: "('w, 'a, 'e) eff"
  assumes "answers P m" "\<And>x. answers Q (k x)" "\<And>e. P e \<Longrightarrow> answers Q (h e)"
  shows "answers Q (matchRes m k h)"
proof (rule answersI)
  fix w :: 'w
  obtain r w1 where m: "m w = (r, w1)" by fastforce
  show "(\<forall>e. fst (matchRes m k h w) = Err e \<longrightarrow> Q e) \<and> (\<forall>s. fst (matchRes m k h w) \<noteq> Panic s)"
  proof (cases r)
    case (Ok x)
    then show ?thesis using answersD [OF assms(2), of x w1] matchRes_Ok [of m w x w1 k h] m
      by (metis prod.collapse)
  next
    case (Err e)
    then have "answers Q (h e)" using assms(3) answersD [OF assms(1) m] by blast
    then show ?thesis using Err m answersD [of Q "h e" w1] matchRes_Err [of m w e w1 k h] by (metis prod.collapse)
  qed (use answersD [OF assms(1) m] m in simp)
qed

lemma mapErr_answers: "answers (\<lambda>e. Q (f e)) m \<Longrightarrow> answers Q (mapErr f m)"
  unfolding mapErr_def by (rule matchRes_answers [where P = "\<lambda>e. Q (f e)"]) (auto intro: ok_answers err_answers)

lemma ignore_answers: "calm m \<Longrightarrow> answers Q (ignore m)"
  unfolding ignore_def by (rule matchRes_answers [where P = "\<lambda>_. True"]) (auto intro: ok_answers)

lemma if_answers: "(b \<Longrightarrow> answers Q m) \<Longrightarrow> (\<not> b \<Longrightarrow> answers Q n) \<Longrightarrow> answers Q (if b then m else n)"
  by simp

lemma option_answers:
  "(x = None \<Longrightarrow> answers Q m) \<Longrightarrow> (\<And>y. x = Some y \<Longrightarrow> answers Q (n y)) \<Longrightarrow>
     answers Q (case x of None \<Rightarrow> m | Some y \<Rightarrow> n y)"
  by (cases x) simp_all

lemma sum_answers:
  "(\<And>y. answers Q (m y)) \<Longrightarrow> (\<And>y. answers Q (n y)) \<Longrightarrow> answers Q (case x of Inl y \<Rightarrow> m y | Inr y \<Rightarrow> n y)"
  by (cases x) simp_all

lemma prod_answers: "(\<And>a b. answers Q (m a b)) \<Longrightarrow> answers Q (case x of (a, b) \<Rightarrow> m a b)"
  by (cases x) simp

lemma res_answers:
  "(\<And>y. answers Q (m y)) \<Longrightarrow> (\<And>y. answers Q (n y)) \<Longrightarrow> (\<And>s. x \<noteq> Panic s) \<Longrightarrow>
     answers Q (case x of Ok y \<Rightarrow> m y | Err y \<Rightarrow> n y | Panic s \<Rightarrow> k s)"
  by (cases x) auto

lemma Let_answers: "answers Q (f x) \<Longrightarrow> answers Q (Let x f)"
  by simp

lemma checked_answers: "calm (checked c x)" "calm (checked_io d y)"
  by (auto simp: checked_def checked_io_def intro: ok_answers err_answers split: option.split)

lemmas calm_intros =
  ok_answers err_answers act_answers peek_answers andThen_answers matchRes_answers [where P = "\<lambda>_. True"]
  mapErr_answers ignore_answers if_answers option_answers sum_answers prod_answers Let_answers
  checked_answers TrueI

section \<open>The PIN manager\<close>

text \<open>
  The calls of \<open>tss-esapi\<close> answer.  A session that is started is there (the code \<open>expect\<close>s
  it), and eight bytes fit an NV buffer (the code \<open>unwrap\<close>s the conversion).
\<close>

definition calm_tss :: "('w, 'z) tss_scheme \<Rightarrow> bool" where
  "calm_tss T \<longleftrightarrow>
     (\<forall>c. calm (context_new T c)) \<and> calm (nullauth_begin T) \<and> calm (nullauth_end T) \<and>
     (\<forall>t. calm (start_auth_session T t)) \<and> (\<forall>s. calm (tr_sess_set_attributes T s)) \<and>
     (\<forall>s c. calm (policy_command_code T s c)) \<and> (\<forall>s b. calm (policy_nv_written T s b)) \<and>
     (\<forall>s. calm (policy_get_digest T s)) \<and> (\<forall>s. calm (flush_context T s)) \<and>
     (\<forall>i. calm (tr_from_tpm_public T i)) \<and> (\<forall>h a. calm (tr_set_auth T h a)) \<and>
     (\<forall>a h n k. calm (nv_read T a h n k)) \<and> (\<forall>a i. calm (nv_read_full T a i)) \<and>
     (\<forall>a h d k. calm (nv_write T a h d k)) \<and> (\<forall>a p. calm (nv_define_space T a p)) \<and>
     (\<forall>h. calm (nv_undefine_space T h)) \<and>
     (\<forall>t w w'. start_auth_session T t w \<noteq> (Ok None, w')) \<and>
     (\<forall>b. length b = PIN_DATA_SIZE \<longrightarrow> max_nv_buffer_check T b = None)"

lemma tss_answers:
  assumes "calm_tss T"
  shows "calm (context_new T c)" "calm (nullauth_begin T)" "calm (nullauth_end T)"
    "calm (start_auth_session T st)" "calm (tr_sess_set_attributes T s)"
    "calm (policy_command_code T s cc)" "calm (policy_nv_written T s b)" "calm (policy_get_digest T s)"
    "calm (flush_context T s)" "calm (tr_from_tpm_public T i)" "calm (tr_set_auth T h a)"
    "calm (nv_read T na h n k)" "calm (nv_read_full T na i)" "calm (nv_write T na h d k)"
    "calm (nv_define_space T oa pub)" "calm (nv_undefine_space T h)"
  using assms by (simp_all add: calm_tss_def)

lemma clear_answers: "answers Q (clear_sessions T)"
  unfolding clear_sessions_def by (rule act_answers)

lemma then_clear_answers: "calm f \<Longrightarrow> calm (then_clear T f)"
  unfolding then_clear_def by (intro calm_intros clear_answers)

lemma bracket_answers:
  assumes "calm f"
  shows "calm (without_session T f)" "calm (with_session T s f)"
    "calm_tss T \<Longrightarrow> calm (with_nullauth T f)"
  unfolding without_session_def with_session_def with_nullauth_def
  by (intro calm_intros tss_answers assms; assumption)+

lemma index_answers:
  "answers (\<lambda>_. True) (pure (nv_index_for_uid T uid))"
  "answers (\<lambda>_. True) (pure (version_nv_index_for_uid T uid))"
  "answers (\<lambda>_. True) (pure (parse_tcti_spec T spec))"
  by (auto intro!: pure_answers simp: nv_index_for_uid_def version_nv_index_for_uid_def parse_tcti_spec_def
      split: option.splits if_splits)

lemmas tss_calm = calm_intros tss_answers clear_answers then_clear_answers bracket_answers index_answers

lemma context_answers:
  assumes "calm_tss T" shows "calm (manager_new T p)" "calm (restart_context T m)"
  unfolding manager_new_def with_tcti_def restart_context_def by (intro tss_calm assms)+

lemma read_answers:
  assumes "calm_tss T"
  shows "calm (read_pin_slot_owner T i)" "calm (get_pin_slot T uid)" "calm (get_attempt_count T uid)"
    "calm (read_pin_version_tag T uid)"
  unfolding get_pin_slot_def get_attempt_count_def read_pin_version_tag_def read_pin_slot_owner_def
  by (intro tss_calm assms)+

lemma tag_answers:
  assumes "calm_tss T"
  shows "calm (write_pin_version_tag T uid v)" "calm (delete_pin_version_tag T uid)"
  unfolding write_pin_version_tag_def delete_pin_version_tag_def write_pin_version_tag_existing_def
    define_pin_version_tag_def
  by (intro tss_calm assms; auto intro!: tss_calm assms split: pin_error.split)+

lemma delete_admin_answers: "calm_tss T \<Longrightarrow> calm (delete_pin_admin T uid)"
  unfolding delete_pin_admin_def by (intro tss_calm tag_answers)

lemma start_policy_answers:
  assumes "calm_tss T" shows "calm (start_write_policy T st what)"
  unfolding start_write_policy_def
proof (rule andThen_answers)
  fix opt w w' assume "start_auth_session T st w = (Ok opt, w')"
  then obtain s where "opt = Some s" using assms by (cases opt) (auto simp: calm_tss_def)
  then show "calm (case opt of None \<Rightarrow> panic what | Some s \<Rightarrow>
      andThen (tr_sess_set_attributes T s) (\<lambda>_. andThen (checked (policy_session_check T s) s) (\<lambda>policy_session.
      andThen (tr_sess_set_attributes T policy_session) (\<lambda>_.
      andThen (policy_command_code T policy_session CcNvWrite) (\<lambda>_.
      andThen (policy_nv_written T policy_session False) (\<lambda>_. ok policy_session))))))"
    by simp (intro tss_calm assms)
qed (intro tss_calm assms)

lemma define_answers:
  assumes "calm_tss T"
  shows "calm (define_pin_slot T m i a)"
proof -
  have "max_nv_buffer_check T (to_bytes s) = None" for s
    using assms by (simp add: calm_tss_def PIN_DATA_SIZE_def)
  then have "calm (write_initial_slot T m i b)" for b
    unfolding write_initial_slot_def Let_def by simp (intro tss_calm start_policy_answers assms)
  then show ?thesis
    unfolding define_pin_slot_def pin_slot_template_def by (intro tss_calm start_policy_answers assms)
qed

lemma setup_answers: "calm_tss T \<Longrightarrow> calm (setup_pin T m uid pin)"
  unfolding setup_pin_def
  by (intro tss_calm read_answers define_answers context_answers tag_answers delete_admin_answers)

lemma verify_answers:
  assumes "calm_tss T"
  shows "calm (verify_pin T m uid pin)"
proof -
  have "calm (migrate_legacy_pin_format T m uid p)" for p
    unfolding migrate_legacy_pin_format_def
    by (intro tss_calm tag_answers delete_admin_answers context_answers setup_answers assms)
  moreover have "calm (verify_pin_exact T uid a)" for a
    unfolding verify_pin_exact_def by (intro tss_calm read_answers assms)
  ultimately show ?thesis
    unfolding verify_pin_def by (intro tss_calm read_answers context_answers assms)
qed

lemma delete_auth_answers: "calm_tss T \<Longrightarrow> calm (delete_pin_with_auth T m uid pin)"
  unfolding delete_pin_with_auth_def
  by (auto intro!: tss_calm verify_answers delete_admin_answers split: verification_result.split)

section \<open>The master key\<close>

text \<open>The calls of the master-key module answer too.\<close>

definition calm_platform :: "('w, 'z) platform_scheme \<Rightarrow> bool" where
  "calm_platform E \<longleftrightarrow>
     calm_tss E \<and> (\<forall>h. calm (tr_from_persistent E h)) \<and> (\<forall>p. calm (create_primary E p)) \<and>
     (\<forall>h p. calm (evict_control E h p)) \<and> (\<forall>h. calm (tr_close E h)) \<and>
     (\<forall>h p s. calm (create_key E h p s)) \<and> (\<forall>h b p. calm (load_key E h b p)) \<and>
     (\<forall>h b a. calm (hmac E h b a)) \<and> (\<forall>n. calm (os_rng E n)) \<and> calm (mnemonic24 E) \<and>
     (\<forall>m t p pw salt n s. argon2id_v13 E m t p pw salt n \<noteq> Panic s) \<and>
     (\<forall>k n b s. aes_encrypt E k n b \<noteq> Panic s) \<and> (\<forall>k n b s. aes_decrypt E k n b \<noteq> Panic s) \<and>
     (\<forall>b s. b64_decode E b \<noteq> Panic s) \<and> (\<forall>f s. sealed_to_json E f \<noteq> Panic s) \<and>
     (\<forall>b s. sealed_of_json E b \<noteq> Panic s) \<and>
     (\<forall>f. calm (remove_file E f)) \<and> (\<forall>f. calm (create_dir_all E f)) \<and>
     (\<forall>f m. calm (set_permissions E f m)) \<and> (\<forall>f u g. calm (chown E f u g)) \<and>
     (\<forall>f m. calm (open_create_new E f m)) \<and> (\<forall>n b. calm (write_all E n b)) \<and>
     (\<forall>f. calm (read_file E f))"

lemma platform_answers:
  assumes "calm_platform E"
  shows "calm_tss E" "calm (tr_from_persistent E ph)" "calm (create_primary E pub)"
    "calm (evict_control E h ph)" "calm (tr_close E h)" "calm (create_key E h pub d)"
    "calm (load_key E h d pub)" "calm (hmac E h d alg)" "calm (os_rng E n)" "calm (mnemonic24 E)"
    "calm (pure (argon2id_v13 E m t p d salt n))" "calm (pure (aes_encrypt E k nonce d))"
    "calm (pure (aes_decrypt E k nonce d))" "calm (pure (b64_decode E txt))"
    "calm (pure (sealed_to_json E file))" "calm (pure (sealed_of_json E d))"
    "calm (remove_file E f)" "calm (create_dir_all E f)" "calm (set_permissions E f md)"
    "calm (chown E f u g)" "calm (open_create_new E f md)" "calm (write_all E n d)" "calm (read_file E f)"
  using assms by (simp_all add: calm_platform_def pure_answers)

lemmas key_calm = tss_calm platform_answers

lemma root_answers: "calm (ensure_root_real_uid ps)"
  unfolding ensure_root_real_uid_def by (intro calm_intros)

lemma present_answers:
  assumes "calm_platform E" shows "calm (persistent_present E h)"
  unfolding persistent_present_def
  by (intro key_calm assms; auto intro!: calm_intros split: tss_error.split option.split rc_kind.split)

lemma new_context_answers: "calm_platform E \<Longrightarrow> calm (new_context E p)"
  unfolding new_context_def by (intro key_calm)

lemma key_status_answers: "calm_platform E \<Longrightarrow> calm (mk_status E p)"
  unfolding mk_status_def tpm_status_def by (intro key_calm new_context_answers present_answers)

lemma provision_answers: "calm_platform E \<Longrightarrow> calm (provision_tpm_objects E p k)"
  unfolding provision_tpm_objects_def create_and_persist_rsa_parent_def create_and_persist_hmac_key_def
  by (intro key_calm new_context_answers present_answers)

lemma clear_tpm_answers: "calm_platform E \<Longrightarrow> calm (clear_from_tpm E ps p)"
  unfolding clear_from_tpm_def evict_persistent_if_present_def
  by (intro key_calm root_answers new_context_answers present_answers)

lemma dir_answers: "calm_platform E \<Longrightarrow> calm (ensure_dir_for_path E f b)"
  unfolding ensure_dir_for_path_def by (intro key_calm)

lemma sealing_answers:
  assumes "calm_platform E"
  shows "calm (seal_key_bytes_to_path E k ph f)" "calm (unseal_key_bytes_from_path E ph f)"
  unfolding seal_key_bytes_to_path_def unseal_key_bytes_from_path_def derive_aes_key_from_phrase_def
  by (intro key_calm dir_answers assms)+

lemma key_operations_answer:
  assumes "calm_platform E"
  shows "calm (mk_init E ps p)" "calm (import_to_tpm E ps p ph)" "calm (clear_from_disk E ps)"
    "calm (derive_user_token E p name)"
  unfolding mk_init_def import_to_tpm_def clear_from_disk_def derive_user_token_def
    generate_recovery_phrase_def
  by (intro key_calm root_answers dir_answers sealing_answers provision_answers key_status_answers
      clear_tpm_answers new_context_answers assms;
      auto intro!: calm_intros split: io_error.split)+

section \<open>\<open>pinutil\<close>\<close>

text \<open>
  The terminal answers, the two output streams accept what is written (\<open>println!\<close> panics
  otherwise), every report has a JSON text, and the subtraction of counters wraps, as it does in a
  release build.
\<close>

definition calm_os :: "('w, 'z) os_scheme \<Rightarrow> bool" where
  "calm_os E \<longleftrightarrow>
     calm_platform E \<and> \<not> overflow_checks E \<and>
     (\<forall>s. answers (\<lambda>_. False) (stdout_write E s)) \<and> (\<forall>s. answers (\<lambda>_. False) (stderr_write E s)) \<and>
     calm (stdout_flush E) \<and> calm (stderr_flush E) \<and> calm (stdin_read_line E) \<and>
     calm (tcgetattr E) \<and> (\<forall>t. calm (tcsetattr E t)) \<and> (\<forall>r. calm (ll_restrict_self E r)) \<and>
     (\<forall>r. \<exists>s. to_json E r = Ok s) \<and> (\<forall>args s. parse_cli E args \<noteq> Panic s) \<and>
     (\<forall>n s. user_from_name (user_table E) n \<noteq> Panic s)"

lemma os_answers:
  assumes "calm_os E"
  shows "calm_platform E" "calm (stdout_flush E)" "calm (stderr_flush E)" "calm (stdin_read_line E)"
    "calm (tcgetattr E)" "calm (tcsetattr E t)" "calm (ll_restrict_self E r)"
  using assms by (simp_all add: calm_os_def)

lemma sub_answers: "calm_os E \<Longrightarrow> answers Q (sub_u32 (overflow_checks E) a b)"
  by (auto simp: sub_u32_def calm_os_def intro: ok_answers)

lemma print_answers:
  assumes "calm_os E"
  shows "answers Q (print E s)" "answers Q (println E s)" "answers Q (eprint E s)" "answers Q (eprintln E s)"
proof -
  have "answers Q (print E s)" "answers Q (eprint E s)" for s
    using assms unfolding print_def eprint_def calm_os_def
    by (auto intro!: matchRes_answers [where P = "\<lambda>_. False"] ok_answers)
  then show "answers Q (print E s)" "answers Q (println E s)" "answers Q (eprint E s)" "answers Q (eprintln E s)"
    by (simp_all add: println_def eprintln_def)
qed

lemma uid_answers:
  assumes "\<forall>n s. user_from_name db n \<noteq> Panic s"
  shows "calm (pure (get_uid_from_username db name))"
  using assms by (auto intro!: pure_answers simp: get_uid_from_username_def split: res.splits option.splits)

lemma user_answers: "calm_os E \<Longrightarrow> calm (pure (get_uid_from_username (user_table E) name))"
  by (simp add: uid_answers calm_os_def)

lemma pin_new_answers: "pin_new s p \<noteq> Panic x" "calm (pure (pin_new s p))"
proof -
  show "pin_new s p \<noteq> Panic x" for x
    by (auto simp: pin_new_def validate_def Let_def split: res.splits if_splits option.splits)
  then show "calm (pure (pin_new s p))" by (intro pure_answers) auto
qed

lemmas os_calm =
  key_calm os_answers sub_answers print_answers user_answers pin_new_answers

lemma prompt_answers:
  assumes "calm_os E"
  shows "calm (prompt_line E s)" "calm (prompt_pin E s a machine)" "calm (prompt_new_pin E k c machine)"
  unfolding prompt_new_pin_def prompt_line_def prompt_pin_def by (intro os_calm assms)+

lemma manager_answers:
  assumes "calm_os E" shows "calm (new_manager E)" "calm (get_attempt_info E uid)"
  unfolding new_manager_def get_attempt_info_def by (intro os_calm context_answers read_answers assms)+

lemma result_answers:
  "(\<And>x. answers Q (f x)) \<Longrightarrow> (\<And>l. answers Q (g l)) \<Longrightarrow> answers Q h \<Longrightarrow>
     answers Q (case r of VerifySuccess x \<Rightarrow> f x | VerifyInvalid l \<Rightarrow> g l | VerifyLockedOut \<Rightarrow> h)"
  "answers Q f' \<Longrightarrow> (\<And>l. answers Q (g' l)) \<Longrightarrow> answers Q h' \<Longrightarrow>
     answers Q (case d of DeleteSuccess \<Rightarrow> f' | DeleteInvalid l \<Rightarrow> g' l | DeleteLockedOut \<Rightarrow> h')"
  by (cases r; simp) (cases d; simp)

lemmas command_calm =
  result_answers os_calm prompt_answers manager_answers context_answers read_answers setup_answers verify_answers
  delete_auth_answers delete_admin_answers

lemma pin_commands_answer:
  assumes "calm_os E"
  shows "calm (setup_pin_cmd E name machine)" "calm (change_pin E name machine)" "calm (delete_pin E name machine)"
    "calm (test_pin E name machine)" "calm (show_status E name machine)"
  unfolding setup_pin_cmd_def change_pin_def change_own_pin_def change_pin_as_root_def delete_pin_def
    delete_pin_as_root_def delete_own_pin_def test_pin_def test_verdict_def show_status_def print_status_def
  by (auto intro!: command_calm assms split: pin_error.split)

lemma key_commands_answer:
  assumes "calm_os E"
  shows "calm (master_key_init E machine)" "calm (master_key_status_cmd E machine)"
    "calm (master_key_import_to_tpm E machine)" "calm (master_key_clear_from_tpm E machine)"
    "calm (master_key_clear_from_disk E machine)" "calm (master_key_get_user_token E name)"
  unfolding master_key_init_def master_key_status_cmd_def master_key_import_to_tpm_def
    master_key_clear_from_tpm_def master_key_clear_from_disk_def master_key_get_user_token_def
    require_interactive_def prompt_yes_no_def prompt_acknowledgement_def
  by (intro command_calm key_operations_answer key_status_answers clear_tpm_answers assms)+

text \<open>How \<open>pinutil\<close> may stop: with exit status 1, the parser's, or an error returned from \<open>main\<close>.\<close>

definition stops_orderly :: "('w, 'z) os_scheme \<Rightarrow> string list \<Rightarrow> main_stop \<Rightarrow> bool" where
  "stops_orderly E args e \<longleftrightarrow> (case e of Exited n \<Rightarrow> n = 1 \<or> parse_cli E args = Err n | MainErr _ \<Rightarrow> True)"

lemma report_answers: "calm_os E \<Longrightarrow> answers Q (report_result E machine r)"
proof -
  assume C: "calm_os E"
  then obtain s where "to_json E r = Ok s" unfolding calm_os_def by blast
  then show ?thesis
    unfolding report_result_def by simp (intro calm_intros print_answers C conjI impI)
qed

lemma handled_answers:
  assumes "calm_os E" "calm m" shows "answers (stops_orderly E args) (handle_result E wrap m machine)"
  unfolding handle_result_def
  by (intro calm_intros report_answers assms) (simp add: stops_orderly_def)

lemma for_user_answers:
  assumes "\<And>n. answers (stops_orderly E args) (k n)"
  shows "answers (stops_orderly E args) (for_user E u k)"
proof -
  have "answers (\<lambda>e. stops_orderly E args (MainErr e)) (pure (resolve_username E u))"
    by (rule pure_answers)
      (auto simp: stops_orderly_def resolve_username_def Let_def split: option.splits)
  then show ?thesis
    unfolding for_user_def by (intro andThen_answers mapErr_answers assms)
qed

lemma master_answers:
  assumes "calm_os E" "answers (stops_orderly E args) m"
  shows "answers (stops_orderly E args) (run_master_key E m machine)"
  unfolding run_master_key_def
  by (intro calm_intros handled_answers assms) (auto simp: require_root_def intro: calm_intros)

lemma token_answers:
  assumes "calm_os E" shows "answers (stops_orderly E args) (run_get_user_token E u machine)"
  unfolding run_get_user_token_def
  by (intro command_calm handled_answers key_commands_answer assms) (simp add: stops_orderly_def)

lemma command_answers:
  assumes "calm_os E" shows "answers (stops_orderly E args) (run_command E c machine)"
  by (cases c; simp only: run_command.simps;
      intro for_user_answers master_answers handled_answers token_answers pin_commands_answer
        key_commands_answer assms)


section \<open>The PAM modules\<close>

text \<open>Running the helper answers, and so does the user database.\<close>

definition calm_pam :: "('w, 'z) pam_scheme \<Rightarrow> bool" where
  "calm_pam P \<longleftrightarrow>
     (\<forall>p args. calm (command_output P p args)) \<and> (\<forall>p args. calm (command_spawn P p args)) \<and>
     (\<forall>n. calm (take_stdin P n)) \<and> (\<forall>n s. calm (pipe_write P n s)) \<and> (\<forall>n. calm (pipe_flush P n)) \<and>
     (\<forall>n. calm (wait_with_output P n)) \<and> (\<forall>n s. user_from_name (pam_user_table P) n \<noteq> Panic s)"

lemma helper_answers:
  assumes "calm_pam P"
  shows "calm (command_output P p args)" "calm (command_spawn P p args)" "calm (take_stdin P n)"
    "calm (pipe_write P n s)" "calm (pipe_flush P n)" "calm (wait_with_output P n)"
  using assms by (simp_all add: calm_pam_def)

lemma ffi_answers: "calm (ffi m)"
  by (auto simp: answers_def ffi_def split: res.split prod.split)

lemma io_answers: "calm (converse io style txt)" "calm (io_info io txt)" "calm (io_err io txt)"
  "calm (prompt_hidden io prompt)"
proof -
  show c: "calm (converse io style msg)" for style msg
    unfolding converse_def by (intro calm_intros ffi_answers)
  show "calm (io_info io txt)" "calm (io_err io txt)" "calm (prompt_hidden io prompt)"
    unfolding io_info_def io_err_def send_message_def prompt_hidden_def by (intro calm_intros c)+
qed

lemma items_answer:
  "calm (get_pam_authtok P)" "calm (pam_io_new P)" "calm (get_username P)"
  "calm (get_pam_user M)" "calm (set_pam_authtok M t)"
  unfolding get_pam_authtok_def pam_io_new_def get_username_def get_pam_user_def set_pam_authtok_def
  by (intro calm_intros ffi_answers)+

lemma status_answers: "calm_pam P \<Longrightarrow> answers Q (run_pinutil_status P user)"
  unfolding run_pinutil_status_def by (intro calm_intros helper_answers)

lemma test_answers: "calm_pam P \<Longrightarrow> calm (run_pinutil_test P user pin)"
  unfolding run_pinutil_test_def feed_helper_def tolerate_broken_pipe_def
  by (intro calm_intros helper_answers; auto intro!: calm_intros split: pipe_error.split)

lemma refuse_answers: "calm m \<Longrightarrow> answers Q (refuse_with m code)"
  unfolding refuse_with_def by (intro calm_intros)

lemma finalize_answers: "answers Q (finalize_outcome P io outcome)"
  by (cases outcome) (auto intro!: refuse_answers io_answers ok_answers)

lemma pin_prompt_answers:
  assumes "used < limit" shows "calm (prompt_for_pin P io used limit)"
proof -
  have "calm (ask_pin P io prompt)" for prompt
    unfolding ask_pin_def
    by (intro calm_intros io_answers;
        auto intro!: calm_intros io_answers simp: pin_new_answers(1) split: res.split pin_error.split)
  then show ?thesis
    unfolding prompt_for_pin_def sub_u32_below [OF assms] by (intro calm_intros)
qed

lemma test_or_answers:
  "calm_pam P \<Longrightarrow> (\<And>outcome. answers Q (k outcome)) \<Longrightarrow> answers Q (test_or_unavailable P io user pin k)"
  unfolding test_or_unavailable_def by (intro calm_intros test_answers refuse_answers io_answers)

lemma prompt_and_test_answers: "calm_pam P \<Longrightarrow> answers Q (prompt_and_test P io user used limit)"
  unfolding prompt_and_test_def
  by (intro if_answers matchRes_answers [where P = "\<lambda>_. True"] refuse_answers io_answers pin_prompt_answers
      test_or_answers finalize_answers ok_answers) simp_all

lemma authenticate_answers:
  assumes "calm_pam P" shows "answers Q (authenticate_user P io user a authtok)"
proof -
  have "answers Q (after_first_pass P io a user used limit outcome)" for used limit outcome
    unfolding after_first_pass_def
    by (intro calm_intros finalize_answers prompt_and_test_answers assms)
  then show ?thesis
    using uid_answers [of "pam_user_table P" user] assms
    unfolding authenticate_user_def
    by (auto simp: answers_def [of _ "pure _"] pure_def calm_pam_def
        intro!: andThen_answers status_answers refuse_answers io_answers test_or_answers prompt_and_test_answers
        split: res.split pin_status.split first_pass_decision.split)
qed

lemma mk_code_ignore: "mk_pam_sm_authenticate M v = (Ok code, w') \<Longrightarrow> code = IGNORE"
  unfolding mk_pam_sm_authenticate_def by (auto simp: run_simps elim!: matchResE)

text \<open>C18: Both PAM modules always answer libpam: their authentication entry points return a PAM code,
  never a panic that would unwind into C, whether or not the module was built with overflow checks;
  the master-key module's code is IGNORE.\<close>
theorem pam_modules_always_answer:
  assumes "calm_pam P" and "calm_pam M"
  shows "(\<exists>code w'. pam_sm_authenticate P argc argv w = (Ok code, w')) \<and>
    (\<exists>w'. mk_pam_sm_authenticate M v = (Ok IGNORE, w'))"
proof
  have "answers (\<lambda>_. False) (pam_sm_authenticate P argc argv)"
    unfolding pam_sm_authenticate_def
    by (intro calm_intros items_answer authenticate_answers io_answers assms)
  then show "\<exists>code w'. pam_sm_authenticate P argc argv w = (Ok code, w')"
    by (metis answersD res.exhaust surj_pair)
  have "calm (build_user_token_cstring M user)" for user
    unfolding build_user_token_cstring_def derive_user_token_via_pinutil_def
    by (intro calm_intros helper_answers assms)
  then have "answers (\<lambda>_. False) (mk_pam_sm_authenticate M)"
    unfolding mk_pam_sm_authenticate_def by (intro calm_intros items_answer)
  then show "\<exists>w'. mk_pam_sm_authenticate M v = (Ok IGNORE, w')"
    using mk_code_ignore by (metis answersD res.exhaust surj_pair)
qed

end
