(* ===== verification/PinutilLive.thy ===== *)
theory PinutilLive imports PinutilTest Metering NoPanic begin

text \<open>
  \<open>pinutil\<close> in machine mode on a working TPM and platform: every command that sets, changes, deletes or
  tests a PIN comes to its end, and what it has then done to the account.
\<close>

section \<open>A working platform\<close>

text \<open>The terminal's calls succeed, a line read is gone from the input, the sandbox may fail but answers, every report has a JSON text, and
  the policy's TCTI specification is one the TPM library takes.\<close>

definition working :: "('w, 'z) os_scheme \<Rightarrow> ('w, 'v) view_scheme \<Rightarrow> ('w, 'q) pipes_scheme \<Rightarrow> bool" where
  "working E V Q \<longleftrightarrow>
     tss_live E V \<and> platform_quiet E V \<and> stdio_law E Q \<and>
     answers (\<lambda>_. False) (stdin_read_line E) \<and> (\<forall>s. answers (\<lambda>_. False) (stdout_write E s)) \<and>
     (\<forall>s. answers (\<lambda>_. False) (stderr_write E s)) \<and> (\<forall>r. calm (ll_restrict_self E r)) \<and>
     (\<forall>w l w'. stdin_read_line E w = (Ok l, w') \<longrightarrow> inp Q w' = drop (length l) (inp Q w)) \<and>
     (\<forall>r. \<exists>s. to_json E r = Ok s) \<and> tcti_check E (tcti_spec (cached_policy E)) = None"

lemma never_err: "answers (\<lambda>_. False) m \<Longrightarrow> \<exists>x w'. m w = (Ok x, w')"
  by (metis answersD res.exhaust surj_pair)

text \<open>The manager every command makes.\<close>

definition policy_manager :: "('w, 'z) os_scheme \<Rightarrow> pin_manager" where
  "policy_manager E = \<lparr>policy = cached_policy E, mgr_tcti_spec = tcti_spec (cached_policy E)\<rparr>"

lemma manager_live:
  assumes "working E V Q"
  shows "\<exists>w1. new_manager E w = (Ok (policy_manager E), w1) \<and> nvs V w1 = nvs V w \<and> stdio Q w1 = stdio Q w"
proof -
  let ?c = "tcti_spec (cached_policy E)"
  have t: "tcti_check E ?c = None" and L: "tss_live E V" and K: "stdio_law E Q" "platform_quiet E V"
    using assms by (simp_all add: working_def)
  have "fst (context_new E ?c w) = Ok ()"
    using live_parts(2) [OF L] t by (simp add: live_sessions_def)
  then obtain w1 where "context_new E ?c w = (Ok (), w1)" by (metis prod.collapse)
  then have r: "new_manager E w = (Ok (policy_manager E), w1)"
    using t by (simp add: new_manager_def manager_new_def with_tcti_def parse_tcti_spec_def andThen_def pure_def
        mapErr_def matchRes_def ok_def policy_manager_def)
  then show ?thesis using quiet_queries(1) [OF K r] by blast
qed

text \<open>A user with attempts left is reported unlocked.\<close>

lemma info_live:
  assumes W: "working E V Q" and s: "in_service E V m uid w" and left: "0 < attempts_left E uid (nvs V w)"
  shows "\<exists>info w1. get_attempt_info E uid w = (Ok (Some info), w1) \<and> ai_used info < ai_limit info \<and>
     nvs V w1 = nvs V w \<and> stdio Q w1 = stdio Q w"
proof -
  have L: "tss_live E V" and K: "stdio_law E Q" "platform_quiet E V" using W by (simp_all add: working_def)
  have R: "ready E V m uid w" using s by (simp add: in_service_def)
  obtain i where i: "nv_index_for_uid E uid = Ok i" using ready_indices [OF R] .
  obtain c where c: "counters_of E uid (nvs V w) = Some c" "unat (pinCount c) < unat (pinLimit c)"
    using left by (auto simp: attempts_left_def split: option.splits)
  then have lim: "unat (pinLimit c) < 2 ^ 31" using s by (simp add: in_service_def)
  have wf: "wf_uid E uid (nvs V w)" using R by (simp add: ready_def)
  obtain w1 where 1: "read_pin_slot_owner E i w = (Ok (Some c), w1)"
    using live_read_slot [OF L, of w i] wf_uid_slot [OF wf i] c(1) i by (auto simp: counters_of_def slot_of_def)
  then have r: "get_attempt_info E uid w = (Ok (Some (from_pin_data c)), w1)"
    using i by (simp add: get_attempt_info_def get_pin_slot_def andThen_def pure_def ok_def)
  have "ai_used (from_pin_data c) < ai_limit (from_pin_data c)"
  proof -
    have "0 < sint (pinLimit c)" using c(2) lim by (auto simp only: zero_less_sint_iff)
    moreover have "\<not> sint (pinCount c) < 0" using c(2) lim by (auto simp only: sint_less_0_iff)
    ultimately show ?thesis using c(2) by (simp add: from_pin_data_def word_less_nat_alt)
  qed
  then show ?thesis using r quiet_queries(2) [OF K r] by blast
qed

section \<open>The commands\<close>

lemma prompt_live:
  assumes W: "working E V Q" and p: "pin_new (take_line (inp Q w)) (cached_policy E) = Ok pin"
  shows "\<exists>w1. prompt_pin E s a True w = (Ok pin, w1) \<and> nvs V w1 = nvs V w \<and> out Q w1 = out Q w \<and>
     inp Q w1 = drop (length (take_line (inp Q w))) (inp Q w)"
proof -
  have K: "stdio_law E Q" "platform_quiet E V" using W by (simp_all add: working_def)
  have T: "terminal_evolves E (nvs V) (=)" using K(2) by (simp add: platform_quiet_def)
  obtain l w1 where 1: "stdin_read_line E w = (Ok l, w1)"
    using W never_err by (metis working_def)
  moreover have "l = take_line (inp Q w)"
    using K(1) 1 by (auto simp: stdio_law_def wp_def dest!: spec [of _ w])
  ultimately have r: "prompt_pin E s a True w = (Ok pin, w1)"
    using p by (simp add: prompt_pin_def andThen_def mapErr_def matchRes_def ok_def pure_def)
  moreover have "inp Q w1 = drop (length l) (inp Q w)" using W 1 by (simp add: working_def)
  ultimately show ?thesis using machine_prompt(1,2) [OF K(1) T r] \<open>l = take_line (inp Q w)\<close> by blast
qed

lemma in_service_nvs:
  "in_service E V m uid w \<Longrightarrow> nvs V w' = nvs V w \<Longrightarrow> tcti_check E (mgr_tcti_spec m') = None \<Longrightarrow> in_service E V m' uid w'"
  by (simp add: in_service_def ready_def)

text \<open>The first steps of every command about a user with attempts left.\<close>

lemma begun:
  assumes W: "working E V Q" and s: "in_service E V m uid w" and left: "0 < attempts_left E uid (nvs V w)"
  obtains info w1 w2 where "new_manager E w = (Ok (policy_manager E), w1)"
    "get_attempt_info E uid w1 = (Ok (Some info), w2)" "ai_used info < ai_limit info" "\<not> locked info"
    "nvs V w2 = nvs V w" "stdio Q w2 = stdio Q w" "in_service E V (policy_manager E) uid w2"
proof -
  obtain w1 where 1: "new_manager E w = (Ok (policy_manager E), w1)" "nvs V w1 = nvs V w" "stdio Q w1 = stdio Q w"
    using manager_live [OF W] by blast
  have t: "tcti_check E (mgr_tcti_spec (policy_manager E)) = None"
    using W by (simp add: working_def policy_manager_def)
  obtain info w2 where 2: "get_attempt_info E uid w1 = (Ok (Some info), w2)" "ai_used info < ai_limit info"
      "nvs V w2 = nvs V w" "stdio Q w2 = stdio Q w"
    using info_live [OF W in_service_nvs [OF s 1(2) t]] left 1(2,3) by auto
  have "\<not> locked info" using 2(2) by (simp add: locked_def not_le)
  then show ?thesis using that [OF 1(1) 2(1,2) _ 2(3,4) in_service_nvs [OF s 2(3) t]] by blast
qed

lemma test_live:
  assumes W: "working E V Q" and u: "get_uid_from_username (user_table E) name = Ok uid" "can_attempt_pin (proc E) uid"
    and s: "in_service E V m uid w" and left: "0 < attempts_left E uid (nvs V w)"
    and pin: "pin_new (take_line (inp Q w)) (cached_policy E) = Ok pin" "pin_matches E uid (nvs V w) pin" "length pin \<le> 64"
  shows "\<exists>w1. test_pin E name True w = (Ok (), w1) \<and> out Q w1 = out Q w"
proof -
  have K: "stdio_law E Q" using W by (simp add: working_def)
  from begun [OF W s left] obtain info w1 w2 where
    1: "new_manager E w = (Ok (policy_manager E), w1)" "get_attempt_info E uid w1 = (Ok (Some info), w2)"
      "\<not> locked info" "nvs V w2 = nvs V w" "stdio Q w2 = stdio Q w" "in_service E V (policy_manager E) uid w2" .
  have t: "tcti_check E (mgr_tcti_spec (policy_manager E)) = None" using 1(6) by (simp add: in_service_def ready_def)
  obtain w3 where 3: "prompt_pin E ''PIN'' (Some (prompt_tuple info)) True w2 = (Ok pin, w3)"
      "nvs V w3 = nvs V w2" "out Q w3 = out Q w2"
    using prompt_live [OF W, of w2 pin] pin(1) 1(5) by auto
  obtain w4 where "verify_attempt E (policy_manager E) uid pin w3 = (True, w4)"
    using meter.right_accepted [OF in_service_nvs [OF 1(6) 3(2) t]] pin(2,3) left 3(2) 1(4) by metis
  then obtain x where 4: "verify_pin E (policy_manager E) uid pin w3 = (Ok (VerifySuccess x), w4)"
    by (auto simp: verify_attempt_iff)
  have "test_pin E name True w = (Ok (), w4)"
    using u 1(1-3) 3(1) 4 by (simp add: test_pin_def andThen_def pure_def ok_def test_verdict_def)
  moreover have "stdio Q w4 = stdio Q w3" using evolvesD [OF silent_operations(3) [OF K] 4] by simp
  ultimately show ?thesis using 3(3) 1(5) by auto
qed

lemma status_live:
  assumes W: "working E V Q" and u: "get_uid_from_username (user_table E) name = Ok uid"
    and s: "in_service E V m uid w" and left: "0 < attempts_left E uid (nvs V w)"
  shows "\<exists>info w1. show_status E name True w = (Ok (Some info), w1) \<and> ai_used info < ai_limit info \<and>
     nvs V w1 = nvs V w \<and> out Q w1 = out Q w"
proof -
  from begun [OF W s left] obtain info w1 w2 where
    1: "new_manager E w = (Ok (policy_manager E), w1)" "get_attempt_info E uid w1 = (Ok (Some info), w2)"
      "ai_used info < ai_limit info" "nvs V w2 = nvs V w" "stdio Q w2 = stdio Q w" .
  have "show_status E name True w = (Ok (Some info), w2)"
    using u 1(1,2) by (simp add: show_status_def andThen_def pure_def ok_def)
  then show ?thesis using 1 by auto
qed

section \<open>Whole runs\<close>

text \<open>A command line of a command in machine mode.\<close>

definition machine_invocation :: "('w, 'z) os_scheme \<Rightarrow> string list \<Rightarrow> commands \<Rightarrow> bool" where
  "machine_invocation E args cmd \<longleftrightarrow>
     (\<exists>c. parse_cli E args = Ok c \<and> command c = cmd \<and> (machine_flag c \<or> \<not> stdin_is_terminal E))"

lemma main_live:
  assumes W: "working E V Q" and I: "machine_invocation E args cmd"
  shows "\<exists>w0. pinutil_main E args w = run_command E cmd True w0 \<and> nvs V w0 = nvs V w \<and> stdio Q w0 = stdio Q w"
proof -
  have K: "stdio_law E Q" "platform_quiet E V" using W by (simp_all add: working_def)
  obtain c where c: "parse_cli E args = Ok c" "command c = cmd" "machine_flag c \<or> \<not> stdin_is_terminal E"
    using I by (auto simp: machine_invocation_def)
  have "calm (ll_restrict_self E r)" for r using W by (simp add: working_def)
  then have "calm (pinutil_sandbox E)" unfolding pinutil_sandbox_def by (intro calm_intros)
  moreover have "answers (\<lambda>_. False) (stderr_write E s)" for s using W by (simp add: working_def)
  then have "answers (\<lambda>_. False) (eprintln E s)" for s
    unfolding eprintln_def eprint_def by (intro matchRes_answers [where P = "\<lambda>_. False"] ok_answers) auto
  ultimately have "answers (\<lambda>_. False) (before_command E c)"
    unfolding before_command_def by (intro calm_intros)
  then obtain w0 where 0: "before_command E c w = (Ok (), w0)" using never_err by fastforce
  then have "pinutil_main E args w = run_command E cmd True w0"
    using main_before [OF c(1)] c(2,3) by (auto simp: andThen_def)
  then show ?thesis
    using evolvesD [OF before_command_quiet(1) [OF K] 0] evolvesD [OF before_command_quiet(2) [OF K] 0] by auto
qed

lemma report_live:
  assumes W: "working E V Q" and m: "m w = (Ok x, w1)"
  shows "\<exists>s w2. to_json E (Inr (wrap x)) = Ok s \<and> handle_result E wrap m True w = (Ok (), w2) \<and>
     nvs V w2 = nvs V w1 \<and> out Q w2 = out Q w1 @ s @ [newline]"
proof -
  have K: "stdio_law E Q" "platform_quiet E V" using W by (simp_all add: working_def)
  have "\<forall>r. \<exists>s. to_json E r = Ok s" using W by (simp add: working_def)
  then obtain s where s: "to_json E (Inr (wrap x)) = Ok s" by metis
  obtain w2 where 2: "stdout_write E (s @ [newline]) w1 = (Ok (), w2)"
    using W never_err [of "stdout_write E (s @ [newline])" w1] by (auto simp: working_def)
  then have "handle_result E wrap m True w = (Ok (), w2)"
    using m s by (simp add: handle_result_def report_result_def println_def print_def matchRes_def andThen_def ok_def)
  moreover have "out Q w2 = out Q w1 @ s @ [newline]"
    using stdout_write_D [OF K(1) 2] by auto
  moreover have "nvs V w2 = nvs V w1"
    using evolvesD [where obs = "nvs V" and E = "(=)" and m = "stdout_write E (s @ [newline])", OF _ 2] K(2)
    by (simp add: platform_quiet_def terminal_evolves_def)
  ultimately show ?thesis using s by blast
qed

section \<open>Commands that change the account\<close>

lemma manager_limit: "max_attempts (policy (policy_manager E)) = max_attempts (cached_policy E)"
  by (simp add: policy_manager_def)

lemma quiet_changes:
  assumes "stdio_law E Q"
  shows "evolves (stdio Q) (=) (get_attempt_count E uid)" "evolves (stdio Q) (=) (restart_context E m)"
    "evolves (stdio Q) (=) (clear_sessions E :: ('w, unit, 'e) eff)"
    "evolves (stdio Q) (=) (delete_pin_with_auth E m uid pin)"
proof -
  show "evolves (stdio Q) (=) (get_attempt_count E uid)"
    unfolding get_attempt_count_def
    using silent.read_slot_evolves [of Q E] assms
    by (auto simp: evolves_imp intro!: unchanged.evolves_intros unchanged.branch_evolves)
  show "evolves (stdio Q) (=) (restart_context E m)" "evolves (stdio Q) (=) (clear_sessions E :: ('w, unit, 'e) eff)"
    "evolves (stdio Q) (=) (delete_pin_with_auth E m uid pin)"
    using silent.context_evolves(2) [of Q E m] silent.clear_evolves [of Q E] silent.delete_auth_evolves [of Q E m uid pin]
      assms
    by (simp_all add: evolves_imp)
qed

text \<open>The account of a PIN that is right verifies again, and is unset when deleted.\<close>

lemma spec_verify_again:
  assumes "acct_sane acct" "acct_right acct pin" "0 < acct_left acct" "0 < unat limit" "unat limit < 2 ^ 31"
    and "spec_verify limit pin acct = (x, acct')"
  shows "acct_sane acct' \<and> acct_right acct' pin \<and> 0 < acct_left acct'"
proof (cases acct)
  case (Set a s v)
  have o: "pin_open s" using assms(3) Set by (auto simp: pin_open_nat)
  then have "exact_outcome True s = (VerifySuccess (s\<lparr>pinCount := 0\<rparr>), s\<lparr>pinCount := 0\<rparr>)"
    using exact_right assms(1) Set by simp
  then show ?thesis
    using assms(1,2,4-6) Set o
    by (cases v) (auto simp: Let_def fresh_account_def pin_data_new_def pin_as_bytes_def auth_eq_def is_success_def
        pin_open_nat split: if_splits)
qed (use assms in auto)

lemma spec_delete_answers:
  assumes "acct_sane acct" "0 < acct_left acct" "spec_delete_auth limit pin acct = (x, acct')"
  shows "x \<noteq> None" "x = Some DeleteSuccess \<longleftrightarrow> acct_right acct pin" "acct' = Unset \<longleftrightarrow> acct_right acct pin"
proof -
  obtain a s v where Set: "acct = Set a s v" using assms(2) by (cases acct) auto
  obtain y acct1 where 1: "spec_verify limit pin acct = (y, acct1)" by fastforce
  have y: "y \<noteq> None" "acct1 \<noteq> Unset"
    using 1 assms(1) Set by (cases v; auto simp: Let_def fresh_account_def split: prod.splits if_splits)+
  have "(\<exists>z. y = Some (VerifySuccess z)) \<longleftrightarrow> acct_right acct pin"
    using spec_verify_right [OF assms(1) _ assms(2), of pin limit] spec_verify_wrong [OF assms(1) _ 1] 1 by auto
  then show "x \<noteq> None" "x = Some DeleteSuccess \<longleftrightarrow> acct_right acct pin" "acct' = Unset \<longleftrightarrow> acct_right acct pin"
    using assms(3) 1 y by (cases acct1; auto simp: spec_delete_auth_def split: verification_result.splits option.splits)+
qed

lemma service_account:
  assumes "in_service E V m uid w" "0 < attempts_left E uid (nvs V w)"
  shows "acct_sane (account_of E uid (nvs V w))" "0 < acct_left (account_of E uid (nvs V w))"
    "acct_right (account_of E uid (nvs V w)) pin = pin_matches E uid (nvs V w) pin" "ready E V m uid w"
proof -
  show 1: "acct_sane (account_of E uid (nvs V w))" "0 < acct_left (account_of E uid (nvs V w))" "ready E V m uid w"
    using in_service_account(1) [OF assms(1)] assms by (simp_all add: left_account in_service_def)
  then have "account_of E uid (nvs V w) \<noteq> Unwritten" by auto
  then show "acct_right (account_of E uid (nvs V w)) pin = pin_matches E uid (nvs V w) pin"
    using in_service_account(2) [OF assms(1)] by simp
qed

lemma unset_slot: "account_of E uid N = Unset \<longleftrightarrow> slot_of E uid N = None"
  by (simp add: account_of_def split: option.splits)

lemma delete_live:
  assumes W: "working E V Q" and u: "get_uid_from_username (user_table E) name = Ok uid" "get_uid (proc E) = uid" "uid \<noteq> 0"
    and s: "in_service E V m uid w" and left: "0 < attempts_left E uid (nvs V w)"
    and pin: "pin_new (take_line (inp Q w)) (cached_policy E) = Ok pin" "length pin \<le> 64"
  shows "\<exists>w1. delete_pin E name True w = (Ok (), w1) \<and> out Q w1 = out Q w \<and>
     (slot_of E uid (nvs V w1) = None \<longleftrightarrow> pin_matches E uid (nvs V w) pin)"
proof -
  have K: "stdio_law E Q" using W by (simp add: working_def)
  from begun [OF W s left] obtain info w1 w2 where
    1: "new_manager E w = (Ok (policy_manager E), w1)" "get_attempt_info E uid w1 = (Ok (Some info), w2)"
      "\<not> locked info" "nvs V w2 = nvs V w" "stdio Q w2 = stdio Q w" "in_service E V (policy_manager E) uid w2" .
  obtain w3 where 3: "prompt_pin E ''PIN'' (Some (prompt_tuple info)) True w2 = (Ok pin, w3)"
      "nvs V w3 = nvs V w2" "out Q w3 = out Q w2"
    using prompt_live [OF W, of w2 pin] pin(1) 1(5) by auto
  have t: "tcti_check E (mgr_tcti_spec (policy_manager E)) = None" using 1(6) by (simp add: in_service_def ready_def)
  note s3 = in_service_nvs [OF 1(6) 3(2) t]
  have left3: "0 < attempts_left E uid (nvs V w3)" using left 1(4) 3(2) by simp
  obtain r w4 where 4: "delete_pin_with_auth E (policy_manager E) uid pin w3 = (r, w4)" by fastforce
  note spec = delete_auth_refines [OF service_account(4) [OF s3 left3] pin(2) 4, symmetric]
  obtain d where d: "r = Ok d"
    using spec_delete_answers(1) [OF service_account(1,2) [OF s3 left3] spec] by (cases r) auto
  have "delete_pin E name True w = (Ok (), w4)"
    using u 1(1-3) 3(1) 4 d by (simp add: delete_pin_def delete_own_pin_def andThen_def pure_def ok_def)
  moreover have "stdio Q w4 = stdio Q w3" using evolvesD [OF quiet_changes(4) [OF K] 4] by simp
  moreover have "slot_of E uid (nvs V w4) = None \<longleftrightarrow> pin_matches E uid (nvs V w) pin"
    using spec_delete_answers(3) [OF service_account(1,2) [OF s3 left3] spec] service_account(3) [OF s3 left3, of pin]
      unset_slot 1(4) 3(2) by metis
  ultimately show ?thesis using 3(3) 1(5) by auto
qed

lemma new_prompt_live:
  assumes W: "working E V Q" and p: "pin_new (take_line (inp Q w)) (cached_policy E) = Ok pin"
  shows "\<exists>w1. prompt_new_pin E k c True w = (Ok pin, w1) \<and> nvs V w1 = nvs V w"
proof -
  obtain w1 where "prompt_pin E (ui_tr E k []) None True w = (Ok pin, w1)" "nvs V w1 = nvs V w"
    using prompt_live [OF W p] by blast
  then show ?thesis by (simp add: prompt_new_pin_def andThen_def ok_def)
qed

lemma ready_nvs:
  "ready E V m uid w \<Longrightarrow> nvs V w' = nvs V w \<Longrightarrow> working E V Q \<Longrightarrow> ready E V (policy_manager E) uid w'"
  by (simp add: ready_def working_def policy_manager_def)

text \<open>Setting the PIN of an account that is not there.\<close>

lemma setup_fresh:
  assumes R: "ready E V (policy_manager E) uid w" and a: "slot_of E uid (nvs V w) = None" and p: "length pin \<le> 64"
  shows "\<exists>w1. setup_pin E (policy_manager E) uid pin w = (Ok (), w1) \<and>
     account_of E uid (nvs V w1) = fresh_account (max_attempts (cached_policy E)) pin"
proof -
  obtain r w1 where 1: "setup_pin E (policy_manager E) uid pin w = (r, w1)" by fastforce
  have "account_of E uid (nvs V w) = Unset" using a unset_slot by blast
  then have "value_of r = Some () \<and> account_of E uid (nvs V w1) = fresh_account (max_attempts (cached_policy E)) pin"
    using setup_refines [OF R p 1] by (simp add: manager_limit)
  then show ?thesis using 1 by (simp add: value_of_Some)
qed

lemma setup_live:
  assumes W: "working E V Q" and u: "get_uid_from_username (user_table E) name = Ok uid" "can_manage_pin (proc E) uid"
    and R: "ready E V m uid w" and a: "slot_of E uid (nvs V w) = None"
    and pin: "pin_new (take_line (inp Q w)) (cached_policy E) = Ok pin" "length pin \<le> 64"
  shows "\<exists>w1. setup_pin_cmd E name True w = (Ok (), w1) \<and>
     account_of E uid (nvs V w1) = fresh_account (max_attempts (cached_policy E)) pin"
proof -
  have K: "stdio_law E Q" and L: "tss_live E V" using W by (simp_all add: working_def)
  obtain w1 where 1: "new_manager E w = (Ok (policy_manager E), w1)" "nvs V w1 = nvs V w" "stdio Q w1 = stdio Q w"
    using manager_live [OF W] by blast
  obtain i where i: "nv_index_for_uid E uid = Ok i" using ready_indices [OF R] .
  have "nvs V w1 i = None" using a i 1(2) by (simp add: slot_of_def)
  then obtain w2 where "read_pin_slot_owner E i w1 = (Ok None, w2)" "nvs V w2 = nvs V w1"
    using live_read_slot [OF L, of w1 i] by auto
  then have 2: "get_attempt_count E uid w1 = (Ok None, w2)" "nvs V w2 = nvs V w1"
    using i by (simp_all add: get_attempt_count_def andThen_def pure_def ok_def)
  have "stdio Q w2 = stdio Q w1" using evolvesD [OF quiet_changes(1) [OF K] 2(1)] by simp
  then obtain w3 where 3: "prompt_new_pin E ''enter_new_pin'' ''confirm_pin'' True w2 = (Ok pin, w3)" "nvs V w3 = nvs V w2"
    using new_prompt_live [OF W, of w2 pin] pin(1) 1(3) by auto
  have n: "nvs V w3 = nvs V w" using 1(2) 2(2) 3(2) by simp
  obtain w4 where 4: "setup_pin E (policy_manager E) uid pin w3 = (Ok (), w4)"
      "account_of E uid (nvs V w4) = fresh_account (max_attempts (cached_policy E)) pin"
    using setup_fresh [OF ready_nvs [OF R n W] _ pin(2)] a n by auto
  then have "setup_pin_cmd E name True w = (Ok (), w4)"
    using u 1(1) 2(1) 3(1) by (simp add: setup_pin_cmd_def andThen_def pure_def ok_def matchRes_def)
  then show ?thesis using 4(2) by blast
qed

text \<open>Replacing the PIN: the current one verifies, is deleted, and the new one is set up.\<close>

lemma replace_live:
  assumes W: "working E V Q" and R: "ready E V (policy_manager E) uid w"
    and acct: "acct_sane (account_of E uid (nvs V w))" "0 < acct_left (account_of E uid (nvs V w))"
      "acct_right (account_of E uid (nvs V w)) pin"
    and p: "length pin \<le> 64" "length new \<le> 64" and lim: "0 < unat (max_attempts (cached_policy E))"
      "unat (max_attempts (cached_policy E)) < 2 ^ 31"
    and line: "pin_new (take_line (inp Q w)) (cached_policy E) = Ok new"
  shows "\<exists>s w1 w2 w3 w4 w5 w6.
     verify_pin E (policy_manager E) uid pin w = (Ok (VerifySuccess s), w1) \<and>
     restart_context E (policy_manager E) w1 = (Ok (), w2) \<and>
     prompt_new_pin E k c True w2 = (Ok new, w3) \<and>
     delete_pin_with_auth E (policy_manager E) uid pin w3 = (Ok DeleteSuccess, w4) \<and>
     clear_sessions E w4 = (Ok () :: (unit, pin_error) res, w5) \<and>
     setup_pin E (policy_manager E) uid new w5 = (Ok (), w6) \<and>
     account_of E uid (nvs V w6) = fresh_account (max_attempts (cached_policy E)) new"
proof -
  have K: "stdio_law E Q" and L: "tss_live E V" using W by (simp_all add: working_def)
  have t: "tcti_check E (mgr_tcti_spec (policy_manager E)) = None" using R by (simp add: ready_def)
  note S = live_sound [OF L]
  obtain r w1 where 1: "verify_pin E (policy_manager E) uid pin w = (r, w1)" by fastforce
  note spec = verify_refines [OF R p(1) 1, unfolded manager_limit, symmetric]
  obtain s where r: "r = Ok (VerifySuccess s)"
    using spec spec_verify_right [OF acct(1,3,2), of "max_attempts (cached_policy E)"] by (auto simp: value_of_Some)
  have acct1: "acct_sane (account_of E uid (nvs V w1))" "0 < acct_left (account_of E uid (nvs V w1))"
      "acct_right (account_of E uid (nvs V w1)) pin"
    using spec_verify_again [OF acct(1,3,2) lim spec] by simp_all
  have R1: "ready E V (policy_manager E) uid w1" by (rule ready_step [OF R verify_pin_step [OF S] 1])
  obtain w2 where 2: "restart_context E (policy_manager E) w1 = (Ok (), w2)" "nvs V w2 = nvs V w1"
    using live_restart [OF L t] by blast
  have "stdio Q w2 = stdio Q w"
    using evolvesD [OF silent_operations(3) [OF K] 1] evolvesD [OF quiet_changes(2) [OF K] 2(1)] by simp
  then obtain w3 where 3: "prompt_new_pin E k c True w2 = (Ok new, w3)" "nvs V w3 = nvs V w2"
    using new_prompt_live [OF W, of w2 new k c] line by auto
  have n3: "nvs V w3 = nvs V w1" using 2(2) 3(2) by simp
  note R3 = ready_nvs [OF R1 n3 W]
  obtain d w4 where 4: "delete_pin_with_auth E (policy_manager E) uid pin w3 = (d, w4)" by fastforce
  note del = delete_auth_refines [OF R3 p(1) 4, unfolded n3, symmetric]
  have d: "d = Ok DeleteSuccess" "account_of E uid (nvs V w4) = Unset"
    using spec_delete_answers(2,3) [OF acct1(1,2) del] acct1(3) by (simp_all add: value_of_Some)
  have R4: "ready E V (policy_manager E) uid w4" by (rule ready_step [OF R3 delete_pin_with_auth_step [OF S] 4])
  obtain w5 where 5: "clear_sessions E w4 = (Ok () :: (unit, pin_error) res, w5)" "nvs V w5 = nvs V w4"
    using live_clear [OF L] by blast
  obtain w6 where "setup_pin E (policy_manager E) uid new w5 = (Ok (), w6)"
      "account_of E uid (nvs V w6) = fresh_account (max_attempts (cached_policy E)) new"
    using setup_fresh [OF ready_nvs [OF R4 5(2) W] _ p(2)] unset_slot [THEN iffD1, OF d(2)] 5(2) by auto
  then show ?thesis using 1 r 2(1) 3(1) 4 d(1) 5(1) by blast
qed

lemma change_live:
  assumes W: "working E V Q" and u: "get_uid_from_username (user_table E) name = Ok uid" "get_uid (proc E) = uid" "uid \<noteq> 0"
    and s: "in_service E V m uid w" and left: "0 < attempts_left E uid (nvs V w)"
    and pin: "pin_new (take_line (inp Q w)) (cached_policy E) = Ok pin" "pin_matches E uid (nvs V w) pin" "length pin \<le> 64"
    and new: "pin_new (take_line (drop (length (take_line (inp Q w))) (inp Q w))) (cached_policy E) = Ok new" "length new \<le> 64"
    and lim: "0 < unat (max_attempts (cached_policy E))" "unat (max_attempts (cached_policy E)) < 2 ^ 31"
  shows "\<exists>w1. change_pin E name True w = (Ok (), w1) \<and>
     account_of E uid (nvs V w1) = fresh_account (max_attempts (cached_policy E)) new"
proof -
  have K: "stdio_law E Q" and L: "tss_live E V" using W by (simp_all add: working_def)
  from begun [OF W s left] obtain info w1 w2 where
    1: "new_manager E w = (Ok (policy_manager E), w1)" "get_attempt_info E uid w1 = (Ok (Some info), w2)"
      "\<not> locked info" "nvs V w2 = nvs V w" "stdio Q w2 = stdio Q w" "in_service E V (policy_manager E) uid w2" .
  have t: "tcti_check E (mgr_tcti_spec (policy_manager E)) = None" using 1(6) by (simp add: in_service_def ready_def)
  obtain w3 where 3: "restart_context E (policy_manager E) w2 = (Ok (), w3)" "nvs V w3 = nvs V w2"
    using live_restart [OF L t] by blast
  obtain w4 where 4: "clear_sessions E w3 = (Ok () :: (unit, pin_error) res, w4)" "nvs V w4 = nvs V w3"
    using live_clear [OF L] by blast
  have io: "stdio Q w4 = stdio Q w"
    using evolvesD [OF quiet_changes(2) [OF K] 3(1)] evolvesD [OF quiet_changes(3) [OF K] 4(1)] 1(5) by simp
  then obtain w5 where 5: "prompt_pin E (ui_tr E ''pin'' []) (Some (prompt_tuple info)) True w4 = (Ok pin, w5)"
      "nvs V w5 = nvs V w4" "inp Q w5 = drop (length (take_line (inp Q w))) (inp Q w)"
    using prompt_live [OF W, of w4 pin] pin(1) by auto
  have n: "nvs V w5 = nvs V w" using 1(4) 3(2) 4(2) 5(2) by simp
  have s5: "in_service E V (policy_manager E) uid w5" by (rule in_service_nvs [OF 1(6) _ t]) (use n 1(4) in simp)
  have left5: "0 < attempts_left E uid (nvs V w5)" using left n by simp
  note acct = service_account [OF s5 left5]
  have "acct_right (account_of E uid (nvs V w5)) pin" using acct(3) pin(2) n by simp
  from replace_live [OF W acct(4,1,2) this pin(3) new(2) lim, of "''new_pin''" "''confirm''"]
  obtain x v1 v2 v3 v4 v5 v6 where 6: "verify_pin E (policy_manager E) uid pin w5 = (Ok (VerifySuccess x), v1)"
      "restart_context E (policy_manager E) v1 = (Ok (), v2)" "prompt_new_pin E ''new_pin'' ''confirm'' True v2 = (Ok new, v3)"
      "delete_pin_with_auth E (policy_manager E) uid pin v3 = (Ok DeleteSuccess, v4)"
      "clear_sessions E v4 = (Ok () :: (unit, pin_error) res, v5)" "setup_pin E (policy_manager E) uid new v5 = (Ok (), v6)"
      "account_of E uid (nvs V v6) = fresh_account (max_attempts (cached_policy E)) new"
    using 5(3) new(1) by auto
  have "change_own_pin E (policy_manager E) uid info name True w4 = (Ok (), v6)"
    using 1(3) 5(1) 6 by (simp add: change_own_pin_def andThen_def ok_def)
  then have "change_pin E name True w = (Ok (), v6)"
    using u 1(1,2) 3(1) 4(1) by (simp add: change_pin_def can_manage_pin_def andThen_def pure_def ok_def)
  then show ?thesis using 6(7) by blast
qed

section \<open>Properties\<close>

lemma command_run:
  assumes W: "working E V Q" and I: "machine_invocation E args cmd"
    and cmd: "\<And>v. run_command E cmd True v = handle_result E (\<lambda>_. RUnit) (m :: ('w, unit, pin_error) eff) True v"
    and m: "\<And>v. nvs V v = nvs V w \<Longrightarrow> stdio Q v = stdio Q w \<Longrightarrow> \<exists>v'. m v = (Ok (), v') \<and> P (nvs V v') (out Q v')"
  shows "\<exists>w' s printed. pinutil_main E args w = (Ok (), w') \<and> P (nvs V w') printed \<and>
     to_json E (Inr RUnit) = Ok s \<and> out Q w' = printed @ s @ [newline]"
proof -
  obtain w0 where 0: "pinutil_main E args w = run_command E cmd True w0" "nvs V w0 = nvs V w" "stdio Q w0 = stdio Q w"
    using main_live [OF W I] by blast
  obtain v where v: "m w0 = (Ok (), v)" "P (nvs V v) (out Q v)" using m [OF 0(2,3)] by blast
  obtain s w' where "to_json E (Inr RUnit) = Ok s" "handle_result E (\<lambda>_. RUnit) m True w0 = (Ok (), w')"
      "nvs V w' = nvs V v" "out Q w' = out Q v @ s @ [newline]"
    using report_live [where m = m and wrap = "\<lambda>_. RUnit", OF W v(1)] by blast
  then show ?thesis using 0(1) cmd [of w0] v(2) by fastforce
qed



text \<open>C22: \<open>pinutil delete\<close> in machine mode reports success whatever the PIN: on a working platform and TPM,
  the user with attempts left who types any usable PIN gets exit status 0 and the report of a success; the PIN
  is gone exactly when it was the right one.\<close>
theorem machine_delete_reports_success:
  assumes "working E V Q" and "machine_invocation E args (Delete (Some name))"
    and "get_uid_from_username (user_table E) name = Ok uid" and "get_uid (proc E) = uid" and "uid \<noteq> 0"
    and "in_service E V m uid w" and "0 < attempts_left E uid (nvs V w)"
    and "pin_new (take_line (inp Q w)) (cached_policy E) = Ok pin" and "length pin \<le> 64"
  shows "\<exists>w' s. pinutil_main E args w = (Ok (), w') \<and>
    to_json E (Inr RUnit) = Ok s \<and> out Q w' = out Q w @ s @ [newline] \<and>
    (slot_of E uid (nvs V w') = None \<longleftrightarrow> pin_matches E uid (nvs V w) pin)"
proof -
  have "tcti_check E (mgr_tcti_spec (policy_manager E)) = None"
    using assms(1) by (simp add: working_def policy_manager_def)
  then have "\<exists>v'. delete_pin E name True v = (Ok (), v') \<and>
      (out Q v' = out Q w \<and> (slot_of E uid (nvs V v') = None \<longleftrightarrow> pin_matches E uid (nvs V w) pin))"
    if "nvs V v = nvs V w" "stdio Q v = stdio Q w" for v
    using delete_live [OF assms(1,3-5) in_service_nvs [OF assms(6) that(1)]] assms(7-9) that by simp
  from command_run [where m = "delete_pin E name True" and w = w and
    P = "\<lambda>N printed. printed = out Q w \<and> (slot_of E uid N = None \<longleftrightarrow> pin_matches E uid (nvs V w) pin)", OF assms(1,2) _ this]
  show ?thesis by (auto simp: for_user_def resolve_username_def ok_then)
qed

end
