(* ===== verification/PamLive.thy ===== *)
theory PamLive imports PamSafety PinutilLive begin

text \<open>
  A login that should succeed does: on a working TPM and platform, the user who presents the stored
  PIN and has attempts left is let in, through the PAM module, its helper and the TPM.
\<close>

section \<open>The module and its helper\<close>

text \<open>The helper starts, gets its line, and its output arrives; the decoder reads the reports of a
  successful test and of a user's attempts back; the prompts of the module have no null byte.\<close>

definition prompt_keys :: "string set" where
  "prompt_keys = {''pin_prompt'', ''pin_prompt_last'', ''pin_prompt_remaining''}"

definition helper_live ::
  "('w, 'y) pam_scheme \<Rightarrow> ('w, 'z) os_scheme \<Rightarrow> ('w, 'v) view_scheme \<Rightarrow> ('w, 'q) pipes_scheme \<Rightarrow> bool"
where
  "helper_live P E V Q \<longleftrightarrow>
     (\<forall>args pin w. \<exists>x w' r0. feed_helper P args pin w = (Ok x, w') \<and>
        ran E V Q args {pin @ [newline]} (nvs V w) (nvs V w') r0 (out_bytes x)) \<and>
     (\<forall>args w. \<exists>x w' r0. command_output P (helper_path P) args w = (Ok x, w') \<and>
        ran E V Q args UNIV (nvs V w) (nvs V w') r0 (out_bytes x) \<and> exit_success x = (exit_code r0 = 0)) \<and>
     (\<forall>s. to_json E (Inr RUnit) = Ok s \<longrightarrow> json_unit P (from_utf8_lossy (s @ [newline])) = Inr (Inr ())) \<and>
     (\<forall>i s. to_json E (Inr (RInfo i)) = Ok s \<longrightarrow> json_info P (from_utf8_lossy (s @ [newline])) = Inr (Inr i)) \<and>
     (\<forall>k \<in> prompt_keys. \<forall>a. CHR 0x00 \<notin> set (pam_tr P k a))"

text \<open>A deployment that works for a user who may try a PIN.\<close>

definition serviceable ::
  "('w, 'y) pam_scheme \<Rightarrow> ('w, 'z) os_scheme \<Rightarrow> ('w, 'v) view_scheme \<Rightarrow> ('w, 'q) pipes_scheme \<Rightarrow>
     string \<Rightarrow> u32 \<Rightarrow> bool"
where
  "serviceable P E V Q user uid \<longleftrightarrow>
     working E V Q \<and> helper_live P E V Q \<and> cached_policy E = pam_policy P \<and>
     machine_invocation E [''-m'', ''test'', user] (Test (Some user)) \<and>
     machine_invocation E [''-m'', ''status'', user] (Status (Some user)) \<and>
     get_uid_from_username (pam_user_table P) user = Ok uid \<and>
     get_uid_from_username (user_table E) user = Ok uid \<and> can_attempt_pin (proc E) uid"

text \<open>What the user presents: a usable first-pass token when the module is told to look at it, otherwise
  the usable answer to every prompt.\<close>

definition presents ::
  "('w, 'y) pam_scheme \<Rightarrow> 'w pam_io \<Rightarrow> module_args \<Rightarrow> string option \<Rightarrow> pin \<Rightarrow> bool"
where
  "presents P io a authtok pin \<longleftrightarrow>
     (case decide_first_pass a authtok (pam_policy P) of
        TryFirstPass t \<Rightarrow> t = pin
      | Deny \<Rightarrow> False
      | PromptUser \<Rightarrow>
          (\<exists>f. io = Some f \<and> (\<forall>prompt w. \<exists>s w'. f PROMPT_ECHO_OFF prompt w = ((SUCCESS, Some (Some s)), w') \<and>
             valid_utf8 s \<and> pin_new s (pam_policy P) = Ok pin)))"

text \<open>A user whose stored PIN is the one presented.\<close>

definition entitled :: "('w, 'z) os_scheme \<Rightarrow> ('w, 'v) view_scheme \<Rightarrow> u32 \<Rightarrow> pin \<Rightarrow> 'w \<Rightarrow> bool" where
  "entitled E V uid pin w \<longleftrightarrow>
     (\<exists>m. in_service E V m uid w) \<and> 0 < attempts_left E uid (nvs V w) \<and> pin_matches E uid (nvs V w) pin \<and>
     length pin \<le> 64 \<and> newline \<notin> set pin"

lemma entitled_nvs:
  assumes W: "working E V Q" and e: "entitled E V uid pin w" and n: "nvs V w' = nvs V w"
  shows "entitled E V uid pin w'" "in_service E V (policy_manager E) uid w"
proof -
  have t: "tcti_check E (mgr_tcti_spec (policy_manager E)) = None"
    using W by (simp add: working_def policy_manager_def)
  obtain m where "in_service E V m uid w" using e by (auto simp: entitled_def)
  then have "in_service E V (policy_manager E) uid w'" "in_service E V (policy_manager E) uid w"
    using n t by (auto intro: in_service_nvs)
  then show "entitled E V uid pin w'" "in_service E V (policy_manager E) uid w"
    using e n by (auto simp: entitled_def)
qed

lemma pinutil_status_live:
  assumes S: "serviceable P E V Q user uid" and e: "entitled E V uid pin w"
  shows "\<exists>used limit w1. run_pinutil_status P user w = (Ok (StAvailable used limit), w1) \<and> used < limit \<and>
     nvs V w1 = nvs V w"
proof -
  note s = S [unfolded serviceable_def]
  have W: "working E V Q" using s by blast
  obtain x w1 r0 where x: "command_output P (helper_path P) [''-m'', ''status'', user] w = (Ok x, w1)"
      "ran E V Q [''-m'', ''status'', user] UNIV (nvs V w) (nvs V w1) r0 (out_bytes x)"
      "exit_success x = (exit_code r0 = 0)"
    using s unfolding helper_live_def by metis
  then obtain v0 v1 where v: "nvs V v0 = nvs V w" "out Q v0 = []"
      "pinutil_main E [''-m'', ''status'', user] v0 = (r0, v1)" "nvs V v1 = nvs V w1" "out Q v1 = out_bytes x"
    by (auto simp: ran_def)
  obtain u0 where u: "pinutil_main E [''-m'', ''status'', user] v0 = run_command E (Status (Some user)) True u0"
      "nvs V u0 = nvs V v0" "stdio Q u0 = stdio Q v0"
    using main_live [OF W] s by blast
  have e0: "entitled E V uid pin u0" by (rule entitled_nvs(1) [OF W e]) (use u(2) v(1) in simp)
  then obtain i u1 where i: "show_status E user True u0 = (Ok (Some i), u1)" "ai_used i < ai_limit i"
      "nvs V u1 = nvs V u0" "out Q u1 = out Q u0"
    using status_live [OF W _ entitled_nvs(2) [OF W e0 refl], of user] s e0 unfolding entitled_def by blast
  obtain t u2 where t: "to_json E (Inr (RInfo (Some i))) = Ok t"
      "handle_result E RInfo (show_status E user True) True u0 = (Ok (), u2)"
      "nvs V u2 = nvs V u1" "out Q u2 = out Q u1 @ t @ [newline]"
    using report_live [where m = "show_status E user True" and wrap = RInfo, OF W i(1)] by blast
  have r: "(r0, v1) = (Ok (), u2)"
    using u(1) v(3) t(2) by (simp add: for_user_def resolve_username_def ok_then)
  then have "out_bytes x = t @ [newline]" using v(2,5) u(3) i(4) t(4) by simp
  moreover have "json_info P (from_utf8_lossy (t @ [newline])) = Inr (Inr (Some i))"
    using s t(1) by (auto simp: helper_live_def)
  moreover have "\<not> locked i" using i(2) by (simp add: locked_def not_le)
  ultimately have "run_pinutil_status P user w = (Ok (StAvailable (ai_used i) (ai_limit i)), w1)"
    using x(1,3) r by (simp add: run_pinutil_status_def matchRes_def ok_def)
  moreover have "nvs V w1 = nvs V w" using r v(1,4) u(2) i(3) t(3) by simp
  ultimately show ?thesis using i(2) by blast
qed

lemma pinutil_test_live:
  assumes S: "serviceable P E V Q user uid" and e: "entitled E V uid pin w"
    and p: "pin_new pin (pam_policy P) = Ok pin"
  shows "\<exists>w1. run_pinutil_test P user pin w = (Ok TestSuccess, w1)"
proof -
  note s = S [unfolded serviceable_def]
  have W: "working E V Q" using s by blast
  obtain x w1 r0 where x: "feed_helper P [''-m'', ''test'', user] pin w = (Ok x, w1)"
      "ran E V Q [''-m'', ''test'', user] {pin @ [newline]} (nvs V w) (nvs V w1) r0 (out_bytes x)"
    using s unfolding helper_live_def by metis
  then obtain v0 v1 where v: "nvs V v0 = nvs V w" "inp Q v0 = pin @ [newline]" "out Q v0 = []"
      "pinutil_main E [''-m'', ''test'', user] v0 = (r0, v1)" "out Q v1 = out_bytes x"
    by (auto simp: ran_def)
  obtain u0 where u: "pinutil_main E [''-m'', ''test'', user] v0 = run_command E (Test (Some user)) True u0"
      "nvs V u0 = nvs V v0" "stdio Q u0 = stdio Q v0"
    using main_live [OF W] s by blast
  have e0: "entitled E V uid pin u0" by (rule entitled_nvs(1) [OF W e]) (use u(2) v(1) in simp)
  have "trim pin = pin" using p by (simp add: pin_new_def Let_def split: res.splits)
  then have "trim (take_line (pin @ [newline])) = trim pin"
    using take_line_newline [of pin] sent_pin_id [of pin] e by (simp add: entitled_def)
  then have "pin_new (take_line (inp Q u0)) (cached_policy E) = Ok pin"
    using p s u(3) v(2) by (simp add: pin_new_def)
  moreover have "0 < attempts_left E uid (nvs V u0)" "pin_matches E uid (nvs V u0) pin" "length pin \<le> 64"
    "get_uid_from_username (user_table E) user = Ok uid" "can_attempt_pin (proc E) uid"
    using e0 s by (simp_all add: entitled_def)
  ultimately obtain u1 where i: "test_pin E user True u0 = (Ok (), u1)" "out Q u1 = out Q u0"
    using test_live [where pin = pin and name = user, OF W _ _ entitled_nvs(2) [OF W e0 refl]] by metis
  obtain t u2 where t: "to_json E (Inr RUnit) = Ok t"
      "handle_result E (\<lambda>_. RUnit) (test_pin E user True) True u0 = (Ok (), u2)"
      "out Q u2 = out Q u1 @ t @ [newline]"
    using report_live [where m = "test_pin E user True" and wrap = "\<lambda>_. RUnit", OF W i(1)] by blast
  have "(r0, v1) = (Ok (), u2)"
    using u(1) v(4) t(2) by (simp add: for_user_def resolve_username_def ok_then)
  then have "out_bytes x = t @ [newline]" using v(3,5) u(3) i(2) t(3) by simp
  moreover have "json_unit P (from_utf8_lossy (t @ [newline])) = Inr (Inr ())"
    using s t(1) by (auto simp: helper_live_def)
  ultimately show ?thesis using x(1) by (simp add: run_pinutil_test_def andThen_def ok_def)
qed

section \<open>Properties\<close>

lemma pin_new_again: "pin_new s p = Ok pin \<Longrightarrow> pin_new pin p = Ok pin"
  by (auto simp: pin_new_def Let_def split: res.splits)

lemma prompted_live:
  assumes S: "serviceable P E V Q user uid" and io: "quiet_io V io" and e: "entitled E V uid pin w"
    and f: "io = Some f" "\<forall>prompt w. \<exists>s w'. f PROMPT_ECHO_OFF prompt w = ((SUCCESS, Some (Some s)), w') \<and>
      valid_utf8 s \<and> pin_new s (pam_policy P) = Ok pin"
    and l: "used < limit"
  shows "\<exists>w1. prompt_and_test P io user used limit w = (Ok SUCCESS, w1)"
proof -
  have W: "working E V Q" and H: "helper_live P E V Q" using S by (simp_all add: serviceable_def)
  have ask: "\<exists>w1. ask_pin P io (pam_tr P k a) w = (Ok pin, w1) \<and> nvs V w1 = nvs V w" if "k \<in> prompt_keys" for k a
  proof -
    obtain s w1 where 1: "f PROMPT_ECHO_OFF (pam_tr P k a) w = ((SUCCESS, Some (Some s)), w1)" "valid_utf8 s"
        "pin_new s (pam_policy P) = Ok pin"
      using f(2) by metis
    have "nvs V w1 = nvs V w" using io f(1) 1(1) unfolding quiet_io_def by (metis snd_conv)
    moreover have "CHR 0x00 \<notin> set (pam_tr P k a)" using H that by (simp add: helper_live_def)
    moreover have "pin_new (trim s) (pam_policy P) = Ok pin" using 1(3) by (simp add: pin_new_def)
    ultimately show ?thesis using 1(1,2) f(1)
      by (simp add: ask_pin_def prompt_hidden_def converse_def ffi_def andThen_def ok_def)
  qed
  have "limit - used \<noteq> 0" "\<not> limit < used" using l by auto
  then have "\<exists>k \<in> prompt_keys. \<exists>a. prompt_for_pin P io used limit = ask_pin P io (pam_tr P k a)"
    unfolding prompt_for_pin_def sub_u32_def prompt_keys_def by (simp add: ok_then) metis
  then obtain w1 where 1: "prompt_for_pin P io used limit w = (Ok pin, w1)" "nvs V w1 = nvs V w"
    using ask by metis
  have "pin_new pin (pam_policy P) = Ok pin" using f(2) pin_new_again by metis
  then obtain w2 where "run_pinutil_test P user pin w1 = (Ok TestSuccess, w2)"
    using pinutil_test_live [OF S entitled_nvs(1) [OF W e 1(2)]] by blast
  moreover have "\<not> limit \<le> used" using l by (simp add: not_le)
  ultimately show ?thesis using 1(1)
    by (simp add: prompt_and_test_def test_or_unavailable_def matchRes_def ok_def)
qed

lemma authenticate_live:
  assumes S: "serviceable P E V Q user uid" and io: "quiet_io V io" and e: "entitled E V uid pin w"
    and p: "presents P io a authtok pin"
  shows "\<exists>w1. authenticate_user P io user a authtok w = (Ok SUCCESS, w1)"
proof -
  have W: "working E V Q" and u: "get_uid_from_username (pam_user_table P) user = Ok uid"
    using S by (simp_all add: serviceable_def)
  obtain used limit w1 where
      1: "run_pinutil_status P user w = (Ok (StAvailable used limit) :: (pin_status, pam_code) res, w1)"
      "used < limit" "nvs V w1 = nvs V w"
    using pinutil_status_live [OF S e] by blast
  have e1: "entitled E V uid pin w1" by (rule entitled_nvs(1) [OF W e 1(3)])
  show ?thesis
  proof (cases "decide_first_pass a authtok (pam_policy P)")
    case (TryFirstPass t)
    then have "t = pin" and "usable_pin (the authtok) (pam_policy P) = Some pin"
      using p by (auto simp: presents_def decide_first_pass_def bind_eq_Some_conv split: if_splits option.splits bool.splits)
    then obtain w2 where "run_pinutil_test P user pin w1 = (Ok TestSuccess, w2)"
      using pinutil_test_live [OF S e1] pin_new_again by (fastforce simp: usable_pin_def split: res.splits)
    then show ?thesis using u 1(1) TryFirstPass \<open>t = pin\<close>
      by (simp add: authenticate_user_def test_or_unavailable_def after_first_pass_def andThen_def matchRes_def ok_def)
  next
    case PromptUser
    then show ?thesis using p prompted_live [OF S io e1 _ _ 1(2)] u 1(1)
      by (auto simp: presents_def authenticate_user_def andThen_def)
  qed (use p in \<open>simp add: presents_def\<close>)
qed

text \<open>libpam hands out a conversation, the user's name and a token or none, and the TPM stays as it is.\<close>

definition libpam_live ::
  "('w, 'y) pam_scheme \<Rightarrow> ('w, 'v) view_scheme \<Rightarrow> 'w pam_io \<Rightarrow> string \<Rightarrow> string option \<Rightarrow> bool"
where
  "libpam_live P V io user authtok \<longleftrightarrow>
     quiet_io V io \<and> valid_utf8 user \<and> (\<forall>t. authtok = Some t \<longrightarrow> valid_utf8 t) \<and>
     (\<forall>w. \<exists>w'. get_item_conv P w = ((SUCCESS, Some io), w') \<and> nvs V w' = nvs V w) \<and>
     (\<forall>w. \<exists>w'. pam_get_user P w = ((SUCCESS, Some user), w') \<and> nvs V w' = nvs V w) \<and>
     (\<forall>w. \<exists>w'. get_item_authtok P w = ((SUCCESS, authtok), w') \<and> nvs V w' = nvs V w)"

lemma presents_none: "\<not> wants_first_pass a \<Longrightarrow> presents P io a authtok pin = presents P io a None pin"
  by (simp add: presents_def decide_first_pass_def)


end
