(* ===== verification/PinutilGuard.thy ===== *)
theory PinutilGuard imports PinutilSafety begin

text \<open>
  What a process that is not root and never reads the right PIN can do to a user's PIN by
  running \<open>pinutil\<close>: use up attempts.  One more instance of the effects interface, with the PINs that
  can be typed as a parameter.
\<close>

section \<open>A step by someone who does not know the PIN\<close>

text \<open>A user's slot exists and is not opened by any PIN of a set; afterwards it is the same slot, with
  no more attempts than before.\<close>

definition guess_step :: "('w, 'z) tss_scheme \<Rightarrow> u32 \<Rightarrow> (pin \<Rightarrow> bool) \<Rightarrow> nv_map \<Rightarrow> nv_map \<Rightarrow> bool" where
  "guess_step T uid typed N N' \<longleftrightarrow>
     (wf_all T N \<and> slot_of T uid N \<noteq> None \<and> (\<forall>pin. typed pin \<longrightarrow> \<not> pin_matches T uid N pin) \<longrightarrow>
        wf_all T N' \<and> slot_of T uid N' \<noteq> None \<and> pin_matches T uid N' = pin_matches T uid N \<and>
        attempts_left T uid N' \<le> attempts_left T uid N)"

lemma guess_preorder: "world_preorder (guess_step T uid typed)"
  by unfold_locales (auto simp: guess_step_def)

lemma guess_same: "(\<forall>k. owns T uid k \<longrightarrow> N' k = N k) \<Longrightarrow> global_step T N N' \<Longrightarrow> guess_step T uid typed N N'"
proof -
  assume same: "\<forall>k. owns T uid k \<longrightarrow> N' k = N k" and g: "global_step T N N'"
  have "slot_of T uid N' = slot_of T uid N" "tag_of T uid N' = tag_of T uid N"
    using same by (auto simp: slot_of_def tag_of_def owns_def split: res.splits)
  moreover from this have "compared_pin T uid N' = compared_pin T uid N" by (simp add: fun_eq_iff compared_pin_def)
  ultimately have "pin_matches T uid N' = pin_matches T uid N" "attempts_left T uid N' = attempts_left T uid N"
      "slot_of T uid N' = slot_of T uid N"
    by (simp_all add: fun_eq_iff pin_matches_def attempts_left_def counters_of_def split: option.split)
  then show ?thesis using g by (auto simp: guess_step_def global_step_def)
qed

lemma guess_other:
  assumes S: "tss_sound T V" and x: "op_uid x \<noteq> Some uid"
  shows "guess_step T uid typed (nvs V w) (nvs V (exec_op T m x w))"
proof (cases "wf_all T (nvs V w)")
  case True
  then show ?thesis using guess_same exec_op_other [OF S True x] exec_op_global [OF S] by blast
qed (simp add: guess_step_def)

lemma guess_reject:
  assumes "wf_all T N'" "nv_index_for_uid T uid = Ok i" "pin_reject a i N N'"
  shows "guess_step T uid typed N N'"
  using assms pin_reject_effect [OF assms(2,3)]
  by (auto simp: guess_step_def slot_of_def pin_reject_def)

lemma guess_verify:
  assumes S: "tss_sound T V" and t: "typed pin" and run: "verify_pin T m u pin w = (r, w')"
  shows "guess_step T uid typed (nvs V w) (nvs V w')"
    and "wf_all T (nvs V w) \<Longrightarrow> slot_of T u (nvs V w) \<noteq> None \<Longrightarrow>
      (\<forall>pin. typed pin \<longrightarrow> \<not> pin_matches T u (nvs V w) pin) \<Longrightarrow> \<forall>s. r \<noteq> Ok (VerifySuccess s)"
proof -
  have own: "(nvs V w' = nvs V w \<or> (\<exists>a i. nv_index_for_uid T u = Ok i \<and> pin_reject a i (nvs V w) (nvs V w'))) \<and>
      (\<forall>s. r \<noteq> Ok (VerifySuccess s))"
    if "wf_all T (nvs V w)" "slot_of T u (nvs V w) \<noteq> None" "\<not> pin_matches T u (nvs V w) pin"
  proof -
    have g: "guarded T V u w" using S that by (auto simp: guarded_def wf_all_def slot_of_def split: res.splits)
    have "verify_attempt T m u pin w = (\<exists>s. r = Ok (VerifySuccess s), w')"
      using run by (auto simp: verify_attempt_iff)
    then show ?thesis using guard.wrong_refused [OF g] wrong_attempt(2) [OF g _ run] that(3) by fastforce
  qed
  then show "wf_all T (nvs V w) \<Longrightarrow> slot_of T u (nvs V w) \<noteq> None \<Longrightarrow>
      (\<forall>pin. typed pin \<longrightarrow> \<not> pin_matches T u (nvs V w) pin) \<Longrightarrow> \<forall>s. r \<noteq> Ok (VerifySuccess s)"
    using t by blast
  have x: "exec_op T m (OpVerify u pin) w = w'" using run by simp
  show "guess_step T uid typed (nvs V w) (nvs V w')"
  proof (cases "u = uid")
    case True
    show ?thesis
    proof (cases "wf_all T (nvs V w) \<and> slot_of T uid (nvs V w) \<noteq> None \<and> (\<forall>pin. typed pin \<longrightarrow> \<not> pin_matches T uid (nvs V w) pin)")
      case h: True
      have "wf_all T (nvs V w')" using exec_op_global [OF S, of w m "OpVerify u pin"] x h by (simp add: global_step_def)
      then show ?thesis
        using own guess_reject h True t world_preorder.refl [OF guess_preorder] by metis
    qed (auto simp: guess_step_def)
  next
    case False
    then show ?thesis using guess_other [OF S, of "OpVerify u pin" uid typed w m] x by simp
  qed
qed

lemma guess_setup:
  assumes S: "tss_sound T V"
  shows "evolves (nvs V) (guess_step T uid typed) (setup_pin T m u pin)"
proof (rule evolvesI, rule wpI)
  fix w r w' assume run: "setup_pin T m u pin w = (r, w')"
  show "guess_step T uid typed (nvs V w) (nvs V w')"
  proof (cases "u = uid \<and> slot_of T uid (nvs V w) \<noteq> None")
    case True
    then obtain i where "nv_index_for_uid T u = Ok i" "nvs V w i \<noteq> None"
      by (auto simp: slot_of_def split: res.splits)
    then have "nvs V w' = nvs V w" using setup_pin_existing(2) [OF S _ _ run] by simp
    then show ?thesis using world_preorder.refl [OF guess_preorder] by metis
  next
    case False
    then show ?thesis using guess_other [OF S, of "OpSetup u pin" uid typed w m] run
      by (auto simp: guess_step_def)
  qed
qed

lemma guess_delete:
  assumes S: "tss_sound T V" and t: "typed pin"
  shows "evolves (nvs V) (guess_step T uid typed) (delete_pin_with_auth T m u pin)"
proof (rule evolvesI, rule wpI)
  fix w r w' assume run: "delete_pin_with_auth T m u pin w = (r, w')"
  obtain r1 w1 where v: "verify_pin T m u pin w = (r1, w1)" by fastforce
  show "guess_step T uid typed (nvs V w) (nvs V w')"
  proof (cases "u = uid \<and> wf_all T (nvs V w) \<and> slot_of T uid (nvs V w) \<noteq> None \<and>
      (\<forall>pin. typed pin \<longrightarrow> \<not> pin_matches T uid (nvs V w) pin)")
    case True
    then have "\<forall>s. r1 \<noteq> Ok (VerifySuccess s)" using guess_verify(2) [of T V typed pin, OF S t v] by blast
    then have "w' = w1"
      using run v by (auto simp: delete_pin_with_auth_def andThen_def ok_def
          split: res.splits verification_result.splits)
    then show ?thesis using guess_verify(1) [of T V typed pin, OF S t v] by simp
  next
    case False
    then show ?thesis using guess_other [OF S, of "OpDeleteAuth u pin" uid typed w m] run
      by (auto simp: guess_step_def)
  qed
qed

interpretation guessing_run: pinutil_effects
  "\<lambda>N N'. platform_quiet E V \<and> real_uid (proc E) \<noteq> 0 \<longrightarrow> guess_step E uid (typed_pin E) N N'" E "nvs V"
  for E V uid
proof (rule effects_intro [OF guess_preorder], goal_cases)
  case (2 m u pin)
  then show ?case by (auto simp: platform_quiet_def intro: guess_setup)
next
  case (3 m u pin)
  then have S: "tss_sound E V" "typed_pin E pin" by (simp_all add: platform_quiet_def)
  show ?case by (rule evolvesI, rule wpI) (rule guess_verify(1) [of E V "typed_pin E" pin, OF S])
next
  case (4 m u pin)
  then show ?case by (auto simp: platform_quiet_def intro: guess_delete)
qed (auto simp: get_uid_def)

section \<open>Properties\<close>

text \<open>C6: Whoever does not know a user's PIN, and is not root, cannot change, delete or replace it with
  \<open>pinutil\<close>, and gains no attempt: after any run in which no line read from the input is that PIN, the
  slot is there, opens with the same PIN and has no more attempts left than before.\<close>
theorem pin_change_needs_pin:
  assumes "platform_quiet E V" and "real_uid (proc E) \<noteq> 0" and "wf_all E (nvs V w)"
    and "slot_of E uid (nvs V w) \<noteq> None"
    and "\<forall>pin. typed_pin E pin \<longrightarrow> \<not> pin_matches E uid (nvs V w) pin"
    and "pinutil_main E args w = (r, w')"
  shows "slot_of E uid (nvs V w') \<noteq> None \<and> pin_matches E uid (nvs V w') = pin_matches E uid (nvs V w) \<and>
    attempts_left E uid (nvs V w') \<le> attempts_left E uid (nvs V w)"
proof -
  have "evolves (nvs V) (\<lambda>N N'. platform_quiet E V \<and> real_uid (proc E) \<noteq> 0 \<longrightarrow> guess_step E uid (typed_pin E) N N')
      (pinutil_main E args)"
    by (rule guessing_run.main_evolves)
  from evolvesD [OF this assms(6)] show ?thesis using assms(1-5) by (auto simp: guess_step_def)
qed

end
