(* ===== verification/MasterKeySafety.thy ===== *)
theory MasterKeySafety imports MasterKey begin

text \<open>
  What the master-key operations promise over a TPM with persistent objects and a file system:
  the sealed file gives the key back, a recovery restores the tokens, and nothing that exists is
  overwritten.
\<close>

section \<open>The observed world\<close>

text \<open>
  Files by path, what a descriptor is open on, what an ESYS handle denotes, what is persistent
  in the TPM, and, of the TPM's functions, the key inside a wrapped blob and the MAC.
\<close>

record 'w vault =
  disk :: "'w \<Rightarrow> string \<Rightarrow> byte list option"
  descr :: "'w \<Rightarrow> nat \<Rightarrow> string"
  loaded :: "'w \<Rightarrow> esys_tr \<Rightarrow> byte list option"
  pers :: "'w \<Rightarrow> u32 \<Rightarrow> byte list option"
  blob_key :: "byte list \<Rightarrow> byte list option"
  mac :: "byte list \<Rightarrow> byte list \<Rightarrow> byte list"

type_synonym stores =
  "(string \<Rightarrow> byte list option) \<times> (nat \<Rightarrow> string) \<times> (u32 \<Rightarrow> byte list option)"

abbreviation stores :: "('w, 'v) vault_scheme \<Rightarrow> 'w \<Rightarrow> stores" where
  "stores V w \<equiv> (disk V w, descr V w, pers V w)"

abbreviation whole :: "('w, 'v) vault_scheme \<Rightarrow> 'w \<Rightarrow> stores \<times> (esys_tr \<Rightarrow> byte list option)" where
  "whole V w \<equiv> (stores V w, loaded V w)"

section \<open>Laws\<close>

text \<open>Opening, closing and using sessions moves no object; these calls move no file and nothing persistent.\<close>

definition quiet_calls :: "('w, 'z) platform_scheme \<Rightarrow> ('w, 'v) vault_scheme \<Rightarrow> bool" where
  "quiet_calls E V \<longleftrightarrow>
     (\<forall>w. whole V (no_session_begin E w) = whole V w) \<and> (\<forall>w. whole V (no_session_end E w) = whole V w) \<and>
     (\<forall>s w. whole V (session_begin E s w) = whole V w) \<and> (\<forall>w. whole V (session_end E w) = whole V w) \<and>
     evolves (whole V) (=) (nullauth_begin E) \<and> evolves (whole V) (=) (nullauth_end E) \<and>
     (\<forall>s. evolves (stores V) (=) (context_new E s)) \<and> (\<forall>h. evolves (stores V) (=) (flush_context E h)) \<and>
     (\<forall>h. evolves (stores V) (=) (tr_close E h)) \<and> (\<forall>p. evolves (stores V) (=) (create_primary E p)) \<and>
     (\<forall>n. evolves (stores V) (=) (os_rng E n)) \<and> evolves (stores V) (=) (mnemonic24 E) \<and>
     (\<forall>f. evolves (stores V) (=) (create_dir_all E f)) \<and>
     (\<forall>f m. evolves (stores V) (=) (set_permissions E f m)) \<and>
     (\<forall>f u g. evolves (stores V) (=) (chown E f u g))"

text \<open>
  Persistent and loaded objects: a handle to a persistent object denotes it, and only an absent
  one gives a handle error; wrapping and loading keep the key; making persistent stores what the
  handle denotes, or removes what was there; a failed \<open>evict_control\<close> may have done anything to
  its own slot.
\<close>

definition object_laws :: "('w, 'z) platform_scheme \<Rightarrow> ('w, 'v) vault_scheme \<Rightarrow> bool" where
  "object_laws E V \<longleftrightarrow>
     (\<forall>h w. wp (tr_from_persistent E h)
        (\<lambda>r w'. stores V w' = stores V w \<and>
           (\<forall>x. r = Ok x \<longrightarrow> loaded V w' x = pers V w h \<and> pers V w h \<noteq> None) \<and>
           (\<forall>rc. r = Err (Tss2Error rc) \<longrightarrow> rc_kind E rc = Some RcHandle \<longrightarrow> pers V w h = None)) w) \<and>
     (\<forall>h p d w. wp (create_key E h p d)
        (\<lambda>r w'. stores V w' = stores V w \<and> (\<forall>priv q. r = Ok (priv, q) \<longrightarrow> blob_key V priv = Some d)) w) \<and>
     (\<forall>h b p w. wp (load_key E h b p)
        (\<lambda>r w'. stores V w' = stores V w \<and> (\<forall>x. r = Ok x \<longrightarrow> loaded V w' x = blob_key V b)) w) \<and>
     (\<forall>x h w. wp (evict_control E x h)
        (\<lambda>r w'. disk V w' = disk V w \<and> descr V w' = descr V w \<and>
           (\<forall>k. k \<noteq> h \<longrightarrow> pers V w' k = pers V w k) \<and>
           (\<forall>y. r = Ok y \<longrightarrow> pers V w' h = (if pers V w h = None then loaded V w x else None))) w) \<and>
     (\<forall>x b a w. wp (hmac E x b a)
        (\<lambda>r w'. stores V w' = stores V w \<and>
           (\<forall>d. r = Ok d \<longrightarrow> (\<exists>k. loaded V w x = Some k \<and> d = mac V k b))) w)"

text \<open>Files: opening creates an empty file where there was none; a failed write may have written a part.\<close>

definition file_laws :: "('w, 'z) platform_scheme \<Rightarrow> ('w, 'v) vault_scheme \<Rightarrow> bool" where
  "file_laws E V \<longleftrightarrow>
     (\<forall>f w. path_exists E f w \<longleftrightarrow> disk V w f \<noteq> None) \<and>
     (\<forall>f m w. wp (open_create_new E f m)
        (\<lambda>r w'. pers V w' = pers V w \<and>
           (case r of
              Ok n \<Rightarrow> disk V w f = None \<and> disk V w' = (disk V w)(f \<mapsto> []) \<and> descr V w' n = f
            | _ \<Rightarrow> disk V w' = disk V w)) w) \<and>
     (\<forall>n b w. wp (write_all E n b)
        (\<lambda>r w'. pers V w' = pers V w \<and> descr V w' = descr V w \<and>
           (\<exists>c. prefix c b \<and> (r = Ok () \<longrightarrow> c = b) \<and>
              disk V w' = (disk V w)(descr V w n \<mapsto> the (disk V w (descr V w n)) @ c))) w) \<and>
     (\<forall>f w. wp (read_file E f)
        (\<lambda>r w'. stores V w' = stores V w \<and> (\<forall>b. r = Ok b \<longrightarrow> disk V w f = Some b)) w)"

text \<open>The encoders and the cipher have inverses, and random bytes come in the number asked for.\<close>

definition codec_laws :: "('w, 'z) platform_scheme \<Rightarrow> bool" where
  "codec_laws E \<longleftrightarrow>
     (\<forall>b. b64_decode E (b64_encode E b) = Ok b) \<and>
     (\<forall>s b. sealed_to_json E s = Ok b \<longrightarrow> sealed_of_json E (b @ [10]) = Ok s) \<and>
     (\<forall>k n m c. aes_encrypt E k n m = Ok c \<longrightarrow> aes_decrypt E k n c = Ok m) \<and>
     (\<forall>n w r w'. os_rng E n w = (r, w') \<longrightarrow> (\<forall>b. r = Ok b \<longrightarrow> length b = n))"

definition vault_laws :: "('w, 'z) platform_scheme \<Rightarrow> ('w, 'v) vault_scheme \<Rightarrow> bool" where
  "vault_laws E V \<longleftrightarrow> quiet_calls E V \<and> object_laws E V \<and> file_laws E V \<and> codec_laws E"

lemma quiet_rules:
  assumes "vault_laws E V"
  shows "evolves (stores V) (=) (context_new E s)" "evolves (stores V) (=) (flush_context E h)"
    "evolves (stores V) (=) (tr_close E h)" "evolves (stores V) (=) (create_primary E p)"
    "evolves (stores V) (=) (os_rng E n)" "evolves (stores V) (=) (mnemonic24 E)"
    "evolves (stores V) (=) (create_dir_all E f)" "evolves (stores V) (=) (set_permissions E f m)"
    "evolves (stores V) (=) (chown E f u g)"
    "evolves (stores V) (=) (act (no_session_begin E))" "evolves (stores V) (=) (act (no_session_end E))"
    "evolves (stores V) (=) (act (session_begin E q))" "evolves (stores V) (=) (act (session_end E))"
    "evolves (stores V) (=) (tr_from_persistent E ph)" "evolves (stores V) (=) (create_key E h p d)"
    "evolves (stores V) (=) (load_key E h d p)" "evolves (stores V) (=) (read_file E f)"
proof -
  from assms have Q: "quiet_calls E V" and O: "object_laws E V" and F: "file_laws E V"
    by (simp_all add: vault_laws_def)
  note q = Q [unfolded quiet_calls_def]
  show "evolves (stores V) (=) (context_new E s)" "evolves (stores V) (=) (flush_context E h)"
    "evolves (stores V) (=) (tr_close E h)" "evolves (stores V) (=) (create_primary E p)"
    "evolves (stores V) (=) (os_rng E n)" "evolves (stores V) (=) (mnemonic24 E)"
    "evolves (stores V) (=) (create_dir_all E f)" "evolves (stores V) (=) (set_permissions E f m)"
    "evolves (stores V) (=) (chown E f u g)"
    "evolves (stores V) (=) (act (no_session_begin E))" "evolves (stores V) (=) (act (no_session_end E))"
    "evolves (stores V) (=) (act (session_begin E q))" "evolves (stores V) (=) (act (session_end E))"
    using q by (simp_all add: evolves_act)
  show "evolves (stores V) (=) (tr_from_persistent E ph)" "evolves (stores V) (=) (create_key E h p d)"
    "evolves (stores V) (=) (load_key E h d p)"
    using O by (simp_all add: object_laws_def evolves_def wp_fst_snd)
  show "evolves (stores V) (=) (read_file E f)"
    using F by (simp add: file_laws_def evolves_def wp_fst_snd)
qed

lemma pure_rules:
  "evolves obs (=) (checked c x)" "evolves obs (=) (checked_io c' x)" "evolves obs (=) (peek look)"
  by (auto simp: evolves_def checked_def checked_io_def ok_def err_def peek_def split: option.split)

lemmas quiet_intros = unchanged.evolves_intros unchanged.branch_evolves pure_rules quiet_rules

text \<open>A closure in a session, for postconditions that the session's bookkeeping does not touch.\<close>

lemma session_wp:
  assumes L: "vault_laws E V"
    and f: "\<And>w1. whole V w1 = whole V w \<Longrightarrow> wp f (\<lambda>r w'. R r (whole V w')) w1"
  shows "wp (without_session E f) (\<lambda>r w'. R r (whole V w')) w"
    "wp (with_session E h f) (\<lambda>r w'. R r (whole V w')) w"
proof -
  have q: "whole V (no_session_begin E w1) = whole V w1" "whole V (no_session_end E w1) = whole V w1"
    "whole V (session_begin E h w1) = whole V w1" "whole V (session_end E w1) = whole V w1" for h w1
    using L by (simp_all add: vault_laws_def quiet_calls_def)
  show "wp (without_session E f) (\<lambda>r w'. R r (whole V w')) w"
    unfolding without_session_def wp_andThen wp_matchRes wp_act
    by (simp add: wp_ok wp_err) (rule wp_mono [OF f], use q in \<open>auto simp: q\<close>)
  show "wp (with_session E h f) (\<lambda>r w'. R r (whole V w')) w"
    unfolding with_session_def wp_andThen wp_matchRes wp_act
    by (simp add: wp_ok wp_err) (rule wp_mono [OF f], use q in \<open>auto simp: q\<close>)
qed

lemma session_keeps:
  assumes "vault_laws E V" "evolves (stores V) (=) f"
  shows "evolves (stores V) (=) (without_session E f)" "evolves (stores V) (=) (with_session E h f)"
  unfolding without_session_def with_session_def by (intro quiet_intros assms)+

lemma lift_wp: "wp m (\<lambda>r w'. R (case r of Ok x \<Rightarrow> Ok x | Err e \<Rightarrow> Err (from_tss E e) | Panic s \<Rightarrow> Panic s) w') w \<Longrightarrow>
    wp (liftTss E m) R w"
  unfolding wp_mapErr by (erule wp_mono) (auto split: res.splits)

text \<open>Each TPM call in its session.\<close>

lemma present_wp:
  assumes L: "vault_laws E V"
  shows "wp (persistent_present E h)
    (\<lambda>r w'. stores V w' = stores V w \<and> (\<forall>b. r = Ok b \<longrightarrow> b = (pers V w h \<noteq> None))) w"
proof -
  have "wp (without_session E (tr_from_persistent E h))
      (\<lambda>r w'. fst (whole V w') = stores V w \<and> (\<forall>x. r = Ok x \<longrightarrow> pers V w h \<noteq> None) \<and>
         (\<forall>rc. r = Err (Tss2Error rc) \<longrightarrow> rc_kind E rc = Some RcHandle \<longrightarrow> pers V w h = None)) w"
  proof (rule session_wp(1) [OF L, where R = "\<lambda>r s. fst s = stores V w \<and> (\<forall>x. r = Ok x \<longrightarrow> pers V w h \<noteq> None) \<and>
         (\<forall>rc. r = Err (Tss2Error rc) \<longrightarrow> rc_kind E rc = Some RcHandle \<longrightarrow> pers V w h = None)"])
    fix w1 assume w1: "whole V w1 = whole V w"
    have "wp (tr_from_persistent E h) (\<lambda>r w'. stores V w' = stores V w1 \<and>
           (\<forall>x. r = Ok x \<longrightarrow> loaded V w' x = pers V w1 h \<and> pers V w1 h \<noteq> None) \<and>
           (\<forall>rc. r = Err (Tss2Error rc) \<longrightarrow> rc_kind E rc = Some RcHandle \<longrightarrow> pers V w1 h = None)) w1"
      using L by (simp add: vault_laws_def object_laws_def)
    then show "wp (tr_from_persistent E h) (\<lambda>r w'. fst (whole V w') = stores V w \<and> (\<forall>x. r = Ok x \<longrightarrow> pers V w h \<noteq> None) \<and>
         (\<forall>rc. r = Err (Tss2Error rc) \<longrightarrow> rc_kind E rc = Some RcHandle \<longrightarrow> pers V w h = None)) w1"
      by (rule wp_mono) (use w1 in auto)
  qed
  then show ?thesis
    unfolding persistent_present_def
    by (auto simp: wp_simps split: option.splits tss_error.splits rc_kind.splits elim!: wp_mono)
qed

lemma ok_andThen: "andThen (ok x) k = k x"
  by (simp add: andThen_def ok_def fun_eq_iff)

text \<open>A step that moves no store, before the rest.\<close>

lemma keep_then:
  assumes "evolves (stores V) (=) m" and s: "stores V w = s"
    and stop: "\<And>e. G (Err e) s" "\<And>t. G (Panic t) s"
    and k: "\<And>x w1. stores V w1 = s \<Longrightarrow> wp (k x) (\<lambda>r w'. G r (stores V w')) w1"
  shows "wp (andThen m k) (\<lambda>r w'. G r (stores V w')) w"
proof -
  obtain r w1 where 1: "m w = (r, w1)" by fastforce
  then have "stores V w1 = s" using evolvesD [OF assms(1) 1] s by simp
  then show ?thesis using 1 stop k by (cases r) (simp_all add: andThen_def wp_def)
qed

text \<open>A call under the password session: what it does to the stores, and what an answer says.\<close>

lemma password_wp:
  assumes L: "vault_laws E V"
    and f: "\<And>w1. whole V w1 = whole V w \<Longrightarrow>
      wp f (\<lambda>r w'. B (stores V w') \<and> (\<forall>x. r = Ok x \<longrightarrow> G x (whole V w'))) w1"
  shows "wp (with_password E f) (\<lambda>r w'. B (stores V w') \<and> (\<forall>x. r = Ok x \<longrightarrow> G x (whole V w'))) w"
proof -
  have "wp (with_session E (password_session E) f)
      (\<lambda>r w'. B (stores V w') \<and> (\<forall>x. r = Ok x \<longrightarrow> G x (whole V w'))) w"
    using session_wp(2) [OF L, where R = "\<lambda>r s. B (fst s) \<and> (\<forall>x. r = Ok x \<longrightarrow> G x s)" and f = f and w = w
        and h = "password_session E"] f by simp
  then show ?thesis unfolding wp_mapErr by (rule wp_mono) auto
qed

lemma checked_then:
  assumes "\<And>e. G (Err e) s" and "stores V w = s" and "wp (k x) (\<lambda>r w'. G r (stores V w')) w"
  shows "wp (andThen (liftTss E (checked c x)) k) (\<lambda>r w'. G r (stores V w')) w"
  using assms by (auto simp: wp_simps split: option.split)

lemma create_wp:
  assumes L: "vault_laws E V"
  shows "wp (with_password E (create_key E h p d))
    (\<lambda>r w'. stores V w' = stores V w \<and> (\<forall>x. r = Ok x \<longrightarrow> blob_key V (fst x) = Some d)) w"
proof (rule password_wp [OF L, where B = "\<lambda>s. s = stores V w" and G = "\<lambda>x _. blob_key V (fst x) = Some d"])
  fix w1 assume w1: "whole V w1 = whole V w"
  have "wp (create_key E h p d)
        (\<lambda>r w'. stores V w' = stores V w1 \<and> (\<forall>priv q. r = Ok (priv, q) \<longrightarrow> blob_key V priv = Some d)) w1"
    using L by (simp add: vault_laws_def object_laws_def)
  then show "wp (create_key E h p d)
      (\<lambda>r w'. stores V w' = stores V w \<and> (\<forall>x. r = Ok x \<longrightarrow> blob_key V (fst x) = Some d)) w1"
    by (rule wp_mono) (use w1 in auto)
qed

lemma load_wp:
  assumes L: "vault_laws E V"
  shows "wp (with_password E (load_key E h b p))
    (\<lambda>r w'. stores V w' = stores V w \<and> (\<forall>x. r = Ok x \<longrightarrow> snd (whole V w') x = blob_key V b)) w"
proof (rule password_wp [OF L, where B = "\<lambda>s. s = stores V w" and G = "\<lambda>x s. snd s x = blob_key V b"])
  fix w1 assume w1: "whole V w1 = whole V w"
  have "wp (load_key E h b p)
        (\<lambda>r w'. stores V w' = stores V w1 \<and> (\<forall>x. r = Ok x \<longrightarrow> loaded V w' x = blob_key V b)) w1"
    using L by (simp add: vault_laws_def object_laws_def)
  then show "wp (load_key E h b p)
      (\<lambda>r w'. stores V w' = stores V w \<and> (\<forall>x. r = Ok x \<longrightarrow> snd (whole V w') x = blob_key V b)) w1"
    by (rule wp_mono) (use w1 in auto)
qed

text \<open>\<open>evict_control\<close> touches its own slot only.\<close>

definition slot_only :: "u32 \<Rightarrow> stores \<Rightarrow> stores \<Rightarrow> bool" where
  "slot_only h s s' \<longleftrightarrow>
     fst s' = fst s \<and> fst (snd s') = fst (snd s) \<and> (\<forall>k. k \<noteq> h \<longrightarrow> snd (snd s') k = snd (snd s) k)"

lemma evict_wp:
  assumes L: "vault_laws E V"
  shows "wp (with_password E (evict_control E x h))
    (\<lambda>r w'. slot_only h (stores V w) (stores V w') \<and>
       (\<forall>y. r = Ok y \<longrightarrow>
          snd (snd (fst (whole V w'))) h = (if pers V w h = None then loaded V w x else None))) w"
proof (rule password_wp [OF L, where B = "slot_only h (stores V w)"
      and G = "\<lambda>_ s. snd (snd (fst s)) h = (if pers V w h = None then loaded V w x else None)"])
  fix w1 assume w1: "whole V w1 = whole V w"
  have "wp (evict_control E x h)
        (\<lambda>r w'. disk V w' = disk V w1 \<and> descr V w' = descr V w1 \<and>
           (\<forall>k. k \<noteq> h \<longrightarrow> pers V w' k = pers V w1 k) \<and>
           (\<forall>y. r = Ok y \<longrightarrow> pers V w' h = (if pers V w1 h = None then loaded V w1 x else None))) w1"
    using L unfolding vault_laws_def object_laws_def by blast
  then show "wp (evict_control E x h)
    (\<lambda>r w'. slot_only h (stores V w) (stores V w') \<and>
       (\<forall>y. r = Ok y \<longrightarrow>
          snd (snd (fst (whole V w'))) h = (if pers V w h = None then loaded V w x else None))) w1"
    by (rule wp_mono) (use w1 in \<open>auto simp: slot_only_def\<close>)
qed

section \<open>Provisioning\<close>

text \<open>The key ends up in its slot, if that was empty, or the call fails.\<close>

definition installs :: "byte list \<Rightarrow> stores \<Rightarrow> (unit, 'e) res \<Rightarrow> stores \<Rightarrow> bool" where
  "installs key s r s' \<longleftrightarrow>
     slot_only MASTER_KEY_HMAC_HANDLE s s' \<and>
     (r = Ok () \<longrightarrow> snd (snd s) MASTER_KEY_HMAC_HANDLE = None \<longrightarrow>
        snd (snd s') MASTER_KEY_HMAC_HANDLE = Some key)"

lemma installs_stop: "installs key s (Err e) s" "installs key s (Panic t) s"
  by (simp_all add: installs_def slot_only_def)

lemma create_hmac_wp:
  assumes L: "vault_laws E V"
  shows "wp (create_and_persist_hmac_key E key) (\<lambda>r w'. installs key (stores V w) r (stores V w')) w"
proof -
  let ?s = "stores V w" and ?G = "installs key (stores V w)"
  note keep = keep_then [where G = ?G and s = ?s, OF _ _ installs_stop]
  have tail: "wp (andThen (with_password E (evict_control E x MASTER_KEY_HMAC_HANDLE)) (\<lambda>y.
       andThen (ignore (flush_context E x)) (\<lambda>_. andThen (ignore (tr_close E y)) (\<lambda>_. ok ()))))
       (\<lambda>r w'. ?G r (stores V w')) w1"
    if s: "stores V w1 = ?s" and x: "loaded V w1 x = Some key" for x w1
    unfolding wp_andThen [of "with_password E _"]
  proof (rule wp_mono [OF evict_wp [OF L]], elim conjE, intro conjI allI impI, goal_cases)
    case (1 r w2 y)
    then have i: "?G (Ok () :: (unit, pin_error) res) (stores V w2)"
      using s x by (auto simp: installs_def)
    have "evolves (stores V) (=) (andThen (ignore (flush_context E x)) (\<lambda>_. andThen (ignore (tr_close E y)) (\<lambda>_. ok ())) :: ('a, unit, pin_error) eff)"
      by (intro quiet_intros L)
    from evolves_wp [OF this, of w2] show ?case
      by (rule wp_mono) (use i in \<open>auto simp: installs_def\<close>)
  qed (use s in \<open>auto simp: installs_def\<close>)
  have load: "wp (andThen (with_password E (load_key E parent b q)) (\<lambda>x.
       andThen (liftTss E (checked (persistent_check E MASTER_KEY_HMAC_HANDLE) MASTER_KEY_HMAC_HANDLE)) (\<lambda>h.
       andThen (with_password E (evict_control E x h)) (\<lambda>y.
       andThen (ignore (flush_context E x)) (\<lambda>_. andThen (ignore (tr_close E y)) (\<lambda>_. ok ()))))))
       (\<lambda>r w'. ?G r (stores V w')) w1"
    if s: "stores V w1 = ?s" and b: "blob_key V b = Some key" for w1 b q parent
    unfolding wp_andThen [of "with_password E (load_key E parent b q)"]
  proof (rule wp_mono [OF load_wp [OF L]], elim conjE, intro conjI allI impI, goal_cases)
    case (1 r w2 x)
    then show ?case
      using tail [of w2 x] s b installs_stop
      by (auto simp: wp_andThen [of "liftTss E _"] wp_mapErr wp_checked split: option.split)
  qed (use s installs_stop in auto)
  have create: "wp (andThen (with_password E (create_key E parent q key)) (\<lambda>(b, q).
       andThen (with_password E (load_key E parent b q)) (\<lambda>x.
       andThen (liftTss E (checked (persistent_check E MASTER_KEY_HMAC_HANDLE) MASTER_KEY_HMAC_HANDLE)) (\<lambda>h.
       andThen (with_password E (evict_control E x h)) (\<lambda>y.
       andThen (ignore (flush_context E x)) (\<lambda>_. andThen (ignore (tr_close E y)) (\<lambda>_. ok ())))))))
       (\<lambda>r w'. ?G r (stores V w')) w1"
    if s: "stores V w1 = ?s" for w1 q parent
    unfolding wp_andThen [of "with_password E (create_key E parent q key)"]
  proof (rule wp_mono [OF create_wp [OF L]], elim conjE, intro conjI allI impI, goal_cases)
    case (1 r w2 x)
    then show ?case using load [of w2 "fst x" parent "snd x"] s by (simp add: case_prod_unfold)
  qed (use s installs_stop in auto)
  note check = checked_then [where G = ?G and s = ?s, OF installs_stop(1)]
  show ?thesis
    unfolding create_and_persist_hmac_key_def
    by (rule check, rule refl, rule keep, (intro quiet_intros session_keeps L)[1], rule refl,
      (rule check, assumption)+, rule create)
qed

interpretation slot: world_preorder "slot_only h" for h
  by unfold_locales (simp_all add: slot_only_def)

lemma slot_checked_then:
  "evolves (stores V) (slot_only h) (k x) \<Longrightarrow> evolves (stores V) (slot_only h) (andThen (liftTss E (checked c x)) k)"
  by (rule evolvesI)
    (auto simp: wp_simps slot.refl intro: evolves_wp [where obs = "stores V"] split: option.split)

lemma evict_slot: "vault_laws E V \<Longrightarrow> evolves (stores V) (slot_only h) (with_password E (evict_control E x h))"
  by (rule evolvesI) (rule wp_mono [OF evict_wp], auto)

lemma create_rsa_slot:
  assumes L: "vault_laws E V"
  shows "evolves (stores V) (slot_only MASTER_KEY_RSA_PARENT_HANDLE) (create_and_persist_rsa_parent E)"
proof -
  have q: "evolves (stores V) (slot_only h) (with_password E (create_primary E p))"
    "evolves (stores V) (slot_only h) (flush_context E x)" "evolves (stores V) (slot_only h) (tr_close E x)" for h p x
    by (rule slot.equal_evolves, intro quiet_intros session_keeps L)+
  show ?thesis
    unfolding create_and_persist_rsa_parent_def
    by (intro slot_checked_then slot.andThen_evolves slot.ignore_evolves slot.ok_evolves q evict_slot L)
qed

text \<open>Provisioning touches no file, and the two slots only; an occupied HMAC slot it leaves.\<close>

definition provisions :: "byte list \<Rightarrow> stores \<Rightarrow> (unit, 'e) res \<Rightarrow> stores \<Rightarrow> bool" where
  "provisions key s r s' \<longleftrightarrow>
     fst s' = fst s \<and> fst (snd s') = fst (snd s) \<and>
     (snd (snd s) MASTER_KEY_HMAC_HANDLE \<noteq> None \<longrightarrow>
        snd (snd s') MASTER_KEY_HMAC_HANDLE = snd (snd s) MASTER_KEY_HMAC_HANDLE) \<and>
     (r = Ok () \<longrightarrow>
        snd (snd s) MASTER_KEY_HMAC_HANDLE = None \<and> snd (snd s') MASTER_KEY_HMAC_HANDLE = Some key)"

lemma handles_differ: "MASTER_KEY_HMAC_HANDLE \<noteq> MASTER_KEY_RSA_PARENT_HANDLE"
  by (simp add: MASTER_KEY_HMAC_HANDLE_def MASTER_KEY_RSA_PARENT_HANDLE_def)

lemma new_context_keeps: "vault_laws E V \<Longrightarrow> evolves (stores V) (=) (new_context E p)"
  unfolding new_context_def by (intro quiet_intros)

lemma present_keeps: "vault_laws E V \<Longrightarrow> evolves (stores V) (=) (persistent_present E h)"
  by (rule evolvesI) (rule wp_mono [OF present_wp], auto)

lemma provision_wp:
  assumes L: "vault_laws E V"
  shows "wp (provision_tpm_objects E p key) (\<lambda>r w'. provisions key (stores V w) r (stores V w')) w"
proof -
  let ?s = "stores V w" and ?G = "provisions key (stores V w)"
  have keep: "wp (andThen m k) (\<lambda>r w'. ?G r (stores V w')) w1"
    if "evolves (stores V) (=) m" "stores V w1 = ?s"
      "\<And>x w1. stores V w1 = ?s \<Longrightarrow> wp (k x) (\<lambda>r w'. ?G r (stores V w')) w1" for m k w1
    by (rule keep_then [OF that(1,2) _ _ that(3)]) (simp_all add: provisions_def)
  have hmac: "wp (andThen (persistent_present E MASTER_KEY_HMAC_HANDLE) (\<lambda>present.
     if present then err (TpmError (tr E ''mk_hmac_handle_already_exists'' []))
     else andThen (create_and_persist_hmac_key E key) (\<lambda>_. ok ())))
     (\<lambda>r w'. ?G r (stores V w')) w1" if s: "slot_only MASTER_KEY_RSA_PARENT_HANDLE ?s (stores V w1)" for w1
    unfolding wp_andThen [of "persistent_present E _"]
  proof (rule wp_mono [OF present_wp [OF L]], elim conjE, intro conjI allI impI, goal_cases)
    case (1 r w2 present)
    show ?case
    proof (cases present)
      case True
      then show ?thesis using 1 s handles_differ by (simp add: wp_simps provisions_def slot_only_def)
    next
      case False
      then have "pers V w1 MASTER_KEY_HMAC_HANDLE = None" using 1 by blast
      then have "pers V w MASTER_KEY_HMAC_HANDLE = None" using s handles_differ by (simp add: slot_only_def)
      then have "?G r' s'" if "installs key (stores V w2) r' s'" for r' :: "(unit, pin_error) res" and s'
        using that 1 s handles_differ by (auto simp: installs_def provisions_def slot_only_def)
      then show ?thesis
        using False by (auto simp: wp_andThen wp_ok intro!: wp_mono [OF create_hmac_wp [OF L]])
    qed
  qed (use s handles_differ in \<open>auto simp: provisions_def slot_only_def\<close>)
  have rsa: "wp (andThen (if \<not> rsa then create_and_persist_rsa_parent E else ok ()) (\<lambda>_.
     andThen (persistent_present E MASTER_KEY_HMAC_HANDLE) (\<lambda>present.
     if present then err (TpmError (tr E ''mk_hmac_handle_already_exists'' []))
     else andThen (create_and_persist_hmac_key E key) (\<lambda>_. ok ()))))
     (\<lambda>r w'. ?G r (stores V w')) w1" if s: "stores V w1 = ?s" for rsa w1
  proof -
    let ?m = "if \<not> rsa then create_and_persist_rsa_parent E else ok ()"
    have "evolves (stores V) (slot_only MASTER_KEY_RSA_PARENT_HANDLE) ?m"
      by (intro slot.branch_evolves slot.ok_evolves create_rsa_slot L)
    from evolves_wp [OF this, of w1] show ?thesis
      unfolding wp_andThen [of ?m]
    proof (rule wp_mono, intro conjI allI impI, goal_cases)
      case (1 r w2 u)
      then show ?case by (intro hmac) (use s in simp)
    qed (use s handles_differ in \<open>auto simp: provisions_def slot_only_def\<close>)
  qed
  show ?thesis
    unfolding provision_tpm_objects_def
    by (rule keep, rule new_context_keeps [OF L], rule refl, rule keep, rule present_keeps [OF L], assumption, rule rsa)
qed

section \<open>The sealed file\<close>

text \<open>What a file that seals a key under a phrase looks like.\<close>

definition sealed_with :: "('w, 'z) platform_scheme \<Rightarrow> string \<Rightarrow> byte list \<Rightarrow> byte list \<Rightarrow> bool" where
  "sealed_with E phrase key b \<longleftrightarrow>
     (\<exists>salt nonce aes c t json.
        length nonce = 12 \<and> argon2_params_check E (32 * 1024) 3 1 32 = None \<and>
        argon2id_v13 E (32 * 1024) 3 1 (as_bytes phrase) salt 32 = Ok aes \<and>
        aes_key_check E aes = None \<and> aes_encrypt E aes nonce key = Ok c \<and>
        sealed_to_json E \<lparr>version = SEALED_FILE_VERSION, created_unix_ms = t,
           salt_b64 = b64_encode E salt, nonce_b64 = b64_encode E nonce,
           ciphertext_b64 = b64_encode E c\<rparr> = Ok json \<and>
        b = json @ [10])"

lemma unseal_wp:
  assumes L: "vault_laws E V" and b: "disk V w path = Some b" "sealed_with E phrase key b"
  shows "wp (unseal_key_bytes_from_path E phrase path)
    (\<lambda>r w'. stores V w' = stores V w \<and> (\<forall>k. r = Ok k \<longrightarrow> k = key) \<and>
       ((\<exists>d. fst (read_file E path w) = Ok d) \<longrightarrow> r = Ok key)) w"
proof -
  obtain r w1 where 1: "read_file E path w = (r, w1)" by fastforce
  have "wp (read_file E path) (\<lambda>r w'. stores V w' = stores V w \<and> (\<forall>b. r = Ok b \<longrightarrow> disk V w path = Some b)) w"
    using L by (simp add: vault_laws_def file_laws_def)
  from wpD [OF this 1] have r: "stores V w1 = stores V w" "\<And>d. r = Ok d \<Longrightarrow> d = b" using b(1) by auto
  have C: "codec_laws E" using L by (simp add: vault_laws_def)
  from b(2) obtain salt nonce aes c t json where
    s: "length nonce = 12" "argon2_params_check E (32 * 1024) 3 1 32 = None"
        "argon2id_v13 E (32 * 1024) 3 1 (as_bytes phrase) salt 32 = Ok aes"
        "aes_key_check E aes = None" "aes_encrypt E aes nonce key = Ok c"
        "sealed_to_json E \<lparr>version = SEALED_FILE_VERSION, created_unix_ms = t,
           salt_b64 = b64_encode E salt, nonce_b64 = b64_encode E nonce,
           ciphertext_b64 = b64_encode E c\<rparr> = Ok json" "b = json @ [10]"
    unfolding sealed_with_def by blast
  have d: "sealed_of_json E b = Ok \<lparr>version = SEALED_FILE_VERSION, created_unix_ms = t,
           salt_b64 = b64_encode E salt, nonce_b64 = b64_encode E nonce,
           ciphertext_b64 = b64_encode E c\<rparr>"
    "aes_decrypt E aes nonce c = Ok key" "\<And>x. b64_decode E (b64_encode E x) = Ok x"
    using C s unfolding codec_laws_def by blast+
  show ?thesis
  proof (cases r)
    case (Ok x)
    then have "x = b" using r(2) by simp
    then show ?thesis
      using Ok 1 r(1) s d unfolding unseal_key_bytes_from_path_def derive_aes_key_from_phrase_def
      by (simp add: wp_simps wp_def [of "read_file E path"] checked_io_def)
  next
    case (Err e)
    then show ?thesis using 1 r(1) unfolding unseal_key_bytes_from_path_def
      by (simp add: wp_simps wp_def [of "read_file E path"])
  next
    case (Panic p)
    then show ?thesis using 1 r(1) unfolding unseal_key_bytes_from_path_def
      by (simp add: wp_simps wp_def [of "read_file E path"])
  qed
qed

lemma unseal_keeps:
  assumes L: "vault_laws E V"
  shows "evolves (stores V) (=) (unseal_key_bytes_from_path E phrase path)"
  unfolding unseal_key_bytes_from_path_def derive_aes_key_from_phrase_def by (intro quiet_intros L)

lemma unseal_present:
  assumes L: "vault_laws E V" and run: "unseal_key_bytes_from_path E phrase path w = (Ok k, w')"
  shows "\<exists>b. disk V w path = Some b"
proof -
  obtain r w1 where 1: "read_file E path w = (r, w1)" by fastforce
  have "wp (read_file E path) (\<lambda>r w'. stores V w' = stores V w \<and> (\<forall>b. r = Ok b \<longrightarrow> disk V w path = Some b)) w"
    using L by (simp add: vault_laws_def file_laws_def)
  from wpD [OF this 1] 1 run show ?thesis
    unfolding unseal_key_bytes_from_path_def by (cases r) (auto simp: andThen_def mapErr_def matchRes_def err_def)
qed

text \<open>Sealing writes its own file only, and only when there was none.\<close>

definition seals :: "('w, 'z) platform_scheme \<Rightarrow> string \<Rightarrow> byte list \<Rightarrow> string \<Rightarrow> stores \<Rightarrow> (unit, 'e) res \<Rightarrow> stores \<Rightarrow> bool"
where
  "seals E phrase key path s r s' \<longleftrightarrow>
     snd (snd s') = snd (snd s) \<and> (\<forall>f. f \<noteq> path \<longrightarrow> fst s' f = fst s f) \<and>
     (fst s path \<noteq> None \<longrightarrow> fst s' path = fst s path) \<and>
     (r = Ok () \<longrightarrow> fst s path = None \<and> (\<exists>b. fst s' path = Some b \<and> sealed_with E phrase key b))"

lemma ensure_dir_keeps: "vault_laws E V \<Longrightarrow> evolves (stores V) (=) (ensure_dir_for_path E f b)"
  unfolding ensure_dir_for_path_def by (intro quiet_intros)

lemma write_file_wp:
  assumes L: "vault_laws E V" and j: "sealed_with E phrase key (json @ [10])"
  shows "wp (andThen (liftIo (open_create_new E path 0x180)) (\<lambda>file.
     andThen (liftIo (write_all E file json)) (\<lambda>_.
     andThen (liftIo (write_all E file [10])) (\<lambda>_.
     andThen (ignore (set_permissions E path 0x180)) (\<lambda>_.
     andThen (ignore (chown E path 0 0)) (\<lambda>_.
     ok ())))))) (\<lambda>r w'. seals E phrase key path (stores V w) r (stores V w')) w"
proof -
  let ?G = "seals E phrase key path (stores V w)"
  have writes: "wp (liftIo (write_all E n c)) (\<lambda>r w2. pers V w2 = pers V w1 \<and> descr V w2 = descr V w1 \<and>
      (\<exists>d. prefix d c \<and> (r = Ok () \<longrightarrow> d = c) \<and>
         disk V w2 = (disk V w1)(descr V w1 n \<mapsto> the (disk V w1 (descr V w1 n)) @ d))) w1" for n c w1
  proof -
    have "wp (write_all E n c) (\<lambda>r w2. pers V w2 = pers V w1 \<and> descr V w2 = descr V w1 \<and>
      (\<exists>d. prefix d c \<and> (r = Ok () \<longrightarrow> d = c) \<and>
         disk V w2 = (disk V w1)(descr V w1 n \<mapsto> the (disk V w1 (descr V w1 n)) @ d))) w1"
      using L by (simp add: vault_laws_def file_laws_def)
    then show ?thesis unfolding wp_mapErr by (rule wp_mono) auto
  qed
  have rest: "wp (andThen (ignore (set_permissions E path 0x180)) (\<lambda>_. andThen (ignore (chown E path 0 0)) (\<lambda>_. ok ())) :: ('a, unit, pin_error) eff)
      (\<lambda>r w'. ?G r (stores V w')) w1"
    if "?G (Ok () :: (unit, pin_error) res) (stores V w1)" for w1
  proof -
    have "evolves (stores V) (=) (andThen (ignore (set_permissions E path 0x180)) (\<lambda>_. andThen (ignore (chown E path 0 0)) (\<lambda>_. ok ())) :: ('a, unit, pin_error) eff)"
      by (intro quiet_intros L)
    from evolves_wp [OF this, of w1] show ?thesis
      by (rule wp_mono) (use that in \<open>auto simp: seals_def\<close>)
  qed
  have body: "wp (andThen (liftIo (write_all E n json)) (\<lambda>_. andThen (liftIo (write_all E n [10])) (\<lambda>_.
     andThen (ignore (set_permissions E path 0x180)) (\<lambda>_. andThen (ignore (chown E path 0 0)) (\<lambda>_. ok ())))))
      (\<lambda>r w'. ?G r (stores V w')) w1"
    if o: "pers V w1 = pers V w" "disk V w path = None" "disk V w1 = (disk V w)(path \<mapsto> [])" "descr V w1 n = path" for n w1
    unfolding wp_andThen [of "liftIo (write_all E n json)"]
  proof (rule wp_mono [OF writes], elim conjE exE, intro conjI allI impI, goal_cases)
    case (1 r w2 d u)
    show ?case
      unfolding wp_andThen [of "liftIo (write_all E n [10])"]
    proof (rule wp_mono [OF writes], elim conjE exE, intro conjI allI impI, goal_cases)
      case (1 r' w3 d' u')
      then show ?case
        using \<open>r = Ok u\<close> \<open>r = Ok () \<longrightarrow> d = json\<close> \<open>disk V w2 = _\<close> \<open>descr V w2 = _\<close> \<open>pers V w2 = _\<close> o j
        by (intro rest) (auto simp: seals_def)
    qed (use 1 o in \<open>auto simp: seals_def\<close>)
  qed (use o in \<open>auto simp: seals_def\<close>)
  have "wp (open_create_new E path 0x180)
        (\<lambda>r w'. pers V w' = pers V w \<and>
           (case r of
              Ok n \<Rightarrow> disk V w path = None \<and> disk V w' = (disk V w)(path \<mapsto> []) \<and> descr V w' n = path
            | _ \<Rightarrow> disk V w' = disk V w)) w"
    using L by (simp add: vault_laws_def file_laws_def)
  then show ?thesis
    unfolding wp_andThen [of "liftIo (open_create_new E path 0x180)"] wp_mapErr
  proof (rule wp_mono, intro conjI allI impI, goal_cases)
    case (1 r w1 n m)
    then show ?case by (intro body) simp_all
  qed (auto simp: seals_def)
qed

lemma derive_keeps: "vault_laws E V \<Longrightarrow> evolves (stores V) (=) (derive_aes_key_from_phrase E phrase salt)"
  unfolding derive_aes_key_from_phrase_def by (intro quiet_intros)

lemma derive_Ok:
  "derive_aes_key_from_phrase E phrase salt w = (Ok aes, w') \<Longrightarrow>
     argon2_params_check E (32 * 1024) 3 1 32 = None \<and>
     argon2id_v13 E (32 * 1024) 3 1 (as_bytes phrase) salt 32 = Ok aes"
  unfolding derive_aes_key_from_phrase_def
  by (elim run_elims) (auto simp: checked_io_def run_simps split: option.splits)

lemma seal_wp:
  assumes L: "vault_laws E V"
  shows "wp (seal_key_bytes_to_path E key phrase path) (\<lambda>r w'. seals E phrase key path (stores V w) r (stores V w')) w"
proof -
  let ?s = "stores V w" and ?G = "seals E phrase key path (stores V w)"
  have stop: "?G (Err e) ?s" "?G (Panic t) ?s" for e t by (simp_all add: seals_def)
  have at: "wp (andThen m k) (\<lambda>r w'. ?G r (stores V w')) w1"
    if "evolves (stores V) (=) m" "stores V w1 = ?s"
      "\<And>x w2. m w1 = (Ok x, w2) \<Longrightarrow> stores V w2 = ?s \<Longrightarrow> wp (k x) (\<lambda>r w'. ?G r (stores V w')) w2" for m k w1
  proof -
    obtain r w2 where 1: "m w1 = (r, w2)" by fastforce
    then have "stores V w2 = ?s" using evolvesD [OF that(1) 1] that(2) by simp
    then show ?thesis using 1 stop that(3) by (cases r) (simp_all add: andThen_def wp_def)
  qed
  have rng: "length b = n" if "os_rng E n w1 = (Ok b, w2)" for n b w1 w2
    using L that unfolding vault_laws_def codec_laws_def by blast
  show ?thesis
    unfolding seal_key_bytes_to_path_def Let_def
  proof (rule at, rule ensure_dir_keeps [OF L], rule refl,
      (rule at, (intro quiet_intros derive_keeps L)[1], assumption)+, goal_cases)
    case (1 dir w1 salt w2 nonce w3 aes w4 u w5 c w6 t w7 json w8)
    have "argon2_params_check E (32 * 1024) 3 1 32 = None"
      "argon2id_v13 E (32 * 1024) 3 1 (as_bytes phrase) salt 32 = Ok aes"
      using derive_Ok [OF 1(7)] by simp_all
    moreover have "aes_key_check E aes = None" "aes_encrypt E aes nonce key = Ok c"
      using 1(9,11) by (auto simp: checked_io_def mapErr_def matchRes_def pure_def ok_def err_def
          split: option.splits res.splits)
    moreover have "sealed_to_json E \<lparr>version = SEALED_FILE_VERSION, created_unix_ms = t, salt_b64 = b64_encode E salt,
        nonce_b64 = b64_encode E nonce, ciphertext_b64 = b64_encode E c\<rparr> = Ok json"
      using 1(15) by (auto simp: mapErr_def matchRes_def pure_def ok_def err_def split: res.splits)
    ultimately have "sealed_with E phrase key (json @ [10])"
      unfolding sealed_with_def using rng [OF 1(5)] by blast
    from write_file_wp [OF L this, of path w8] show ?case using 1 by simp
  qed
qed

section \<open>The operations\<close>

text \<open>Calls that touch no file.\<close>

definition same_files :: "stores \<Rightarrow> stores \<Rightarrow> bool" where
  "same_files s s' \<longleftrightarrow> fst s' = fst s \<and> fst (snd s') = fst (snd s)"

interpretation files: world_preorder same_files
  by unfold_locales (simp_all add: same_files_def)

lemma status_keeps_stores:
  assumes L: "vault_laws E V"
  shows "evolves (stores V) (=) (mk_status E p)"
  unfolding mk_status_def tpm_status_def
  by (intro quiet_intros new_context_keeps present_keeps L)

lemma clear_keeps_files:
  assumes L: "vault_laws E V"
  shows "evolves (stores V) same_files (clear_from_tpm E ps p)"
proof -
  have q: "evolves (stores V) same_files (new_context E p)" "evolves (stores V) same_files (persistent_present E h)"
    "evolves (stores V) same_files (tr_close E x)"
    "evolves (stores V) same_files (liftTss E (checked c y))"
    "evolves (stores V) same_files (liftTss E (without_session E (tr_from_persistent E h)))" for h x y and c :: "tss_error option"
    by (rule files.equal_evolves, intro quiet_intros session_keeps new_context_keeps present_keeps L)+
  have e: "evolves (stores V) same_files (with_password E (evict_control E x h))" for x h
    by (rule evolves_mono [OF evict_slot [OF L]]) (simp add: slot_only_def same_files_def)
  show ?thesis
    unfolding clear_from_tpm_def evict_persistent_if_present_def ensure_root_real_uid_def
    by (intro files.evolves_intros files.branch_evolves q e)
qed

text \<open>Provisioned: the file seals the key that is in the TPM.\<close>

definition provisioned :: "('w, 'z) platform_scheme \<Rightarrow> string \<Rightarrow> stores \<Rightarrow> bool" where
  "provisioned E phrase s \<longleftrightarrow>
     (\<exists>b key. fst s MASTER_KEY_SEALED_FILE = Some b \<and> sealed_with E phrase key b \<and> length key = HMAC_KEY_LEN \<and>
        snd (snd s) MASTER_KEY_HMAC_HANDLE = Some key)"

text \<open>What exists is kept.\<close>

definition preserves :: "stores \<Rightarrow> stores \<Rightarrow> bool" where
  "preserves s s' \<longleftrightarrow>
     (fst s MASTER_KEY_SEALED_FILE \<noteq> None \<longrightarrow> fst s' MASTER_KEY_SEALED_FILE = fst s MASTER_KEY_SEALED_FILE) \<and>
     (snd (snd s) MASTER_KEY_HMAC_HANDLE \<noteq> None \<longrightarrow>
        snd (snd s') MASTER_KEY_HMAC_HANDLE = snd (snd s) MASTER_KEY_HMAC_HANDLE)"

lemma preserves_refl: "preserves s s"
  by (simp add: preserves_def)

lemma init_tail:
  assumes L: "vault_laws E V" and len: "length key = HMAC_KEY_LEN" and absent: "fst s MASTER_KEY_SEALED_FILE = None"
    and key: "provisions key s (Ok () :: (unit, pin_error) res) (stores V w)"
  shows "wp (andThen (ignore (ensure_dir_for_path E MASTER_KEY_SEALED_FILE True)) (\<lambda>_.
       andThen
         (matchRes (seal_key_bytes_to_path E key phrase MASTER_KEY_SEALED_FILE)
            (\<lambda>_. ok ())
            (\<lambda>e. andThen (ignore (clear_from_tpm E ps p)) (\<lambda>_. err e)))
         (\<lambda>_.
       andThen (mk_status E p) (\<lambda>st.
       ok \<lparr>recovery_phrase = phrase, init_status = st\<rparr>))))
     (\<lambda>r w'. preserves s (stores V w') \<and>
        (\<forall>x. r = Ok x \<longrightarrow> provisioned E (recovery_phrase x) (stores V w'))) w"
proof -
  have free: "snd (snd s) MASTER_KEY_HMAC_HANDLE = None" using key by (simp add: provisions_def)
  have p: "preserves s s'" for s' using free absent by (simp add: preserves_def)
  obtain r1 :: "(unit, pin_error) res" and w1 where 1: "ignore (ensure_dir_for_path E MASTER_KEY_SEALED_FILE True) w = (r1, w1)" by fastforce
  have "evolves (stores V) (=) (ignore (ensure_dir_for_path E MASTER_KEY_SEALED_FILE True) :: ('a, unit, pin_error) eff)"
    by (intro quiet_intros ensure_dir_keeps L)
  from evolvesD [OF this 1] have s1: "stores V w1 = stores V w" by simp
  obtain r2 w2 where 2: "seal_key_bytes_to_path E key phrase MASTER_KEY_SEALED_FILE w1 = (r2, w2)" by fastforce
  note seal = wpD [OF seal_wp [OF L] 2]
  have "provisioned E phrase (stores V w3)" if "r2 = Ok ()" "stores V w3 = stores V w2" for w3
    using seal that s1 key len by (auto simp: seals_def provisions_def provisioned_def)
  moreover have "stores V w3 = stores V w2" if "mk_status E p w2 = (r3, w3)" for r3 w3
    using evolvesD [OF status_keeps_stores [OF L] that] by simp
  ultimately show ?thesis
    using 1 2 p by (auto simp: wp_def andThen_def matchRes_def ok_def err_def split: res.split prod.split)
qed

lemma init_wp:
  assumes L: "vault_laws E V"
  shows "wp (mk_init E ps p)
    (\<lambda>r w'. preserves (stores V w) (stores V w') \<and>
       (\<forall>x. r = Ok x \<longrightarrow> provisioned E (recovery_phrase x) (stores V w'))) w"
proof (cases "real_uid ps = 0 \<and> disk V w MASTER_KEY_SEALED_FILE = None")
  case False
  have "path_exists E MASTER_KEY_SEALED_FILE w = (disk V w MASTER_KEY_SEALED_FILE \<noteq> None)"
    using L by (simp add: vault_laws_def file_laws_def)
  then show ?thesis
    using False by (auto simp: mk_init_def ensure_root_real_uid_def wp_simps peek_def wp_def [of "peek _"] preserves_refl)
next
  case True
  let ?s = "stores V w"
  have e: "path_exists E MASTER_KEY_SEALED_FILE w = False"
    using True L by (simp add: vault_laws_def file_laws_def)
  have "mk_init E ps p w = andThen (os_rng E HMAC_KEY_LEN) (\<lambda>hmac_key.
       andThen (generate_recovery_phrase E) (\<lambda>phrase.
       andThen (provision_tpm_objects E p hmac_key) (\<lambda>_.
       andThen (ignore (ensure_dir_for_path E MASTER_KEY_SEALED_FILE True)) (\<lambda>_.
       andThen
         (matchRes (seal_key_bytes_to_path E hmac_key phrase MASTER_KEY_SEALED_FILE)
            (\<lambda>_. ok ())
            (\<lambda>e. andThen (ignore (clear_from_tpm E ps p)) (\<lambda>_. err e)))
         (\<lambda>_.
       andThen (mk_status E p) (\<lambda>st.
       ok \<lparr>recovery_phrase = phrase, init_status = st\<rparr>)))))) w" (is "_ = ?rest w")
    using True e by (simp add: mk_init_def ensure_root_real_uid_def andThen_def ok_def peek_def)
  moreover have "wp ?rest (\<lambda>r w'. preserves ?s (stores V w') \<and>
       (\<forall>x. r = Ok x \<longrightarrow> provisioned E (recovery_phrase x) (stores V w'))) w"
  proof -
    obtain r1 w1 where 1: "os_rng E HMAC_KEY_LEN w = (r1, w1)" by fastforce
    have s1: "stores V w1 = ?s" using evolvesD [OF quiet_rules(5) [OF L] 1] by simp
    have len: "length key = HMAC_KEY_LEN" if "r1 = Ok key" for key
      using L 1 that unfolding vault_laws_def codec_laws_def by blast
    obtain r2 w2 where 2: "generate_recovery_phrase E w1 = (r2, w2)" by fastforce
    have "evolves (stores V) (=) (generate_recovery_phrase E)"
      unfolding generate_recovery_phrase_def by (intro quiet_intros L)
    from evolvesD [OF this 2] have s2: "stores V w2 = ?s" using s1 by simp
    have step: "wp (andThen (provision_tpm_objects E p key) k) (\<lambda>r w'. preserves ?s (stores V w') \<and>
       (\<forall>x. r = Ok x \<longrightarrow> provisioned E (recovery_phrase x) (stores V w'))) w2"
      if "\<And>u w3. provisions key ?s (Ok () :: (unit, pin_error) res) (stores V w3) \<Longrightarrow>
         wp (k u) (\<lambda>r w'. preserves ?s (stores V w') \<and>
           (\<forall>x. r = Ok x \<longrightarrow> provisioned E (recovery_phrase x) (stores V w'))) w3" for key k
      unfolding wp_andThen [of "provision_tpm_objects E p key"]
      by (rule wp_mono [OF provision_wp [OF L]], intro conjI allI impI)
        (use that s2 in \<open>auto simp: provisions_def preserves_def\<close>)
    have tail: "wp (andThen (provision_tpm_objects E p key) (\<lambda>_.
       andThen (ignore (ensure_dir_for_path E MASTER_KEY_SEALED_FILE True)) (\<lambda>_.
       andThen
         (matchRes (seal_key_bytes_to_path E key phrase MASTER_KEY_SEALED_FILE)
            (\<lambda>_. ok ())
            (\<lambda>e. andThen (ignore (clear_from_tpm E ps p)) (\<lambda>_. err e)))
         (\<lambda>_.
       andThen (mk_status E p) (\<lambda>st.
       ok \<lparr>recovery_phrase = phrase, init_status = st\<rparr>)))))
       (\<lambda>r w'. preserves ?s (stores V w') \<and>
         (\<forall>x. r = Ok x \<longrightarrow> provisioned E (recovery_phrase x) (stores V w'))) w2"
      if "r1 = Ok key" for key phrase
      by (rule step, rule init_tail [OF L len [OF that]]) (use True in simp_all)
    show ?thesis
    proof (cases r1)
      case (Ok key)
      then show ?thesis
        unfolding wp_andThen [of "os_rng E HMAC_KEY_LEN"] wp_andThen [of "generate_recovery_phrase E"]
        using tail s2 by (auto simp: wp_def [of "os_rng E HMAC_KEY_LEN"] 1 wp_def [of "generate_recovery_phrase E"] 2
            preserves_def)
    qed (use 1 s1 in \<open>auto simp: wp_def andThen_def preserves_def\<close>)
  qed
  ultimately show ?thesis by (simp add: wp_def)
qed

lemma import_wp:
  assumes L: "vault_laws E V"
  shows "wp (import_to_tpm E ps p phrase)
    (\<lambda>r w'. preserves (stores V w) (stores V w') \<and>
       (\<forall>x. r = Ok x \<longrightarrow>
          (\<exists>b. disk V w MASTER_KEY_SEALED_FILE = Some b \<and>
             (\<forall>key. sealed_with E phrase key b \<longrightarrow> pers V w' MASTER_KEY_HMAC_HANDLE = Some key)))) w"
proof -
  let ?s = "stores V w"
  have prov: "wp (andThen (provision_tpm_objects E p kb) (\<lambda>_. mk_status E p))
      (\<lambda>r w'. preserves ?s (stores V w') \<and>
         (\<forall>x. r = Ok x \<longrightarrow> pers V w' MASTER_KEY_HMAC_HANDLE = Some kb)) w1"
    if s: "stores V w1 = ?s" for kb w1
    unfolding wp_andThen
  proof (rule wp_mono [OF provision_wp [OF L]], intro conjI allI impI, goal_cases)
    case (1 r w2 u)
    show ?case
      by (rule wp_mono [OF evolves_wp [OF status_keeps_stores [OF L, of p], of w2]])
        (use 1 s in \<open>auto simp: provisions_def preserves_def\<close>)
  qed (use s in \<open>auto simp: provisions_def preserves_def\<close>)
  have unseal: "wp (andThen (unseal_key_bytes_from_path E phrase MASTER_KEY_SEALED_FILE) (\<lambda>key_bytes.
       if length key_bytes \<noteq> HMAC_KEY_LEN then err (IoError (tr E ''mk_sealed_data_unexpected_length'' []))
       else andThen (provision_tpm_objects E p key_bytes) (\<lambda>_. mk_status E p)))
      (\<lambda>r w'. preserves ?s (stores V w') \<and>
       (\<forall>x. r = Ok x \<longrightarrow>
          (\<exists>b. disk V w MASTER_KEY_SEALED_FILE = Some b \<and>
             (\<forall>key. sealed_with E phrase key b \<longrightarrow> pers V w' MASTER_KEY_HMAC_HANDLE = Some key)))) w1"
    if s: "stores V w1 = ?s" for w1
  proof -
    obtain r w2 where 1: "unseal_key_bytes_from_path E phrase MASTER_KEY_SEALED_FILE w1 = (r, w2)" by fastforce
    have s2: "stores V w2 = ?s" using evolvesD [OF unseal_keeps [OF L] 1] s by simp
    have k: "\<exists>b. disk V w MASTER_KEY_SEALED_FILE = Some b \<and> (\<forall>key. sealed_with E phrase key b \<longrightarrow> kb = key)"
      if kb: "r = Ok kb" for kb
    proof -
      obtain b where b: "disk V w1 MASTER_KEY_SEALED_FILE = Some b" using unseal_present [OF L] 1 kb by blast
      have "kb = key" if "sealed_with E phrase key b" for key
        using wpD [OF unseal_wp [OF L b that] 1] kb by simp
      then show ?thesis using b s by auto
    qed
    show ?thesis
    proof (cases r)
      case (Ok kb)
      then show ?thesis using k [OF Ok] s2 1 unfolding wp_andThen [of "unseal_key_bytes_from_path E _ _"]
        by (auto simp: wp_def [of "unseal_key_bytes_from_path E _ _"] wp_err preserves_refl intro!: wp_mono [OF prov])
    qed (use s2 1 in \<open>auto simp: wp_def andThen_def preserves_refl\<close>)
  qed
  have status: "wp (andThen (mk_status E p) k) (\<lambda>r w'. G r (stores V w')) w"
    if "\<And>e. G (Err e) ?s" "\<And>t. G (Panic t) ?s" "\<And>c w1. stores V w1 = ?s \<Longrightarrow> wp (k c) (\<lambda>r w'. G r (stores V w')) w1" for k G
    by (rule keep_then [OF status_keeps_stores [OF L] refl that])
  let ?G = "\<lambda>r s'. preserves ?s s' \<and> (\<forall>x :: master_key_status. r = Ok x \<longrightarrow>
          (\<exists>b. disk V w MASTER_KEY_SEALED_FILE = Some b \<and>
             (\<forall>key. sealed_with E phrase key b \<longrightarrow> snd (snd s') MASTER_KEY_HMAC_HANDLE = Some key)))"
  have "wp (import_to_tpm E ps p phrase) (\<lambda>r w'. ?G r (stores V w')) w"
  proof (cases "real_uid ps = 0")
    case True
    then have "import_to_tpm E ps p phrase = andThen (mk_status E p) (\<lambda>current.
        if rsa_parent_present current then
          err (TpmError (tr E ''mk_rsa_parent_already_present_refuse_import'' []))
        else if hmac_key_present current then
          err (TpmError (tr E ''mk_hmac_handle_already_present_refuse_import'' []))
        else if \<not> sealed_file_present current then
          err (IoError (tr E ''mk_sealed_file_not_present'' []))
        else
          andThen (unseal_key_bytes_from_path E phrase MASTER_KEY_SEALED_FILE) (\<lambda>key_bytes.
          if length key_bytes \<noteq> HMAC_KEY_LEN then
            err (IoError (tr E ''mk_sealed_data_unexpected_length'' []))
          else andThen (provision_tpm_objects E p key_bytes) (\<lambda>_. mk_status E p)))"
      by (simp add: import_to_tpm_def ensure_root_real_uid_def ok_andThen)
    moreover have "wp \<dots> (\<lambda>r w'. ?G r (stores V w')) w"
    proof (rule status, goal_cases)
      case (3 c w1)
      then show ?case using unseal [OF 3] by (simp add: wp_err preserves_refl)
    qed (simp_all add: preserves_refl)
    ultimately show ?thesis by simp
  qed (simp add: import_to_tpm_def ensure_root_real_uid_def wp_simps preserves_refl)
  then show ?thesis by simp
qed

lemma token_wp:
  assumes L: "vault_laws E V"
  shows "wp (derive_user_token E p name)
    (\<lambda>r w'. \<forall>t. r = Ok t \<longrightarrow>
       (\<exists>k. pers V w MASTER_KEY_HMAC_HANDLE = Some k \<and> t = hex_encode E (mac V k (as_bytes name)))) w"
proof -
  let ?s = "stores V w"
  let ?G = "\<lambda>r (s :: stores). \<forall>t. r = Ok t \<longrightarrow>
       (\<exists>k. pers V w MASTER_KEY_HMAC_HANDLE = Some k \<and> t = hex_encode E (mac V k (as_bytes name)))"
  have mac: "wp (with_nullauth E (hmac E x b a))
      (\<lambda>r w'. \<forall>d. r = Ok d \<longrightarrow> (\<exists>k. loaded V w1 x = Some k \<and> d = mac V k b)) w1" for x b a w1
  proof -
    have n: "evolves (whole V) (=) (nullauth_begin E)"
      using L by (simp add: vault_laws_def quiet_calls_def)
    have h: "wp (hmac E x b a) (\<lambda>r w'. \<forall>d. r = Ok d \<longrightarrow> (\<exists>k. loaded V w2 x = Some k \<and> d = mac V k b)) w2" for w2
    proof -
      have "wp (hmac E x b a) (\<lambda>r w'. stores V w' = stores V w2 \<and>
           (\<forall>d. r = Ok d \<longrightarrow> (\<exists>k. loaded V w2 x = Some k \<and> d = mac V k b))) w2"
        using L by (simp add: vault_laws_def object_laws_def)
      then show ?thesis by (rule wp_mono) blast
    qed
    obtain r2 w2 where 2: "nullauth_begin E w1 = (r2, w2)" by fastforce
    obtain r3 w3 where 3: "hmac E x b a w2 = (r3, w3)" by fastforce
    obtain r4 w4 where 4: "nullauth_end E w3 = (r4, w4)" by fastforce
    have "loaded V w2 = loaded V w1" using evolvesD [OF n 2] by simp
    with wpD [OF h 3] show ?thesis
      using 2 3 4 by (auto simp: wp_def with_nullauth_def andThen_def matchRes_def ok_def err_def
          split: res.splits)
  qed
  have handle: "wp (without_session E (tr_from_persistent E h))
      (\<lambda>r w'. \<forall>x. r = Ok x \<longrightarrow> snd (whole V w') x = pers V w1 h \<and> pers V w1 h \<noteq> None) w1" for h w1
  proof (rule session_wp(1) [OF L, where R = "\<lambda>r s. \<forall>x. r = Ok x \<longrightarrow> snd s x = pers V w1 h \<and> pers V w1 h \<noteq> None"])
    fix w2 assume w2: "whole V w2 = whole V w1"
    have "wp (tr_from_persistent E h) (\<lambda>r w'. stores V w' = stores V w2 \<and>
           (\<forall>x. r = Ok x \<longrightarrow> loaded V w' x = pers V w2 h \<and> pers V w2 h \<noteq> None) \<and>
           (\<forall>rc. r = Err (Tss2Error rc) \<longrightarrow> rc_kind E rc = Some RcHandle \<longrightarrow> pers V w2 h = None)) w2"
      using L by (simp add: vault_laws_def object_laws_def)
    then show "wp (tr_from_persistent E h)
        (\<lambda>r w'. \<forall>x. r = Ok x \<longrightarrow> snd (whole V w') x = pers V w1 h \<and> pers V w1 h \<noteq> None) w2"
      by (rule wp_mono) (use w2 in auto)
  qed
  have "wp (derive_user_token E p name) (\<lambda>r w'. ?G r (stores V w')) w"
    unfolding derive_user_token_def
  proof (rule keep_then [where G = ?G and s = ?s, OF new_context_keeps [OF L] refl])
    fix u w1 assume s: "stores V w1 = ?s"
    obtain r2 w2 where 2: "without_session E (tr_from_persistent E MASTER_KEY_HMAC_HANDLE) w1 = (r2, w2)" by fastforce
    have obj: "loaded V w2 x = pers V w MASTER_KEY_HMAC_HANDLE \<and> pers V w MASTER_KEY_HMAC_HANDLE \<noteq> None"
      if "r2 = Ok x" for x
      using wpD [OF handle 2] that s by auto
    have fin: "wp (andThen (liftTss E (checked (max_buffer_check E (as_bytes name)) (as_bytes name))) (\<lambda>buffer.
       andThen (liftTss E (with_nullauth E (hmac E x buffer Sha256))) (\<lambda>digest. ok (hex_encode E digest))))
        (\<lambda>r w'. ?G r (stores V w')) w2" if "r2 = Ok x" for x
      using wp_mono [OF mac [of x "as_bytes name" Sha256 w2]] obj [OF that]
      by (auto simp: wp_simps split: option.split intro!: wp_mono [OF mac])
    show "wp (andThen (liftTss E (checked (persistent_check E MASTER_KEY_HMAC_HANDLE) MASTER_KEY_HMAC_HANDLE)) (\<lambda>h.
     andThen (liftTss E (without_session E (tr_from_persistent E h))) (\<lambda>object.
     andThen (liftTss E (checked (max_buffer_check E (as_bytes name)) (as_bytes name))) (\<lambda>buffer.
     andThen (liftTss E (with_nullauth E (hmac E object buffer Sha256))) (\<lambda>digest.
     ok (hex_encode E digest)))))) (\<lambda>r w'. ?G r (stores V w')) w1"
    proof (rule checked_then [where G = ?G and s = "stores V w1", OF _ refl])
      show "wp (andThen (liftTss E (without_session E (tr_from_persistent E MASTER_KEY_HMAC_HANDLE))) (\<lambda>object.
         andThen (liftTss E (checked (max_buffer_check E (as_bytes name)) (as_bytes name))) (\<lambda>buffer.
         andThen (liftTss E (with_nullauth E (hmac E object buffer Sha256))) (\<lambda>digest.
         ok (hex_encode E digest))))) (\<lambda>r w'. ?G r (stores V w')) w1"
        unfolding wp_andThen [of "liftTss E (without_session E _)"] wp_mapErr
        by (auto simp: wp_def [of "without_session E _"] 2 intro: fin)
    qed simp
  qed simp_all
  then show ?thesis by simp
qed

section \<open>Properties\<close>

text \<open>C11: A successful \<open>init\<close> leaves a sealed file and a master key such that, whatever happens to the TPM
  afterwards, as long as the file is as it was, an \<open>import_to_tpm\<close> that succeeds with the recovery
  phrase restores the tokens: every user's token is what it was after \<open>init\<close>.\<close>
theorem recovery_restores_tokens:
  assumes "vault_laws E V" and "mk_init E ps p w = (Ok x, w1)"
    and "derive_user_token E p name w1 = (Ok token, w2)"
    and "disk V w3 MASTER_KEY_SEALED_FILE = disk V w1 MASTER_KEY_SEALED_FILE"
    and "import_to_tpm E ps p (recovery_phrase x) w3 = (Ok st, w4)"
    and "derive_user_token E p name w4 = (Ok token', w5)"
  shows "token' = token"
proof -
  from wpD [OF init_wp [OF assms(1)] assms(2)] obtain b key where
    b: "disk V w1 MASTER_KEY_SEALED_FILE = Some b" "sealed_with E (recovery_phrase x) key b"
      "pers V w1 MASTER_KEY_HMAC_HANDLE = Some key"
    by (auto simp: provisioned_def)
  have "pers V w4 MASTER_KEY_HMAC_HANDLE = Some key"
    using wpD [OF import_wp [OF assms(1)] assms(5)] b assms(4) by auto
  then show ?thesis
    using wpD [OF token_wp [OF assms(1)] assms(3)] wpD [OF token_wp [OF assms(1)] assms(6)] b by auto
qed

text \<open>C16: Neither \<open>init\<close> nor \<open>import_to_tpm\<close>, whatever fails inside them (the rollback of a failed
  \<open>init\<close> included), changes a sealed file or a master key that was there.\<close>
theorem key_material_never_overwritten:
  assumes "vault_laws E V"
    and "w' = snd (mk_init E ps p w) \<or> w' = snd (import_to_tpm E ps p phrase w)"
  shows "(\<forall>b. disk V w MASTER_KEY_SEALED_FILE = Some b \<longrightarrow> disk V w' MASTER_KEY_SEALED_FILE = Some b) \<and>
    (\<forall>k. pers V w MASTER_KEY_HMAC_HANDLE = Some k \<longrightarrow> pers V w' MASTER_KEY_HMAC_HANDLE = Some k)"
proof -
  have "preserves (stores V w) (stores V w')"
    using assms(2) init_wp [OF assms(1), of ps p w] import_wp [OF assms(1), of ps p phrase w]
    by (auto simp: wp_fst_snd)
  then show ?thesis by (simp add: preserves_def)
qed

end
