(* ===== verification/SimOs.thy ===== *)
theory SimOs imports SimTpm PamLive PinutilGuard MasterKeySafety begin

text \<open>
  A small machine around the TPM of \<open>SimTpm\<close> that meets every law of the deployment: standard input
  and output, files, persistent objects, and a PAM stack that runs this development's \<open>pinutil\<close>.  The
  witnesses run on it.
\<close>

section \<open>The world\<close>

record cell = sim +
  c_in :: string
  c_out :: string
  c_args :: "string list"
  c_files :: "string \<Rightarrow> byte list option"
  c_open :: string
  c_loaded :: "esys_tr \<Rightarrow> byte list option"
  c_pers :: "u32 \<Rightarrow> byte list option"

definition cell_of :: "nv_map \<Rightarrow> cell" where
  "cell_of N = \<lparr>sim_nvs = N, sim_auths = Map.empty, sim_policy = None, sim_session = None,
     c_in = [], c_out = [], c_args = [], c_files = Map.empty, c_open = [], c_loaded = Map.empty,
     c_pers = Map.empty\<rparr>"

definition cell_pipes :: "cell pipes" where
  "cell_pipes = \<lparr>inp = c_in, out = c_out\<rparr>"

definition cell_vault :: "cell vault" where
  "cell_vault = \<lparr>disk = c_files, descr = (\<lambda>w n. c_open w), loaded = c_loaded, pers = c_pers,
     blob_key = Some, mac = (\<lambda>k b. k @ b)\<rparr>"

section \<open>The platform\<close>

definition text_of :: "byte list \<Rightarrow> string" where
  "text_of b = map (\<lambda>x. char_of (unat x)) b"

lemma bytes_text: "map of_char (text_of b) = b"
proof -
  have "of_char (char_of (unat x) :: char) = x" for x :: byte
  proof -
    have "of_char (char_of (unat x) :: char) = (of_nat (of_char (char_of (unat x) :: char) :: nat) :: byte)"
      by (rule of_nat_of_char [symmetric])
    also have "\<dots> = of_nat (unat x mod 256)" by (simp only: of_char_of)
    also have "\<dots> = x" using unsigned_less [of x, where ?'a = nat] by simp
    finally show ?thesis .
  qed
  then show ?thesis by (simp add: text_of_def map_idI)
qed

definition sim_tr_persistent :: "u32 \<Rightarrow> (cell, esys_tr, tss_error) eff" where
  "sim_tr_persistent h w =
     (if c_pers w h = None then (sim_err RC_HANDLE, w)
      else (Ok h, w\<lparr>c_loaded := (c_loaded w)(h := c_pers w h)\<rparr>))"

definition sim_load :: "byte list option \<Rightarrow> esys_tr \<Rightarrow> (cell, esys_tr, tss_error) eff" where
  "sim_load k h w = (Ok h, w\<lparr>c_loaded := (c_loaded w)(h := k)\<rparr>)"

definition sim_evict :: "esys_tr \<Rightarrow> u32 \<Rightarrow> (cell, esys_tr, tss_error) eff" where
  "sim_evict x h w =
     (if c_pers w h = None then (Ok h, w\<lparr>c_pers := (c_pers w)(h := c_loaded w x)\<rparr>)
      else (Ok 0xFFF, w\<lparr>c_pers := (c_pers w)(h := None)\<rparr>))"

definition sim_hmac :: "esys_tr \<Rightarrow> byte list \<Rightarrow> hash_alg \<Rightarrow> (cell, byte list, tss_error) eff" where
  "sim_hmac x b a w =
     (case c_loaded w x of None \<Rightarrow> (sim_err RC_HANDLE, w) | Some k \<Rightarrow> (Ok (k @ b), w))"

definition sim_create_new :: "string \<Rightarrow> u32 \<Rightarrow> (cell, nat, string) eff" where
  "sim_create_new f m w =
     (if c_files w f = None then (Ok 3, w\<lparr>c_files := (c_files w)(f \<mapsto> []), c_open := f\<rparr>)
      else (Err ''exists'', w))"

definition sim_write_all :: "nat \<Rightarrow> byte list \<Rightarrow> (cell, unit, string) eff" where
  "sim_write_all n b w =
     (Ok (), w\<lparr>c_files := (c_files w)(c_open w \<mapsto> the (c_files w (c_open w)) @ b)\<rparr>)"

definition sim_read_file :: "string \<Rightarrow> (cell, byte list, string) eff" where
  "sim_read_file f w = (case c_files w f of None \<Rightarrow> (Err ''absent'', w) | Some b \<Rightarrow> (Ok b, w))"

definition sim_remove :: "string \<Rightarrow> (cell, unit, io_error) eff" where
  "sim_remove f w =
     (if c_files w f = None then (Err (IoNotFound ''absent''), w)
      else (Ok (), w\<lparr>c_files := (c_files w)(f := None)\<rparr>))"

definition sim_sealed :: sealed_master_key_file where
  "sim_sealed = \<lparr>version = SEALED_FILE_VERSION, created_unix_ms = 0,
     salt_b64 = text_of (replicate 16 7), nonce_b64 = text_of (replicate 12 7),
     ciphertext_b64 = text_of (replicate 32 7)\<rparr>"

definition sim_platform :: "cell platform" where
  "sim_platform = tss.extend sim_tss (platform.fields
     (\<lambda>rc. ''rc'') 0xFF 0xFFF (\<lambda>h. None) (\<lambda>p. None) (\<lambda>a. None) (\<lambda>d. None) (\<lambda>s. None) (\<lambda>b. None)
     sim_tr_persistent (\<lambda>p. sim_load (Some []) 0x80000000) sim_evict (\<lambda>h. ok ())
     (\<lambda>h p d. ok (d, p)) (\<lambda>h b p. sim_load (Some b) 0x80000001) sim_hmac
     text_of (\<lambda>n. ok (replicate n 7)) (ok ''abandon art'')
     (\<lambda>a b c d. None) (\<lambda>m t p pw salt n. Ok (replicate n 1)) (\<lambda>k. None)
     (\<lambda>k n m. Ok m) (\<lambda>k n c. Ok c) text_of (\<lambda>s. Ok (map of_char s))
     (\<lambda>s. if s = sim_sealed then Ok [1] else Err ''json'')
     (\<lambda>b. if b = [1, 10] then Ok sim_sealed else Err ''json'')
     (\<lambda>w. Some 0) (\<lambda>f w. c_files w f \<noteq> None) sim_remove (\<lambda>f. ok ()) (\<lambda>f m. ok ()) (\<lambda>f u g. ok ())
     sim_create_new sim_write_all sim_read_file)"

section \<open>The process\<close>

definition sim_read_line :: "(cell, string, string) eff" where
  "sim_read_line w = (Ok (take_line (c_in w)), w\<lparr>c_in := drop (length (take_line (c_in w))) (c_in w)\<rparr>)"

definition sim_write_out :: "string \<Rightarrow> (cell, unit, string) eff" where
  "sim_write_out s w = (Ok (), w\<lparr>c_out := c_out w @ s\<rparr>)"

definition sim_commands :: "(string \<times> (string option \<Rightarrow> commands)) list" where
  "sim_commands = [(''setup'', Setup), (''change'', Change), (''delete'', Delete), (''test'', Test), (''status'', Status)]"

definition sim_parse :: "string list \<Rightarrow> (cli, nat) res" where
  "sim_parse args =
     (if args = [''change''] then Ok \<lparr>command = Change None, verbose = False, machine_flag = False\<rparr>
      else if length args = 3 \<and> hd args = ''-m'' then
        (case map_of sim_commands (args ! 1) of
           Some c \<Rightarrow> Ok \<lparr>command = c (Some (args ! 2)), verbose = False, machine_flag = True\<rparr>
         | None \<Rightarrow> Err 2)
      else Err 2)"

text \<open>A user's attempts, counted in letters.\<close>

fun sim_info_text :: "attempt_info option \<Rightarrow> string" where
  "sim_info_text None = ''none''"
| "sim_info_text (Some i) =
     ''info '' @ replicate (unat (ai_used i)) CHR ''U'' @ replicate (unat (ai_limit i)) CHR ''L''"

fun sim_to_json :: "pin_error + report \<Rightarrow> (string, string) res" where
  "sim_to_json (Inr RUnit) = Ok ''ok''"
| "sim_to_json (Inl (IncorrectPin False)) = Ok ''no''"
| "sim_to_json (Inr (RInfo i)) = Ok (sim_info_text i)"
| "sim_to_json _ = Ok ''error''"

definition sim_users :: user_db where
  "sim_users = \<lparr>user_from_name = (\<lambda>n. if n = ''bob'' then Ok (Some 1000) else Ok None),
     user_from_uid = (\<lambda>u. if u = 1000 then Ok (Some ''bob'') else Ok None)\<rparr>"

definition fs_empty :: file_sys where
  "fs_empty = \<lparr>fs_open = (\<lambda>p. None), fs_metadata = (\<lambda>p. None)\<rparr>"

definition sim_process :: process where
  "sim_process = \<lparr>real_uid = 1000, effective_uid = 1000\<rparr>"

definition sim_os :: "cell os" where
  "sim_os = platform.extend sim_platform (os.fields
     sim_parse (\<lambda>k a. k) sim_to_json (\<lambda>h. ''0'') True 8 sim_users sim_process fs_empty False
     sim_read_line sim_write_out (ok ()) (\<lambda>s. ok ()) (ok ()) (ok \<lparr>local_flags = 0, other_modes = 0\<rparr>)
     (\<lambda>t. ok ()) (\<lambda>k v w. w) (\<lambda>r. None) (\<lambda>r. None) (\<lambda>r. None) (\<lambda>r. None) (\<lambda>r. ok FullyEnforced))"

lemmas sim_os_defs = sim_os_def sim_platform_def tss.defs platform.defs os.defs

section \<open>The PAM stack\<close>

definition sim_start :: "string list \<Rightarrow> cell \<Rightarrow> cell" where
  "sim_start args w = w\<lparr>c_in := [], c_out := [], c_args := args\<rparr>"

definition sim_run :: "(cell, process_output, string) eff" where
  "sim_run w =
     (case pinutil_main sim_os (c_args w) w of
        (r, w') \<Rightarrow> (Ok \<lparr>exit_success = (exit_code r = 0), status_text = [], out_bytes = c_out w', err_bytes = []\<rparr>, w'))"

definition sim_json_unit :: "string \<Rightarrow> string + (pin_error + unit)" where
  "sim_json_unit t =
     (if t = ''ok'' @ [newline] then Inr (Inr ())
      else if t = ''no'' @ [newline] then Inr (Inl (IncorrectPin False))
      else Inl ''json'')"

definition sim_json_info :: "string \<Rightarrow> string + (pin_error + attempt_info option)" where
  "sim_json_info t =
     (if t = ''none'' @ [newline] then Inr (Inr None)
      else if take 5 t = ''info '' then
        Inr (Inr (Some \<lparr>ai_used = of_nat (count_list t CHR ''U''), ai_limit = of_nat (count_list t CHR ''L'')\<rparr>))
      else Inl ''json'')"

definition sim_pam :: "cell pam" where
  "sim_pam = tss.extend sim_tss (pam.fields
     (\<lambda>k a. k) sim_users fs_empty True sim_json_info sim_json_unit
     (\<lambda>w. ((SUCCESS, Some None), w)) (\<lambda>w. ((SUCCESS, Some ''1234''), w)) (\<lambda>w. ((SUCCESS, Some ''bob''), w))
     (\<lambda>p args w. sim_run (sim_start args w)) (\<lambda>p args w. (Ok 1, sim_start args w)) (\<lambda>n. ok True)
     (\<lambda>n s w. (Ok (), w\<lparr>c_in := c_in w @ s\<rparr>)) (\<lambda>n. ok ()) (\<lambda>n w. w) (\<lambda>n. sim_run))"

text \<open>A user who answers every prompt with the same text.\<close>

definition answering :: "string \<Rightarrow> cell pam_io" where
  "answering s = Some (\<lambda>style txt w. ((SUCCESS, Some (Some s)), w))"

end
