(* ===== verification/Witnesses.thy ===== *)
theory Witnesses imports History Metering SimTpm begin

text \<open>
  The properties at concrete inputs: a user with id 1000 on the small TPM of \<open>SimTpm\<close>, before
  setup, with a PIN from before version tags, and locked out.
\<close>

section \<open>States\<close>

abbreviation sim_tpm :: "sim tss" where "sim_tpm \<equiv> sim_tss"

definition uid1 :: u32 where "uid1 = 1000"

definition sim_mgr :: pin_manager where
  "sim_mgr = \<lparr>policy = default_policy, mgr_tcti_spec = DEFAULT_TCTI_SPEC\<rparr>"

definition sim_of :: "nv_map \<Rightarrow> sim" where
  "sim_of N = \<lparr>sim_nvs = N, sim_auths = Map.empty, sim_policy = None, sim_session = None\<rparr>"

definition slot1 :: nv_handle where "slot1 = 0x010003E8"
definition tag1 :: nv_handle where "tag1 = 0x018003E8"

definition slot_with :: "pin \<Rightarrow> pin_data \<Rightarrow> nv_entry" where
  "slot_with pin s =
     \<lparr>e_public = pin_slot_public slot1 (sim_digest write_policy), e_auth = pin_as_bytes pin,
      e_data = Some (to_bytes s)\<rparr>"

definition tag_with :: "u8 \<Rightarrow> nv_entry" where
  "tag_with v = \<lparr>e_public = version_tag_public tag1, e_auth = [], e_data = Some [v]\<rparr>"

definition sim_fresh :: sim where "sim_fresh = sim_of Map.empty"

definition sim_set :: sim where
  "sim_set = sim_of [slot1 \<mapsto> slot_with ''1234'' (pin_data_new 0 3), tag1 \<mapsto> tag_with 2]"

definition sim_legacy :: sim where
  "sim_legacy = sim_of [slot1 \<mapsto> slot_with ''1234'' (pin_data_new 1 3)]"

definition sim_locked :: sim where
  "sim_locked = sim_of [slot1 \<mapsto> slot_with ''1234'' (pin_data_new 3 3), tag1 \<mapsto> tag_with 2]"

lemma mgr_limit [simp]: "max_attempts (policy sim_mgr) = 3" "mgr_tcti_spec sim_mgr = DEFAULT_TCTI_SPEC"
  by (simp_all add: sim_mgr_def default_policy_def)

lemma unat_uid1 [simp]: "unat uid1 = 1000"
  by (simp add: uid1_def)

lemma indices1 [simp]:
  "nv_index_for_uid sim_tpm uid1 = Ok slot1" "version_nv_index_for_uid sim_tpm uid1 = Ok tag1"
  by (simp_all add: nv_index_Ok_iff version_nv_index_Ok_iff uid1_def slot1_def tag1_def
      sim_index_check_def nv_range_def)

lemma ranges1 [simp]: "nv_range slot1" "nv_range tag1" "slot1 \<noteq> tag1" "tag1 \<noteq> slot1"
  by (simp_all add: slot1_def tag1_def nv_range_def)

lemma slot_with_ok [simp]: "slot_entry_ok (slot_with pin s)"
  by (simp add: slot_entry_ok_def slot_with_def pin_slot_public_def)

lemma tag_with_ok [simp]: "tag_entry_ok (tag_with v)"
  by (simp add: tag_entry_ok_def tag_with_def version_tag_public_def PIN_VERSION_TAG_SIZE_def)

lemma slot_with_sel [simp]:
  "e_auth (slot_with pin s) = pin_as_bytes pin" "entry_pin (slot_with pin s) = Some s"
  "e_data (slot_with pin s) = Some (to_bytes s)" "e_data (tag_with v) = Some [v]"
  by (simp_all add: slot_with_def tag_with_def entry_pin_def)

lemma sim_of_sel [simp]: "sim_nvs (sim_of N) = N"
  by (simp add: sim_of_def)

lemma wf_sim_of:
  assumes "\<And>k e. N k = Some e \<Longrightarrow> k = slot1 \<and> slot_entry_ok e \<or> k = tag1 \<and> tag_entry_ok e"
  shows "wf_all sim_tpm (nvs sim_view (sim_of N))"
proof -
  have "nv_index_for_uid sim_tpm u \<noteq> Ok tag1" "version_nv_index_for_uid sim_tpm u \<noteq> Ok slot1" for u
    using layout.slot_tag [of sim_tpm u tag1 uid1 tag1] layout.tag_slot [of sim_tpm u slot1 uid1 slot1]
    by auto
  then show ?thesis
    using assms by (fastforce simp: wf_all_def wf_uid_def split: if_splits)
qed

lemma wf1:
  "wf_all sim_tpm (nvs sim_view sim_fresh)" "wf_all sim_tpm (nvs sim_view sim_set)"
  "wf_all sim_tpm (nvs sim_view sim_legacy)" "wf_all sim_tpm (nvs sim_view sim_locked)"
  unfolding sim_fresh_def sim_set_def sim_legacy_def sim_locked_def
  by (rule wf_sim_of; force split: if_splits)+

lemmas wf1_uid = wf1 [unfolded wf_all_def, THEN spec [of _ uid1]]

lemma ready1:
  "ready sim_tpm sim_view sim_mgr uid1 sim_fresh" "ready sim_tpm sim_view sim_mgr uid1 sim_set"
  "ready sim_tpm sim_view sim_mgr uid1 sim_legacy" "ready sim_tpm sim_view sim_mgr uid1 sim_locked"
  using sim_live wf1_uid by (simp_all add: ready_def DEFAULT_TCTI_SPEC_def)

lemma slots1 [simp]:
  "nvs sim_view sim_fresh slot1 = None"
  "nvs sim_view sim_set slot1 = Some (slot_with ''1234'' (pin_data_new 0 3))"
  "nvs sim_view sim_locked slot1 = Some (slot_with ''1234'' (pin_data_new 3 3))"
  "nvs sim_view sim_legacy slot1 = Some (slot_with ''1234'' (pin_data_new 1 3))"
  by (simp_all add: sim_fresh_def sim_set_def sim_locked_def sim_legacy_def)

lemma tags1 [simp]:
  "tag_of sim_tpm uid1 (nvs sim_view sim_fresh) = None"
  "tag_of sim_tpm uid1 (nvs sim_view sim_set) = Some [2]"
  "tag_of sim_tpm uid1 (nvs sim_view sim_locked) = Some [2]"
  "tag_of sim_tpm uid1 (nvs sim_view sim_legacy) = None"
  by (simp_all add: tag_of_def sim_fresh_def sim_set_def sim_locked_def sim_legacy_def)

lemma slot_of1 [simp]:
  "slot_of sim_tpm uid1 N = N slot1"
  by (simp add: slot_of_def)

lemma counters1 [simp]:
  "counters_of sim_tpm uid1 (nvs sim_view sim_set) = Some (pin_data_new 0 3)"
  "counters_of sim_tpm uid1 (nvs sim_view sim_locked) = Some (pin_data_new 3 3)"
  by (simp_all add: counters_of_def del: sim_view_sel)

lemma left1 [simp]:
  "attempts_left sim_tpm uid1 (nvs sim_view sim_set) = 3"
  "attempts_left sim_tpm uid1 (nvs sim_view sim_locked) = 0"
  by (simp_all add: attempts_left_def pin_data_new_def del: sim_view_sel)

lemma matches1:
  "pin_matches sim_tpm uid1 (nvs sim_view sim_set) pin = auth_eq (pin_as_bytes ''1234'') (pin_as_bytes pin)"
  by (simp add: pin_matches_def compared_pin_def del: sim_view_sel)

lemma accounts1 [simp]:
  "account_of sim_tpm uid1 (nvs sim_view sim_fresh) = Unset"
  "account_of sim_tpm uid1 (nvs sim_view sim_set) = fresh_account 3 ''1234''"
  "account_of sim_tpm uid1 (nvs sim_view sim_legacy) = Set (pin_as_bytes ''1234'') (pin_data_new 1 3) None"
  by (simp_all add: account_of_def fresh_account_def PIN_VERSION_CURRENT_def del: sim_view_sel)

lemma service1: "in_service sim_tpm sim_view sim_mgr uid1 sim_set"
  using ready1(2) by (simp add: in_service_def pin_data_new_def PIN_VERSION_CURRENT_def del: sim_view_sel)

lemma proper1 [simp]: "proper_pin ''1234''" "proper_pin ''9999''"
  by (simp_all add: proper_pin_def)

lemma mismatch1: "\<not> pin_matches sim_tpm uid1 (nvs sim_view sim_set) ''9999''"
  by (simp only: matches1 proper_auth_eq [OF proper1]) simp

lemma match1: "pin_matches sim_tpm uid1 (nvs sim_view sim_set) ''1234''"
  by (simp only: matches1 proper_auth_eq [OF proper1(1) proper1(1)])

lemmas pair = surjective_pairing

lemma run_setup1: "setup_pin sim_tpm sim_mgr uid1 ''1234'' sim_fresh =
    (Ok (), snd (setup_pin sim_tpm sim_mgr uid1 ''1234'' sim_fresh))"
  using setup_refines [OF ready1(1), of "''1234''", OF _ pair] by (simp add: value_of_Some prod_eq_iff del: sim_view_sel)

lemma run_verify1: "verify_pin sim_tpm sim_mgr uid1 ''1234'' sim_set =
    (Ok (VerifySuccess (pin_data_new 0 3)), snd (verify_pin sim_tpm sim_mgr uid1 ''1234'' sim_set))"
  using verify_refines [OF ready1(2), of "''1234''", OF _ pair] spec_verify_fresh [of 3 3 "''1234''" "''1234''"]
  by (simp add: value_of_Some prod_eq_iff auth_eq_def del: sim_view_sel)

lemma run_delete1: "delete_pin_admin sim_tpm uid1 sim_set = (Ok (), snd (delete_pin_admin sim_tpm uid1 sim_set))"
  using delete_refines(1) [OF ready1(2) pair]
  by (simp add: value_of_Some prod_eq_iff fresh_account_def del: sim_view_sel)

section \<open>The properties at these states\<close>

lemma reachable_indices_witness:
  "wf_all sim_tpm (nvs sim_view (run_ops sim_tpm sim_mgr [OpSetup uid1 ''1234'', OpVerify uid1 ''9999''] sim_fresh))"
  using reachable_indices [OF sim_sound reaches_run [THEN iffD2, OF refl] wf1(1)] by blast

lemma lockout_until_admin_delete_witness:
  "attempts_left sim_tpm uid1 (nvs sim_view (run_ops sim_tpm sim_mgr
     [OpVerify uid1 ''1234'', OpSetup uid1 ''1111'', OpDeleteAuth uid1 ''1234''] sim_locked)) = 0"
  using lockout_until_admin_delete [OF sim_sound reaches_run [THEN iffD2, OF refl] wf1(4), of uid1
      "slot_with ''1234'' (pin_data_new 3 3)"
      "[OpVerify uid1 ''1234'', OpSetup uid1 ''1111'', OpDeleteAuth uid1 ''1234'']" sim_mgr]
  by (simp del: sim_view_sel run_ops.simps)

lemma verify_success_sound_witness:
  "\<exists>e. nvs sim_view sim_set slot1 = Some e \<and> auth_eq (e_auth e) (pin_as_bytes ''1234'')"
  using verify_success_sound [OF sim_sound wf1_uid(2) run_verify1]
  by (auto simp: compared_pin_def simp del: sim_view_sel)

lemma setup_success_provisions_witness:
  "\<exists>e. nvs sim_view (snd (setup_pin sim_tpm sim_mgr uid1 ''1234'' sim_fresh)) slot1 = Some e \<and>
     entry_pin e = Some (pin_data_new 0 3)"
  using setup_success_provisions [OF sim_sound wf1_uid(1) run_setup1] by (auto simp del: sim_view_sel)

lemma setup_never_overwrites_witness:
  "nvs sim_view (snd (setup_pin sim_tpm sim_mgr uid1 ''9999'' sim_set)) = nvs sim_view sim_set"
  using setup_never_overwrites [OF sim_sound indices1(1) _ pair, of sim_set sim_mgr "''9999''"]
  by (simp del: sim_view_sel)



lemma delete_admin_implements_spec_witness:
  "fst (delete_pin_admin sim_tpm uid1 sim_fresh) = Err (NotProvisioned uid1)"
  using delete_admin_implements_spec [OF ready1(1) pair] by (simp del: sim_view_sel)


lemma limit_locks_out_witness:
  "\<forall>s. fst (verify_pin sim_tpm sim_mgr uid1 ''1234''
     (snd (run_attempts (verify_attempt sim_tpm sim_mgr uid1) [''9999'', ''9999'', ''9999''] sim_set)))
     \<noteq> Ok (VerifySuccess s)"
  using limit_locks_out [OF service1 _ _ pair pair, of "[''9999'', ''9999'', ''9999'']" "''1234''"] mismatch1
  by (simp del: sim_view_sel run_attempts.simps)



definition sim_mgr0 :: pin_manager where
  "sim_mgr0 = sim_mgr\<lparr>policy := default_policy\<lparr>max_attempts := 0\<rparr>\<rparr>"



lemma verify_absent_is_tpm_error_witness:
  "\<exists>x. fst (verify_pin sim_tpm sim_mgr uid1 ''1234'' sim_fresh) = Err (TpmError x)"
  using verify_absent_is_tpm_error [OF ready1(1) accounts1(1) tags1(1) pair] .

lemma index_layout_witness: "unat slot1 < 0x01800000 \<and> slot1 \<noteq> tag1"
  using index_layout [OF indices1 indices1] by simp

definition fs_none :: file_sys where
  "fs_none = \<lparr>fs_open = (\<lambda>p. None), fs_metadata = (\<lambda>p. None)\<rparr>"

definition fs_bad :: file_sys where
  "fs_bad = \<lparr>fs_open = (\<lambda>p. Some \<lparr>file_metadata = Some \<lparr>is_file = True, md_uid = 0, md_mode = 0x1A4\<rparr>,
     file_text = Some ''pin_min_length=6 broken''\<rparr>), fs_metadata = (\<lambda>p. None)\<rparr>"

lemma bad_token_voids_policy_witness: "load_from_standard_locations sim_tpm fs_bad = default_policy"
proof (rule bad_token_voids_policy)
  show "read_policy_if_secure fs_bad ''/etc/pinpam/policy'' = Some ''pin_min_length=6 broken''"
    by (simp add: read_policy_if_secure_def fs_bad_def metadata_is_secure_def)
  show "''broken'' \<in> set (split_whitespace ''pin_min_length=6 broken'')"
    by code_simp
  show "split_once (CHR ''='') ''broken'' = None \<or>
      (\<exists>v. split_once (CHR ''='') ''broken'' = Some (''pinutil_path'', v) \<and> parse_pinutil_path sim_tpm fs_bad v \<noteq> Ok v)"
    by (simp add: split_once_None_iff)
qed

end
