(* ===== verification/Deployment.thy ===== *)
theory Deployment imports SimOs Witnesses begin

text \<open>
  The machine of \<open>SimOs\<close> meets the laws of the deployment, and the properties of \<open>pinutil\<close>, of the
  PAM modules and of the master key at concrete inputs on it.
\<close>

section \<open>The laws of the TPM\<close>

text \<open>They speak of the TPM's calls only.\<close>

lemma truncate_indices:
  "nv_index_for_uid (tss.truncate T) uid = nv_index_for_uid T uid"
  "version_nv_index_for_uid (tss.truncate T) uid = version_nv_index_for_uid T uid"
  by (simp_all add: nv_index_for_uid_def version_nv_index_for_uid_def from_tss_def tss.defs cong: if_cong option.case_cong)

lemma truncate_sound: "tss_sound (tss.truncate T) V \<longleftrightarrow> tss_sound T V"
  unfolding tss_sound_def law_keeps_nv_def law_keeps_objs_def law_plain_errors_def law_handles_def law_nv_read_def
    law_nv_read_full_def law_nv_space_def law_nv_write_def read_outcome_def plain_error_def
  by (simp only: tss.defs tss.simps)

lemma truncate_live: "tss_live (tss.truncate T) V \<longleftrightarrow> tss_live T V"
  unfolding tss_live_def truncate_sound live_checks_def live_sessions_def live_handles_def live_nv_def
  by (simp only: tss.defs tss.simps)

lemma sim_os_tss: "tss.truncate sim_os = sim_tss" "tss.truncate sim_pam = sim_tss"
  by (simp_all add: sim_os_defs sim_pam_def pam.defs sim_tss_def)

lemma sim_os_live: "tss_live sim_os sim_view"
  unfolding truncate_live [of sim_os, symmetric] sim_os_tss by (rule sim_live)

lemma sim_os_sound: "tss_sound sim_os sim_view"
  by (rule live_sound [OF sim_os_live])

lemma sim_os_indices [simp]:
  "nv_index_for_uid sim_os uid = nv_index_for_uid sim_tpm uid"
  "version_nv_index_for_uid sim_os uid = version_nv_index_for_uid sim_tpm uid"
  by (simp_all add: nv_index_for_uid_def version_nv_index_for_uid_def from_tss_def sim_os_defs
      cong: if_cong option.case_cong)

text \<open>What is read off the indices depends on the TPM record only through the index layout.\<close>

lemma same_views:
  assumes "\<And>u. nv_index_for_uid T u = nv_index_for_uid T' u"
    and "\<And>u. version_nv_index_for_uid T u = version_nv_index_for_uid T' u"
  shows "slot_of T uid = slot_of T' uid" "tag_of T uid = tag_of T' uid"
    "wf_all T = wf_all T'" "owns T uid k = owns T' uid k"
    "pin_matches T uid = pin_matches T' uid" "attempts_left T uid = attempts_left T' uid"
proof -
  show s: "slot_of T uid = slot_of T' uid" "tag_of T uid = tag_of T' uid"
    "wf_all T = wf_all T'" "owns T uid k = owns T' uid k"
    using assms by (simp_all add: fun_eq_iff slot_of_def tag_of_def wf_all_def wf_uid_def owns_def)
  then have "compared_pin T uid = compared_pin T' uid"
    by (simp add: fun_eq_iff compared_pin_def)
  with s show "pin_matches T uid = pin_matches T' uid" "attempts_left T uid = attempts_left T' uid"
    by (simp_all add: fun_eq_iff pin_matches_def attempts_left_def counters_of_def cong: option.case_cong)
qed

lemmas sim_os_views [simp] = same_views [OF sim_os_indices]

section \<open>The laws of the platform\<close>

lemma sim_os_sel [simp]:
  "stdin_read_line sim_os = sim_read_line" "stdout_write sim_os = sim_write_out" "stdout_flush sim_os = ok ()"
  "stderr_write sim_os = (\<lambda>s. ok ())" "stderr_flush sim_os = ok ()"
  "tcgetattr sim_os = ok \<lparr>local_flags = 0, other_modes = 0\<rparr>" "tcsetattr sim_os = (\<lambda>t. ok ())"
  "set_env sim_os = (\<lambda>k v w. w)" "ll_restrict_self sim_os = (\<lambda>r. ok FullyEnforced)"
  "ll_handle_fs sim_os = (\<lambda>r. None)" "ll_handle_net sim_os = (\<lambda>r. None)" "ll_create sim_os = (\<lambda>r. None)"
  "ll_add_rules sim_os = (\<lambda>r. None)" "ui_tr sim_os = (\<lambda>k a. k)"
  "parse_cli sim_os = sim_parse" "to_json sim_os = sim_to_json" "user_table sim_os = sim_users"
  "proc sim_os = sim_process" "policy_files sim_os = fs_empty" "stdin_is_terminal sim_os = False"
  by (simp_all add: sim_os_defs)

lemma sim_os_keys [simp]:
  "password_session sim_os = 0xFF" "esys_none sim_os = 0xFFF" "persistent_check sim_os = (\<lambda>h. None)"
  "key_public_check sim_os = (\<lambda>p. None)" "object_attributes_check sim_os = (\<lambda>a. None)"
  "digest_check sim_os = (\<lambda>d. None)" "sensitive_check sim_os = (\<lambda>s. None)" "max_buffer_check sim_os = (\<lambda>b. None)"
  "tr_from_persistent sim_os = sim_tr_persistent" "create_primary sim_os = (\<lambda>p. sim_load (Some []) 0x80000000)"
  "evict_control sim_os = sim_evict" "tr_close sim_os = (\<lambda>h. ok ())" "create_key sim_os = (\<lambda>h p d. ok (d, p))"
  "load_key sim_os = (\<lambda>h b p. sim_load (Some b) 0x80000001)" "hmac sim_os = sim_hmac"
  "hex_encode sim_os = text_of" "os_rng sim_os = (\<lambda>n. ok (replicate n 7))" "mnemonic24 sim_os = ok ''abandon art''"
  "argon2_params_check sim_os = (\<lambda>a b c d. None)" "argon2id_v13 sim_os = (\<lambda>m t p pw salt n. Ok (replicate n 1))"
  "aes_key_check sim_os = (\<lambda>k. None)" "aes_encrypt sim_os = (\<lambda>k n m. Ok m)" "aes_decrypt sim_os = (\<lambda>k n c. Ok c)"
  "b64_encode sim_os = text_of" "b64_decode sim_os = (\<lambda>s. Ok (map of_char s))"
  "sealed_to_json sim_os = (\<lambda>s. if s = sim_sealed then Ok [1] else Err ''json'')"
  "sealed_of_json sim_os = (\<lambda>b. if b = [1, 10] then Ok sim_sealed else Err ''json'')"
  "unix_time_ms sim_os = (\<lambda>w. Some 0)" "path_exists sim_os = (\<lambda>f w. c_files w f \<noteq> None)"
  "remove_file sim_os = sim_remove" "create_dir_all sim_os = (\<lambda>f. ok ())" "set_permissions sim_os = (\<lambda>f m. ok ())"
  "chown sim_os = (\<lambda>f u g. ok ())" "open_create_new sim_os = sim_create_new" "write_all sim_os = sim_write_all"
  "read_file sim_os = sim_read_file"
  by (simp_all add: sim_os_defs)

lemma sim_os_calls [simp]:
  "tr sim_os = (\<lambda>key args. key)" "tss_text sim_os = (\<lambda>e. ''tpm'')" "rc_kind sim_os = sim_rc_kind"
  "tcti_check sim_os = (\<lambda>c. if c = [] then Some (WrapperError InvalidParam) else None)"
  "context_new sim_os = sim_context_new" "ctx_clear_sessions sim_os = (\<lambda>w. w)"
  "nullauth_begin sim_os = ok ()" "nullauth_end sim_os = ok ()"
  "no_session_begin sim_os = (\<lambda>w. w)" "no_session_end sim_os = (\<lambda>w. w)"
  "session_begin sim_os = (\<lambda>s w. w\<lparr>sim_session := Some s\<rparr>)"
  "session_end sim_os = (\<lambda>w. w\<lparr>sim_session := None\<rparr>)"
  "start_auth_session sim_os = sim_start_session" "tr_sess_set_attributes sim_os = (\<lambda>s. ok ())"
  "policy_command_code sim_os = (\<lambda>s c. sim_add_policy s (PcCommandCode c))"
  "policy_nv_written sim_os = (\<lambda>s b. sim_add_policy s (PcNvWritten b))"
  "policy_get_digest sim_os = sim_get_digest" "flush_context sim_os = sim_flush"
  "tr_from_tpm_public sim_os = sim_tr_from" "tr_set_auth sim_os = sim_set_auth"
  "nv_read sim_os = sim_nv_read" "nv_read_full sim_os = sim_nv_read_full"
  "nv_write sim_os = sim_nv_write" "nv_define_space sim_os = sim_define" "nv_undefine_space sim_os = sim_undefine"
  by (simp_all add: sim_os_defs)

lemma ok_snd [simp]: "snd (ok x w) = w"
  by (simp add: ok_def)

lemmas sim_key_calls =
  sim_load_def sim_tr_persistent_def sim_evict_def sim_hmac_def sim_create_new_def sim_write_all_def
  sim_read_file_def sim_remove_def

lemma sim_os_quiet: "platform_quiet sim_os sim_view"
  unfolding platform_quiet_def
proof (intro conjI sim_os_sound)
  show "terminal_evolves sim_os (nvs sim_view) (=)"
    unfolding terminal_evolves_def
    by (intro conjI allI) (auto simp: evolves_def sim_read_line_def sim_write_out_def fun_eq_iff)
  show "key_calls_evolve sim_os (nvs sim_view) (=)"
    unfolding key_calls_evolve_def
    by (intro conjI allI)
      (auto simp: evolves_def sim_context_new_def sim_flush_def sim_key_calls fun_eq_iff split: option.split)
qed

lemma sim_os_stdio: "stdio_law sim_os cell_pipes"
proof -
  have "tss_calls_evolve sim_os (stdio cell_pipes) (=)"
    unfolding tss_calls_evolve_def
    by (intro conjI allI) (auto simp: evolves_def cell_pipes_def sim_calls split: option.split nv_auth.split)
  then show ?thesis
    by (simp add: stdio_law_def cell_pipes_def wp_def sim_read_line_def sim_write_out_def evolves_def)
qed

lemma sim_os_vault: "vault_laws sim_os cell_vault"
  unfolding vault_laws_def
proof (intro conjI)
  show "quiet_calls sim_os cell_vault"
    unfolding quiet_calls_def
    by (intro conjI allI)
      (auto simp: evolves_def cell_vault_def sim_context_new_def sim_flush_def sim_load_def)
  show "object_laws sim_os cell_vault"
    unfolding object_laws_def
    by (intro conjI allI) (auto simp: wp_def cell_vault_def ok_def sim_key_calls split: option.split)
  show "file_laws sim_os cell_vault"
    unfolding file_laws_def
    by (intro conjI allI) (auto simp: wp_def cell_vault_def sim_key_calls split: option.split)
  show "codec_laws sim_os"
    unfolding codec_laws_def by (auto simp: bytes_text ok_def split: if_splits)
qed

section \<open>The deployed PAM module\<close>

lemma sim_pam_sel [simp]:
  "pam_user_table sim_pam = sim_users" "pam_policy_files sim_pam = fs_empty" "json_unit sim_pam = sim_json_unit"
  "json_info sim_pam = sim_json_info" "command_output sim_pam = (\<lambda>p args w. sim_run (sim_start args w))"
  "command_spawn sim_pam = (\<lambda>p args w. (Ok 1, sim_start args w))" "take_stdin sim_pam = (\<lambda>n. ok True)"
  "pipe_write sim_pam = (\<lambda>n s w. (Ok (), w\<lparr>c_in := c_in w @ s\<rparr>))" "pipe_flush sim_pam = (\<lambda>n. ok ())"
  "close_stdin sim_pam = (\<lambda>n w. w)" "wait_with_output sim_pam = (\<lambda>n. sim_run)"
  "pam_tr sim_pam = (\<lambda>k a. k)"
  by (simp_all add: sim_pam_def tss.defs pam.defs)

lemma feed_sim:
  "feed_helper sim_pam args pin w = sim_run ((sim_start args w)\<lparr>c_in := pin @ [newline]\<rparr>)"
  by (simp add: feed_helper_def tolerate_broken_pipe_def andThen_def mapErr_def matchRes_def ok_def act_def
      sim_start_def sim_run_def split: prod.split)

lemma sim_run_ran:
  assumes run: "sim_run w = (r, w')" and w: "c_out w = []" "c_in w \<in> inputs" "nvs sim_view w = N"
  shows "\<exists>r0 x. r = Ok x \<and> ran sim_os sim_view cell_pipes (c_args w) inputs N (nvs sim_view w') r0 (out_bytes x) \<and>
    exit_success x = (exit_code r0 = 0)"
proof -
  obtain r0 w1 where 1: "pinutil_main sim_os (c_args w) w = (r0, w1)" by fastforce
  then have r: "r = Ok \<lparr>exit_success = (exit_code r0 = 0), status_text = [], out_bytes = c_out w1, err_bytes = []\<rparr>"
      "w' = w1"
    using run by (auto simp: sim_run_def)
  have "ran sim_os sim_view cell_pipes (c_args w) inputs N (nvs sim_view w') r0 (c_out w1)"
    unfolding ran_def using 1 w r(2) by (auto simp: cell_pipes_def simp del: sim_view_sel)
  then show ?thesis using r(1) by auto
qed

lemma nvs_cell [simp]:
  "nvs sim_view (w\<lparr>c_in := x\<rparr>) = nvs sim_view w" "nvs sim_view (w\<lparr>c_out := x\<rparr>) = nvs sim_view w"
  "nvs sim_view (w\<lparr>c_args := y\<rparr>) = nvs sim_view w"
  by (simp_all add: fun_eq_iff)

lemma sim_start_sel [simp]:
  "c_out (sim_start args w) = []" "c_in (sim_start args w) = []" "c_args (sim_start args w) = args"
  "nvs sim_view (sim_start args w) = nvs sim_view w"
  by (simp_all add: sim_start_def del: sim_view_sel)

lemma sim_helper: "helper_law sim_pam sim_os sim_view cell_pipes"
  unfolding helper_law_def
proof (intro conjI allI wpI disjI2)
  fix args pin w r w' assume "feed_helper sim_pam args pin w = (r, w')"
  then have "sim_run ((sim_start args w)\<lparr>c_in := pin @ [newline]\<rparr>) = (r, w')" by (simp add: feed_sim)
  from sim_run_ran [OF this, of "{[], pin, pin @ [newline]}" "nvs sim_view w"]
  show "\<exists>r0 printed. ran sim_os sim_view cell_pipes args {[], pin, pin @ [newline]} (nvs sim_view w) (nvs sim_view w') r0 printed \<and>
      (\<forall>x. r = Ok x \<longrightarrow> out_bytes x = printed)"
    by (auto simp del: sim_view_sel)
next
  fix args w r w' assume "command_output sim_pam (helper_path sim_pam) args w = (r, w')"
  then have "sim_run (sim_start args w) = (r, w')" by simp
  from sim_run_ran [OF this, of UNIV "nvs sim_view w"]
  show "\<exists>r0 printed. ran sim_os sim_view cell_pipes args UNIV (nvs sim_view w) (nvs sim_view w') r0 printed \<and>
      (\<forall>x. r = Ok x \<longrightarrow> out_bytes x = printed \<and> exit_success x = (exit_code r0 = 0))"
    by (auto simp del: sim_view_sel)
qed

lemma sim_json: "json_faithful sim_pam sim_os"
proof -
  have d: "z = y" if r: "reported sim_os y t" and j: "sim_json_unit (from_utf8_lossy t) = Inr z" for y t z
  proof -
    obtain s where s: "sim_to_json (map_sum id (\<lambda>_. RUnit) y) = Ok s" "prefix t (s @ [newline])"
      using r by (auto simp: reported_def)
    then have y: "y = Inr () \<and> s = ''ok'' \<or> y = Inl (IncorrectPin False) \<and> s = ''no'' \<or> s = ''error''"
      by (cases "map_sum id (\<lambda>_. RUnit) y" rule: sim_to_json.cases; cases y) auto
    have "set t \<subseteq> set (s @ [newline])" using set_mono_prefix [OF s(2)] .
    then have "\<forall>c \<in> set t. (of_char c :: nat) < 0x80" using y by (elim disjE; fastforce)
    then have "from_utf8_lossy t = t" by (intro lossy_valid utf8_ascii)
    then have j': "sim_json_unit t = Inr z" using j by simp
    then have "t = ''ok'' @ [newline] \<and> z = Inr () \<or> t = ''no'' @ [newline] \<and> z = Inl (IncorrectPin False)"
      by (auto simp: sim_json_unit_def split: if_splits)
    then show ?thesis using y s(2) by auto
  qed
  then show ?thesis by (auto simp: json_faithful_def sim_json_unit_def)
qed

lemma sim_deployed: "deployed sim_pam sim_os sim_view cell_pipes ''bob'' uid1"
  unfolding deployed_def
  by (intro conjI sim_helper sim_os_stdio sim_os_quiet sim_json)
    (simp_all add: test_invocation_def status_invocation_def sim_parse_def sim_commands_def sim_users_def
      get_uid_from_username_def uid1_def)

lemma answering_quiet: "quiet_io sim_view (answering s)"
  by (simp add: quiet_io_def answering_def del: sim_view_sel)

section \<open>States\<close>

definition cell_set :: cell where
  "cell_set = cell_of [slot1 \<mapsto> slot_with ''1234'' (pin_data_new 0 3), tag1 \<mapsto> tag_with 2]"

definition cell_locked :: cell where
  "cell_locked = cell_of [slot1 \<mapsto> slot_with ''1234'' (pin_data_new 3 3), tag1 \<mapsto> tag_with 2]"

lemma cell_nvs [simp]:
  "nvs sim_view cell_set = nvs sim_view sim_set" "nvs sim_view cell_locked = nvs sim_view sim_locked"
  by (simp_all add: cell_set_def cell_locked_def cell_of_def sim_set_def sim_locked_def sim_of_def fun_eq_iff)

lemma cell_guarded: "guarded sim_os sim_view uid1 cell_set" "guarded sim_os sim_view uid1 cell_locked"
  using sim_os_sound wf1_uid
  by (simp_all add: guarded_def wf_uid_def del: sim_view_sel)

lemma cell_policy: "cached_policy sim_os = default_policy" "pam_policy sim_pam = default_policy"
  by (simp_all add: cached_policy_def pam_policy_def cached_def load_from_standard_locations_def POLICY_PATHS_def
      load_from_path_def read_policy_if_secure_def fs_empty_def)

lemma nines: "pin_new ''9999'' default_policy = Ok ''9999''" "usable_pin (trim ''9999'') default_policy = Some ''9999''"
    "pin_new (''9999'' @ [newline]) default_policy = Ok ''9999''"
  by code_simp+

lemma right_pin: "pin_new (''1234'' @ [newline]) default_policy = Ok ''1234''"
    "usable_pin (trim ''1234'') default_policy = Some ''1234''" "pin_new (trim ''1234'') default_policy = Ok ''1234''"
    "sent_pin ''1234'' = ''1234''" "usable_pin ''1234'' default_policy = Some ''1234''"
  by code_simp+

section \<open>The properties at these states\<close>

lemma pinutil_keeps_indices_witness:
  "wf_all sim_os (nvs sim_view (snd (pinutil_main sim_os [''change''] cell_set)))"
  using pinutil_keeps_indices [OF sim_os_quiet _ pair, of cell_set] wf1 by (simp del: sim_view_sel)

lemma sim_unprivileged: "unprivileged (proc sim_os)" "real_uid (proc sim_os) \<noteq> 0"
  by (simp_all add: unprivileged_def sim_process_def)

lemma unprivileged_run_is_isolated_witness:
  "nvs sim_view (snd (pinutil_main sim_os [''change''] cell_set)) 0x010003E9 = nvs sim_view cell_set 0x010003E9"
  using unprivileged_run_is_isolated [OF sim_os_quiet sim_unprivileged(1) _ pair, of cell_set "0x010003E9"] wf1
  by (simp add: owns_def sim_process_def uid1_def [symmetric] slot1_def tag1_def del: sim_view_sel)

lemma lockout_survives_pinutil_witness:
  "attempts_left sim_os uid1 (nvs sim_view (snd (pinutil_main sim_os [''-m'', ''test'', ''bob''] cell_locked))) = 0"
  using lockout_survives_pinutil [OF sim_os_quiet sim_unprivileged(2) _ _ _ pair, of cell_locked uid1] wf1
  by (simp del: sim_view_sel)

section \<open>A successful login\<close>

lemma bob: "get_uid_from_username sim_users ''bob'' = Ok uid1"
  by (simp add: get_uid_from_username_def sim_users_def uid1_def)

lemma sim_json_total: "\<exists>s. sim_to_json r = Ok s"
  by (cases r rule: sim_to_json.cases) auto

lemma sim_working: "working sim_os sim_view cell_pipes"
  unfolding working_def
  by (intro conjI allI answersI sim_os_live sim_os_quiet sim_os_stdio)
    (auto simp: sim_read_line_def sim_write_out_def cell_pipes_def ok_def sim_json_total cell_policy tcti_spec_def default_policy_def
      DEFAULT_TCTI_SPEC_def)

lemma ascii_lossy: "\<forall>c \<in> set t. (of_char c :: nat) < 0x80 \<Longrightarrow> from_utf8_lossy t = t"
  by (intro lossy_valid utf8_ascii)

lemma count_replicate: "count_list (replicate n c) d = (if c = d then n else 0)"
  by (induction n) auto

lemma sim_info_decodes: "sim_json_info (from_utf8_lossy (sim_info_text i @ [newline])) = Inr (Inr i)"
proof -
  have "from_utf8_lossy (sim_info_text i @ [newline]) = sim_info_text i @ [newline]"
    by (rule ascii_lossy) (cases i; auto)
  then show ?thesis
    by (cases i) (auto simp: sim_json_info_def count_replicate)
qed

lemma sim_helper_live: "helper_live sim_pam sim_os sim_view cell_pipes"
proof -
  have 1: "\<exists>x w' r0. sim_run v = (Ok x, w') \<and>
      ran sim_os sim_view cell_pipes (c_args v) inputs (nvs sim_view v) (nvs sim_view w') r0 (out_bytes x) \<and>
      exit_success x = (exit_code r0 = 0)" if "c_out v = []" "c_in v \<in> inputs" for v inputs
    using sim_run_ran [OF _ that refl] by (metis surj_pair)
  have "\<exists>x w' r0. feed_helper sim_pam args pin w = (Ok x, w') \<and>
      ran sim_os sim_view cell_pipes args {pin @ [newline]} (nvs sim_view w) (nvs sim_view w') r0 (out_bytes x)" for args pin w
    using 1 [of "(sim_start args w)\<lparr>c_in := pin @ [newline]\<rparr>" "{pin @ [newline]}"]
    by (auto simp: feed_sim simp del: sim_view_sel)
  moreover have "\<exists>x w' r0. command_output sim_pam (helper_path sim_pam) args w = (Ok x, w') \<and>
      ran sim_os sim_view cell_pipes args UNIV (nvs sim_view w) (nvs sim_view w') r0 (out_bytes x) \<and>
      exit_success x = (exit_code r0 = 0)" for args w
    using 1 [of "sim_start args w" UNIV] by (simp del: sim_view_sel)
  moreover have "sim_json_unit (from_utf8_lossy (''ok'' @ [newline])) = Inr (Inr ())" by code_simp
  ultimately show ?thesis
    unfolding helper_live_def by (auto simp: sim_info_decodes prompt_keys_def simp del: sim_view_sel)
qed

lemma sim_serviceable: "serviceable sim_pam sim_os sim_view cell_pipes ''bob'' uid1"
  using sim_working sim_helper_live bob
  by (simp add: serviceable_def cell_policy machine_invocation_def sim_parse_def sim_commands_def can_attempt_pin_def get_uid_def
      sim_process_def uid1_def)

lemma sim_in_service: "nvs sim_view w = nvs sim_view sim_set \<Longrightarrow> in_service sim_os sim_view sim_mgr uid1 w"
proof -
  assume n: "nvs sim_view w = nvs sim_view sim_set"
  have "counters_of sim_os uid1 N = counters_of sim_tpm uid1 N" for N by (simp add: counters_of_def)
  then show ?thesis
    using service1 sim_os_live n
    by (simp add: in_service_def ready_def wf_uid_def DEFAULT_TCTI_SPEC_def del: sim_view_sel)
qed

lemma cell_entitled: "entitled sim_os sim_view uid1 ''1234'' cell_set"
  using sim_in_service [OF cell_nvs(1)] match1 by (auto simp: entitled_def simp del: sim_view_sel)

text \<open>A login with the token of an earlier module.\<close>

abbreviation first_pass_argv :: "string option list option" where
  "first_pass_argv \<equiv> Some [Some ''use_first_pass'']"

lemma first_pass_args:
  "from_strs (argv_to_strings 1 first_pass_argv) = \<lparr>try_first_pass = False, use_first_pass = True\<rparr>"
proof -
  have "valid_utf8 ''use_first_pass''" by code_simp
  then show ?thesis by (simp add: argv_to_strings_def List.map_filter_def from_strs_def from_str_def default_args_def)
qed

lemma sim_pam_items [simp]:
  "get_item_conv sim_pam = (\<lambda>w. ((SUCCESS, Some None), w))" "pam_get_user sim_pam = (\<lambda>w. ((SUCCESS, Some ''bob''), w))"
  "get_item_authtok sim_pam = (\<lambda>w. ((SUCCESS, Some ''1234''), w))"
  by (simp_all add: sim_pam_def tss.defs pam.defs)

lemma sim_pam_live: "libpam_live sim_pam sim_view None ''bob'' (Some ''1234'')"
proof -
  have "valid_utf8 ''1234''" "valid_utf8 ''bob''" by code_simp+
  then show ?thesis by (simp add: libpam_live_def quiet_io_def del: sim_view_sel)
qed

lemma first_pass_presents:
  "presents sim_pam None (from_strs (argv_to_strings 1 first_pass_argv)) (Some ''1234'') ''1234''"
  by (simp add: presents_def first_pass_args decide_first_pass_def wants_first_pass_def cell_policy right_pin(5))

lemma sim_login: "\<exists>w'. pam_sm_authenticate sim_pam 1 first_pass_argv cell_set = (Ok SUCCESS, w')"
proof -
  have "valid_utf8 ''1234''" "valid_utf8 ''bob''" by code_simp+
  then have "pam_sm_authenticate sim_pam 1 first_pass_argv cell_set =
      authenticate_user sim_pam None ''bob'' (from_strs (argv_to_strings 1 first_pass_argv)) (Some ''1234'') cell_set"
    by (simp add: pam_sm_authenticate_def first_pass_args pam_io_new_def get_username_def get_pam_authtok_def
        ffi_def matchRes_def andThen_def ok_def wants_first_pass_def)
  then show ?thesis
    using authenticate_live [OF sim_serviceable _ cell_entitled first_pass_presents]
    by (simp add: quiet_io_def del: sim_view_sel)
qed


lemma sim_libpam: "libpam_law sim_pam sim_view ''bob''"
  by (auto simp: libpam_law_def quiet_io_def simp del: sim_view_sel)


lemma nines_offered: "offered sim_pam (answering ''9999'') default_args None pin \<longleftrightarrow> pin = ''9999''"
  using nines(2) by (auto simp: offered_def default_args_def wants_first_pass_def answering_def cell_policy)

lemma nines_sent: "sent_pin ''9999'' = ''9999''"
  by code_simp


lemma pam_lockout_is_final_witness:
  "True \<notin> set (fst (run_attempts (login sim_pam (answering ''1234'') ''bob'')
     [(default_args, None), (from_strs [''use_first_pass''], Some ''1234'')] cell_locked))"
  using pam_lockout_is_final [OF sim_deployed answering_quiet cell_guarded(2) _ pair, of "''1234''"]
  by (simp del: sim_view_sel run_attempts.simps)

section \<open>Commands in machine mode\<close>

definition typing :: "string \<Rightarrow> cell \<Rightarrow> cell" where
  "typing s w = w\<lparr>c_in := s\<rparr>"

lemma typing_sel [simp]:
  "nvs sim_view (typing s w) = nvs sim_view w" "inp cell_pipes (typing s w) = s"
  by (simp_all add: typing_def cell_pipes_def fun_eq_iff)

lemma sim_invocation:
  "map_of sim_commands c = Some k \<Longrightarrow> machine_invocation sim_os [''-m'', c, u] (k (Some u))"
  by (auto simp: machine_invocation_def sim_parse_def)

lemma bob_owner: "get_uid (proc sim_os) = uid1" "uid1 \<noteq> 0" "can_manage_pin (proc sim_os) uid1"
  "get_uid_from_username (user_table sim_os) ''bob'' = Ok uid1"
  using bob by (simp_all add: get_uid_def can_manage_pin_def sim_process_def uid1_def)

lemma typed_pins:
  "pin_new (take_line (''1234'' @ [newline])) default_policy = Ok ''1234''"
  "pin_new (take_line (''1234'' @ [newline] @ ''5678'' @ [newline])) default_policy = Ok ''1234''"
  "pin_new (take_line (drop (length (take_line (''1234'' @ [newline] @ ''5678'' @ [newline])))
     (''1234'' @ [newline] @ ''5678'' @ [newline]))) default_policy = Ok ''5678''"
  "pin_new (take_line (''9999'' @ [newline])) default_policy = Ok ''9999''"
  by code_simp+

lemma sim_policy_limit: "max_attempts (cached_policy sim_os) = 3"
  by (simp add: cell_policy default_policy_def)



text \<open>A wrong PIN, and still a success.\<close>

lemma machine_delete_reports_success_witness:
  "\<exists>w'. pinutil_main sim_os [''-m'', ''delete'', ''bob''] (typing (''9999'' @ [newline]) cell_set) = (Ok (), w') \<and>
     slot_of sim_os uid1 (nvs sim_view w') \<noteq> None"
proof -
  let ?w = "typing (''9999'' @ [newline]) cell_set"
  have "in_service sim_os sim_view sim_mgr uid1 ?w" by (rule sim_in_service) (simp del: sim_view_sel)
  from machine_delete_reports_success [OF sim_working sim_invocation [of _ Delete] bob_owner(4,1,2) this, of "''delete''" "''9999''"]
  show ?thesis using mismatch1
    by (auto simp: sim_commands_def cell_policy typed_pins simp del: sim_view_sel append.simps)
qed

section \<open>A user who does not know the PIN\<close>

text \<open>The process with an input that is always the same line.\<close>

definition nines_os :: "cell os" where
  "nines_os = sim_os\<lparr>stdin_read_line := ok (''9999'' @ [newline])\<rparr>"

lemma nines_os_quiet: "platform_quiet nines_os sim_view"
proof -
  have "tss.truncate nines_os = sim_tss" using sim_os_tss(1) by (simp add: nines_os_def tss.defs)
  then have "tss_sound nines_os sim_view"
    using truncate_sound [of nines_os sim_view] sim_sound by metis
  moreover have "terminal_evolves nines_os (nvs sim_view) (=)" "key_calls_evolve nines_os (nvs sim_view) (=)"
    using sim_os_quiet
    by (simp_all add: platform_quiet_def terminal_evolves_def key_calls_evolve_def nines_os_def
        unchanged.ok_evolves del: sim_view_sel sim_os_sel sim_os_keys sim_os_calls)
  ultimately show ?thesis by (simp add: platform_quiet_def)
qed

lemma nines_os_indices [simp]:
  "nv_index_for_uid nines_os uid = nv_index_for_uid sim_os uid"
  "version_nv_index_for_uid nines_os uid = version_nv_index_for_uid sim_os uid"
  using truncate_indices [of nines_os uid] truncate_indices [of sim_os uid]
  by (simp_all add: nines_os_def tss.defs del: sim_os_indices)

lemmas nines_os_views [simp] = same_views [OF nines_os_indices]

lemma nines_os_sel [simp]: "proc nines_os = sim_process"
  by (simp add: nines_os_def)

lemma pin_change_needs_pin_witness:
  "pin_matches nines_os uid1 (nvs sim_view (snd (pinutil_main nines_os [''change''] cell_set))) ''1234''"
proof -
  have "cached_policy nines_os = default_policy"
    by (simp add: cached_policy_def cached_def load_from_standard_locations_def POLICY_PATHS_def
        load_from_path_def read_policy_if_secure_def fs_empty_def nines_os_def)
  then have t: "typed_pin nines_os pin \<longleftrightarrow> pin = ''9999''" for pin
    using nines(3) by (auto simp: typed_pin_def nines_os_def ok_def)
  show ?thesis
    using pin_change_needs_pin [OF nines_os_quiet _ _ _ _ pair, of cell_set uid1 "[''change'']"] wf1 mismatch1 match1
    by (simp add: t sim_process_def del: sim_view_sel)
qed

section \<open>The master key\<close>

definition root :: process where "root = \<lparr>real_uid = 0, effective_uid = 0\<rparr>"

definition cell_new :: cell where "cell_new = cell_of Map.empty"

text \<open>A board with the same disk and an empty TPM.\<close>

definition cell_after :: "cell \<Rightarrow> cell" where
  "cell_after w = cell_new\<lparr>c_files := c_files w\<rparr>"

lemmas run_defs = andThen_def matchRes_def mapErr_def ok_def err_def pure_def act_def

lemma spec_default [simp]: "parse_tcti_spec sim_os (tcti_spec default_policy) = Ok DEFAULT_TCTI_SPEC"
  by (simp add: tcti_spec_def parse_tcti_spec_def default_policy_def DEFAULT_TCTI_SPEC_def)

lemma session_run:
  "with_session sim_os h f w =
     (case f (w\<lparr>sim_session := Some h\<rparr>) of (r, w1) \<Rightarrow> (r, case r of Panic s \<Rightarrow> w1 | _ \<Rightarrow> w1\<lparr>sim_session := None\<rparr>))"
  "without_session sim_os f = f" "with_nullauth sim_os f = f"
  by (simp_all add: with_session_def without_session_def with_nullauth_def fun_eq_iff run_defs
      split: prod.split res.split)

lemma present_run: "persistent_present sim_os h w =
    (Ok (c_pers w h \<noteq> None), if c_pers w h = None then w else w\<lparr>c_loaded := (c_loaded w)(h := c_pers w h)\<rparr>)"
  by (simp add: persistent_present_def checked_def session_run sim_tr_persistent_def run_defs)

lemma provision_run:
  assumes "c_pers w = Map.empty"
  shows "\<exists>w1. provision_tpm_objects sim_os default_policy key w = (Ok (), w1) \<and>
     c_pers w1 = [MASTER_KEY_RSA_PARENT_HANDLE \<mapsto> [], MASTER_KEY_HMAC_HANDLE \<mapsto> key] \<and> c_files w1 = c_files w"
  using assms
  by (simp add: provision_tpm_objects_def new_context_def create_and_persist_rsa_parent_def
      create_and_persist_hmac_key_def present_run session_run checked_def ignore_def sim_key_calls sim_flush_def
      sim_context_new_def MASTER_KEY_RSA_PARENT_HANDLE_def MASTER_KEY_HMAC_HANDLE_def run_defs fun_eq_iff
      sim_session_handle_def)

lemma status_mk_run:
  "\<exists>w1. mk_status sim_os default_policy w =
      (Ok \<lparr>sealed_file_present = (c_files w MASTER_KEY_SEALED_FILE \<noteq> None),
         rsa_parent_present = (c_pers w MASTER_KEY_RSA_PARENT_HANDLE \<noteq> None),
         hmac_key_present = (c_pers w MASTER_KEY_HMAC_HANDLE \<noteq> None),
         sealed_file_path = MASTER_KEY_SEALED_FILE, rsa_handle = MASTER_KEY_RSA_PARENT_HANDLE,
         hmac_handle = MASTER_KEY_HMAC_HANDLE\<rparr>, w1) \<and>
     c_pers w1 = c_pers w \<and> c_files w1 = c_files w"
  by (simp add: mk_status_def tpm_status_def new_context_def peek_def present_run sim_context_new_def run_defs)

lemma seal_run:
  assumes "c_files w f = None" "path_parent f = Some d"
  shows "\<exists>w1. seal_key_bytes_to_path sim_os (replicate 32 7) phrase f w = (Ok (), w1) \<and>
     c_pers w1 = c_pers w \<and> c_files w1 = (c_files w)(f \<mapsto> [1, 10])"
  using assms
  by (simp add: seal_key_bytes_to_path_def ensure_dir_for_path_def derive_aes_key_from_phrase_def checked_io_def
      peek_def now_unix_ms_def ignore_def sim_key_calls run_defs Let_def sim_sealed_def [symmetric])

lemma unseal_run:
  assumes "c_files w f = Some [1, 10]"
  shows "unseal_key_bytes_from_path sim_os phrase f w = (Ok (replicate 32 7), w)"
  using assms
  by (simp add: unseal_key_bytes_from_path_def derive_aes_key_from_phrase_def checked_io_def sim_read_file_def
      run_defs sim_sealed_def bytes_text)

lemma token_run:
  assumes "c_pers w MASTER_KEY_HMAC_HANDLE = Some key"
  shows "\<exists>w1. derive_user_token sim_os default_policy name w = (Ok (text_of (key @ as_bytes name)), w1)"
  using assms
  by (simp add: derive_user_token_def new_context_def checked_def session_run sim_tr_persistent_def sim_hmac_def
      sim_context_new_def run_defs)

lemma sealed_parent: "path_parent MASTER_KEY_SEALED_FILE = Some ''/var/pinpam''"
  by (simp add: MASTER_KEY_SEALED_FILE_def path_parent_def strip_slashes_def)

lemma init_run:
  "\<exists>st w1. mk_init sim_os root default_policy cell_new =
      (Ok \<lparr>recovery_phrase = ''abandon art'', init_status = st\<rparr>, w1) \<and>
     c_pers w1 MASTER_KEY_HMAC_HANDLE = Some (replicate 32 7) \<and>
     c_files w1 MASTER_KEY_SEALED_FILE = Some [1, 10]"
proof -
  obtain w1 where 1: "provision_tpm_objects sim_os default_policy (replicate 32 7) cell_new = (Ok (), w1)"
      "c_pers w1 = [MASTER_KEY_RSA_PARENT_HANDLE \<mapsto> [], MASTER_KEY_HMAC_HANDLE \<mapsto> replicate 32 7]"
      "c_files w1 = Map.empty"
    using provision_run [of cell_new] by (auto simp: cell_new_def cell_of_def)
  obtain w2 where 2: "seal_key_bytes_to_path sim_os (replicate 32 7) ''abandon art'' MASTER_KEY_SEALED_FILE w1 = (Ok (), w2)"
      "c_pers w2 = c_pers w1" "c_files w2 = (c_files w1)(MASTER_KEY_SEALED_FILE \<mapsto> [1, 10])"
    using seal_run [of w1 MASTER_KEY_SEALED_FILE, OF _ sealed_parent] 1(3) by auto
  obtain st w3 where 3: "mk_status sim_os default_policy w2 = (Ok st, w3)" "c_pers w3 = c_pers w2" "c_files w3 = c_files w2"
    using status_mk_run [of w2] by auto
  have "mk_init sim_os root default_policy cell_new = (Ok \<lparr>recovery_phrase = ''abandon art'', init_status = st\<rparr>, w3)"
    using 1 2 3
    by (simp add: mk_init_def ensure_root_real_uid_def root_def generate_recovery_phrase_def peek_def HMAC_KEY_LEN_def
        ensure_dir_for_path_def sealed_parent ignore_def run_defs)
      (simp add: cell_new_def cell_of_def)
  moreover have "c_pers w3 MASTER_KEY_HMAC_HANDLE = Some (replicate 32 7)" using 1(2) 2(2) 3(2) by simp
  moreover have "c_files w3 MASTER_KEY_SEALED_FILE = Some [1, 10]" using 2(3) 3(3) by simp
  ultimately show ?thesis by blast
qed

lemma import_run:
  assumes "c_pers w = Map.empty" "c_files w MASTER_KEY_SEALED_FILE = Some [1, 10]"
  shows "\<exists>st w1. import_to_tpm sim_os root default_policy phrase w = (Ok st, w1) \<and>
     c_pers w1 MASTER_KEY_HMAC_HANDLE = Some (replicate 32 7)"
proof -
  obtain st w1 where 1: "mk_status sim_os default_policy w = (Ok st, w1)" "c_pers w1 = c_pers w" "c_files w1 = c_files w"
      "\<not> rsa_parent_present st" "\<not> hmac_key_present st" "sealed_file_present st"
    using status_mk_run [of w] assms by auto
  obtain w2 where 2: "provision_tpm_objects sim_os default_policy (replicate 32 7) w1 = (Ok (), w2)"
      "c_pers w2 MASTER_KEY_HMAC_HANDLE = Some (replicate 32 7)"
    using provision_run [of w1 "replicate 32 7"] assms(1) 1(2) by auto
  obtain st' w3 where 3: "mk_status sim_os default_policy w2 = (Ok st', w3)" "c_pers w3 = c_pers w2"
    using status_mk_run [of w2] by auto
  have "unseal_key_bytes_from_path sim_os phrase MASTER_KEY_SEALED_FILE w1 = (Ok (replicate 32 7), w1)"
    using unseal_run [of w1] 1(3) assms(2) by simp
  then have "import_to_tpm sim_os root default_policy phrase w = (Ok st', w3)"
    using 1 2 3
    by (simp add: import_to_tpm_def ensure_root_real_uid_def root_def HMAC_KEY_LEN_def run_defs)
  then show ?thesis using 2 3 by metis
qed

lemma recovery_restores_tokens_witness:
  "\<exists>x w1 token w2 st w4 token' w5. mk_init sim_os root default_policy cell_new = (Ok x, w1) \<and>
     derive_user_token sim_os default_policy ''bob'' w1 = (Ok token, w2) \<and>
     import_to_tpm sim_os root default_policy (recovery_phrase x) (cell_after w1) = (Ok st, w4) \<and>
     derive_user_token sim_os default_policy ''bob'' w4 = (Ok token', w5) \<and> token' = token"
proof -
  obtain x w1 where 1: "mk_init sim_os root default_policy cell_new = (Ok x, w1)"
      "c_pers w1 MASTER_KEY_HMAC_HANDLE = Some (replicate 32 7)" "c_files w1 MASTER_KEY_SEALED_FILE = Some [1, 10]"
    using init_run by blast
  obtain token w2 where 2: "derive_user_token sim_os default_policy ''bob'' w1 = (Ok token, w2)"
    using token_run [OF 1(2)] by blast
  obtain st w4 where 4: "import_to_tpm sim_os root default_policy (recovery_phrase x) (cell_after w1) = (Ok st, w4)"
      "c_pers w4 MASTER_KEY_HMAC_HANDLE = Some (replicate 32 7)"
    using import_run [of "cell_after w1" "recovery_phrase x"] 1(3) by (auto simp: cell_after_def cell_new_def cell_of_def)
  obtain token' w5 where 5: "derive_user_token sim_os default_policy ''bob'' w4 = (Ok token', w5)"
    using token_run [OF 4(2)] by blast
  have "disk cell_vault (cell_after w1) MASTER_KEY_SEALED_FILE = disk cell_vault w1 MASTER_KEY_SEALED_FILE"
    by (simp add: cell_vault_def cell_after_def)
  with recovery_restores_tokens [OF sim_os_vault 1(1) 2 _ 4(1) 5] 1(1) 2 4(1) 5 show ?thesis by blast
qed

lemma key_material_never_overwritten_witness:
  "disk cell_vault (snd (import_to_tpm sim_os root default_policy []
       (cell_new\<lparr>c_files := [MASTER_KEY_SEALED_FILE \<mapsto> [7]]\<rparr>))) MASTER_KEY_SEALED_FILE = Some [7]"
  using key_material_never_overwritten [OF sim_os_vault,
      of _ root default_policy "cell_new\<lparr>c_files := [MASTER_KEY_SEALED_FILE \<mapsto> [7]]\<rparr>" "[]"]
  by (simp add: cell_vault_def)

end
