(* ===== verification/OrderlyRuns.thy ===== *)
theory OrderlyRuns imports Deployment NoPanic begin

text \<open>
  The machine of \<open>SimOs\<close> answers every call, so the panic-freedom properties hold on it.
\<close>

lemma sim_tss_calm: "calm_tss sim_os"
  unfolding calm_tss_def
  by (intro conjI allI answersI)
    (auto simp: sim_context_new_def sim_calls ok_def sim_os_defs PIN_DATA_SIZE_def split: option.split nv_auth.split)

lemma sim_platform_calm: "calm_platform sim_os"
  unfolding calm_platform_def
  by (intro conjI allI answersI sim_tss_calm) (auto simp: sim_key_calls ok_def split: option.split)

text \<open>The machine with \<open>pinutil\<close> built for release.\<close>

definition release_os :: "cell os" where
  "release_os = sim_os\<lparr>overflow_checks := False\<rparr>"

lemma release_platform_calm: "calm_platform release_os"
  using sim_platform_calm
  by (simp add: release_os_def calm_platform_def calm_tss_def del: sim_os_sel sim_os_keys sim_os_calls)

lemma release_os_calm: "calm_os release_os"
  unfolding calm_os_def
  by (intro conjI allI answersI release_platform_calm)
    (auto simp: release_os_def sim_read_line_def sim_write_out_def ok_def sim_parse_def sim_users_def sim_json_total split: option.splits)


section \<open>The PAM modules\<close>

definition sim_mk_pam :: "cell mk_pam" where
  "sim_mk_pam = pam.extend sim_pam (mk_pam.fields (\<lambda>t. Inr (Inr t)) (\<lambda>t w. ((SUCCESS, ()), w)))"

lemma sim_pam_calm: "calm_pam sim_pam" "calm_pam sim_mk_pam"
proof -
  have "calm sim_run" "calm (\<lambda>w. sim_run (sim_start args w))" for args
    by (rule answersI, simp add: sim_run_def split: prod.split)+
  then show "calm_pam sim_pam" "calm_pam sim_mk_pam"
    unfolding calm_pam_def sim_mk_pam_def
    by (auto simp: pam.defs sim_pam_def tss.defs ok_def sim_users_def answers_def)
qed

lemma pam_modules_always_answer_witness:
  "(\<exists>code w'. pam_sm_authenticate sim_pam 1 (Some [Some ''use_first_pass'']) cell_set = (Ok code, w')) \<and>
   (\<exists>w'. mk_pam_sm_authenticate sim_mk_pam cell_set = (Ok IGNORE, w'))"
  using pam_modules_always_answer [OF sim_pam_calm, of 1 "Some [Some ''use_first_pass'']" cell_set cell_set] .

end
