(* ===== verification/PamLog.thy ===== *)
theory PamLog imports Utf8 begin

text \<open>
  \<open>pinpam-core/src/pamlog.rs\<close>: how a PAM module sets up logging in the process that loaded it.  The
  state is that process's environment, the logger and level the crate \<open>log\<close> keeps for the module, and
  the module's two \<open>OnceLock\<close>s.  What the crates \<open>syslog\<close>, \<open>env_logger\<close> and \<open>log\<close> do is the
  record \<open>log_sys\<close>.
\<close>

section \<open>The process\<close>

datatype level_filter = LvOff | LvError | LvWarn | LvInfo | LvDebug | LvTrace

record formatter =
  facility :: string
  log_hostname :: "string option"
  log_process :: string
  log_pid :: u32

text \<open>An \<open>env_logger\<close> is what its builder was given: a level, and filters to parse.\<close>

datatype logger =
  SyslogLogger formatter
| EnvLogger level_filter "string option"

record log_state =
  environ :: "string \<Rightarrow> string option"
  the_logger :: "logger option"
  max_level :: level_filter
  logger_init :: bool
  suppress_logs :: bool

text \<open>\<open>syslog_unix\<close>: whether the syslog socket can be reached; \<open>env_level\<close>: the level the filters of an
  \<open>env_logger\<close> let through, which \<open>try_init\<close> makes the process's.\<close>

record log_sys =
  parse_level :: "string \<Rightarrow> level_filter option"
  env_level :: "level_filter \<Rightarrow> string option \<Rightarrow> level_filter"
  syslog_unix :: "formatter \<Rightarrow> bool"
  log_process_id :: u32

section \<open>Setting up\<close>

text \<open>\<open>log::set_boxed_logger\<close>: only the first logger of a process is taken.\<close>

definition set_boxed_logger :: "logger \<Rightarrow> log_state \<Rightarrow> bool \<times> log_state" where
  "set_boxed_logger l s =
     (if the_logger s = None then (True, s\<lparr>the_logger := Some l\<rparr>) else (False, s))"

definition try_init :: "log_sys \<Rightarrow> level_filter \<Rightarrow> string option \<Rightarrow> log_state \<Rightarrow> log_state" where
  "try_init L lv filters s =
     (case set_boxed_logger (EnvLogger lv filters) s of
        (installed, s') \<Rightarrow> if installed then s'\<lparr>max_level := env_level L lv filters\<rparr> else s')"

text \<open>\<open>env::var(k).ok()\<close>: a value that is not UTF-8 is no value.\<close>

definition env_var :: "log_state \<Rightarrow> string \<Rightarrow> string option" where
  "env_var s k = (case environ s k of Some v \<Rightarrow> if valid_utf8 v then Some v else None | None \<Rightarrow> None)"

definition syslog_level :: "log_sys \<Rightarrow> string option \<Rightarrow> level_filter" where
  "syslog_level L rust_log =
     (case rust_log of
        Some v \<Rightarrow>
          if CHR ''='' \<in> set v \<or> CHR '','' \<in> set v then LvTrace
          else (case parse_level L v of Some lv \<Rightarrow> lv | None \<Rightarrow> LvTrace)
      | None \<Rightarrow> LvInfo)"

definition install :: "log_sys \<Rightarrow> string \<Rightarrow> log_state \<Rightarrow> log_state" where
  "install L process_name s =
     (let rust_log = env_var s ''RUST_LOG'';
          formatter = \<lparr>facility = ''authpriv'', log_hostname = None, log_process = process_name,
            log_pid = log_process_id L\<rparr> in
      if \<not> syslog_unix L formatter then try_init L LvInfo rust_log s
      else
        (case set_boxed_logger (SyslogLogger formatter) s of
           (True, s') \<Rightarrow> s'\<lparr>max_level := syslog_level L rust_log\<rparr>
         | (False, s') \<Rightarrow> try_init L LvInfo rust_log s'))"

definition init_syslog_logger :: "log_sys \<Rightarrow> string \<Rightarrow> log_state \<Rightarrow> log_state" where
  "init_syslog_logger L process_name s =
     (if logger_init s then s else (install L process_name s)\<lparr>logger_init := True\<rparr>)"

definition suppress_tss_logs :: "log_state \<Rightarrow> log_state" where
  "suppress_tss_logs s =
     (if suppress_logs s then s
      else
        (if environ s ''RUST_LOG'' = None then s\<lparr>environ := (environ s)(''TSS2_LOG'' \<mapsto> ''all+NONE'')\<rparr>
         else s)\<lparr>suppress_logs := True\<rparr>)"

section \<open>Entry points\<close>

text \<open>What a module's entry points do to the logging state: most set up the logger, the authenticating
  one then silences the TSS library, and each can be called any number of times.\<close>

datatype log_call = Init string | Suppress

fun log_step :: "log_sys \<Rightarrow> log_call \<Rightarrow> log_state \<Rightarrow> log_state" where
  "log_step L (Init process_name) s = init_syslog_logger L process_name s"
| "log_step L Suppress s = suppress_tss_logs s"

definition authenticate_logs :: "string \<Rightarrow> log_call list" where
  "authenticate_logs process_name = [Init process_name, Suppress]"

lemma try_init_frame:
  "environ (try_init L lv f s) = environ s \<and> suppress_logs (try_init L lv f s) = suppress_logs s \<and>
     the_logger (try_init L lv f s) \<noteq> None \<and> (\<forall>x. the_logger s = Some x \<longrightarrow> try_init L lv f s = s)"
  by (simp add: try_init_def set_boxed_logger_def)

lemma install_frame:
  "environ (install L p s) = environ s \<and> suppress_logs (install L p s) = suppress_logs s \<and>
     the_logger (install L p s) \<noteq> None \<and> (\<forall>x. the_logger s = Some x \<longrightarrow> install L p s = s)"
proof -
  have *: "(case set_boxed_logger l s of (True, s') \<Rightarrow> s'\<lparr>max_level := lv\<rparr> | (False, s') \<Rightarrow> try_init L lv' f s') =
      (if the_logger s = None then s\<lparr>the_logger := Some l, max_level := lv\<rparr> else try_init L lv' f s)" for l lv lv' f
    by (simp add: set_boxed_logger_def)
  show ?thesis
    unfolding install_def Let_def * using try_init_frame by simp
qed

text \<open>What a sequence of calls keeps: the environment of the host process but \<open>TSS2_LOG\<close>, and a logger
  that was there, with its level.\<close>

definition log_inv :: "log_state \<Rightarrow> bool \<Rightarrow> log_state \<Rightarrow> bool" where
  "log_inv s0 silenced s \<longleftrightarrow>
     environ s = (if silenced \<and> environ s0 ''RUST_LOG'' = None \<and> \<not> suppress_logs s0
       then (environ s0)(''TSS2_LOG'' \<mapsto> ''all+NONE'') else environ s0) \<and>
     suppress_logs s = (suppress_logs s0 \<or> silenced) \<and>
     (the_logger s0 \<noteq> None \<longrightarrow> the_logger s = the_logger s0 \<and> max_level s = max_level s0)"

lemma log_step_inv:
  "log_inv s0 b s \<Longrightarrow> log_inv s0 (b \<or> c = Suppress) (log_step L c s)"
  using install_frame [of L _ s]
  by (cases c) (auto simp: log_inv_def init_syslog_logger_def suppress_tss_logs_def split: if_splits)

text \<open>C40: However often and in whatever order the entry points of a PAM module set up logging, the host
  process keeps its environment but for \<open>TSS2_LOG\<close>, which is set to silence the TSS library just when
  an entry point asked for it and no \<open>RUST_LOG\<close> was given; and a logger that was there is kept, with
  its level.\<close>
theorem logging_leaves_host:
  "let s = fold (log_step L) calls s0 in
   (\<forall>k. k \<noteq> ''TSS2_LOG'' \<longrightarrow> environ s k = environ s0 k) \<and>
   (\<not> suppress_logs s0 \<longrightarrow>
      environ s ''TSS2_LOG'' =
        (if Suppress \<in> set calls \<and> environ s0 ''RUST_LOG'' = None then Some ''all+NONE''
         else environ s0 ''TSS2_LOG'')) \<and>
   (the_logger s0 \<noteq> None \<longrightarrow> the_logger s = the_logger s0 \<and> max_level s = max_level s0)"
proof -
  have "log_inv s0 (b \<or> Suppress \<in> set calls) (fold (log_step L) calls s)" if "log_inv s0 b s" for s b
    using that
  proof (induction calls arbitrary: s b)
    case (Cons c cs)
    from Cons.IH [OF log_step_inv [OF Cons.prems], of c L] show ?case by (simp add: disj_assoc eq_commute [of c])
  qed simp
  from this [of False s0] have "log_inv s0 (Suppress \<in> set calls) (fold (log_step L) calls s0)"
    by (simp add: log_inv_def)
  then show ?thesis by (auto simp: log_inv_def Let_def)
qed

section \<open>At a concrete process\<close>

definition sample_sys :: log_sys where
  "sample_sys = \<lparr>parse_level = (\<lambda>s. if s = ''debug'' then Some LvDebug else None), env_level = (\<lambda>lv f. lv),
     syslog_unix = (\<lambda>f. True), log_process_id = 42\<rparr>"

definition sample_host :: log_state where
  "sample_host = \<lparr>environ = [''LANG'' \<mapsto> ''C''], the_logger = Some (EnvLogger LvWarn None), max_level = LvWarn,
     logger_init = False, suppress_logs = False\<rparr>"

lemma logging_leaves_host_witness:
  "let s = fold (log_step sample_sys) (authenticate_logs ''pinpam'') sample_host in
   environ s ''LANG'' = Some ''C'' \<and> environ s ''TSS2_LOG'' = Some ''all+NONE'' \<and> max_level s = LvWarn"
  using logging_leaves_host [of sample_sys "authenticate_logs ''pinpam''" sample_host]
  by (simp add: Let_def sample_host_def authenticate_logs_def)

end
