(* ===== verification/Spec2Isabelle.thy ===== *)
theory Spec2Isabelle imports OrderlyRuns PamLog begin

text \<open>
  \<^bold>\<open>pinpam\<close>: PIN authentication on a TPM 2.0, as a PAM module, a credential utility and an
  optional master key.

  \<^bold>\<open>The program.\<close>  A user's PIN is the authorisation value of a \<open>PinFail\<close> index in the TPM's
  NV memory, next to a version tag that says the PIN is kept with its leading zeros.  The TPM counts
  failed authorisations and refuses all of them once the limit is reached; the program's part is to
  define the index so that nobody can reset the counter, to authorise against it, to migrate PINs of
  older versions, and to let each process do to it only what its user may.  Four parts do this:

  \<^item> \<open>pinpam-core\<close>: constants, payload and errors, the index layout, the policy file, the
    \<open>PinManager\<close> and the master key.
  \<^item> \<open>pinutil\<close>: the set-uid command line, the only program that talks to the TPM in a deployment.
  \<^item> \<open>pinpam-pam\<close>: the PAM module; it runs \<open>pinutil -m status\<close> and \<open>pinutil -m test\<close> and reads the
    JSON they print.
  \<^item> \<open>pinpam-master-key-pam\<close>: runs \<open>pinutil -m master-key get-user-token\<close> and stores the token in
    \<open>PAM_AUTHTOK\<close>.

  \<^bold>\<open>How code becomes definitions.\<close>  A fallible Rust function is an \<open>eff\<close> (theory \<open>Prelude\<close>): a function
  from the state of the world to a result and the next state, where a result is \<open>Ok\<close>, \<open>Err\<close> or
  \<open>Panic\<close>.  \<open>andThen\<close> is the \<open>?\<close> operator, \<open>matchRes\<close> a \<open>match\<close> on a \<open>Result\<close>, \<open>mapErr\<close> is
  \<open>map_err\<close>, \<open>ignore\<close> is \<open>let _ =\<close>.  The world is a type variable; what the code calls outside
  \<open>src/\<close> is a field of a record of operations on it (\<open>tss\<close> in \<open>Tss\<close>, \<open>platform\<close> in
  \<open>MasterKey\<close>, \<open>os\<close> in \<open>Pinutil\<close>, \<open>pam\<close> in \<open>PamPin\<close>, \<open>mk_pam\<close> in \<open>MasterKeyPam\<close>).
  Integers keep their width, strings are UTF-8 byte strings, and every loop of the source runs over a
  list, so every definition is total and no fuel is used anywhere.

  \<^bold>\<open>The code, theory by theory.\<close>

  \<^item> \<open>PinData\<close>: \<open>pinconstants.rs\<close>, \<open>pindata.rs\<close>.  \<open>PinError\<close>: \<open>pinerror.rs\<close>.
    \<open>PinIndex\<close>: \<open>pinindex.rs\<close>.  \<open>Util\<close>: \<open>util.rs\<close>.
  \<^item> \<open>PinPolicy\<close>: \<open>pinpolicy.rs\<close>, \<open>tcti.rs\<close>, \<open>pin.rs\<close>.
  \<^item> \<open>PinManager\<close>: \<open>pinmanager.rs\<close>, one definition per method, and per step of \<open>define_pin_slot\<close>.
  \<^item> \<open>MasterKey\<close>: \<open>master_key.rs\<close>, one definition per function.
  \<^item> \<open>Pinutil\<close>: \<open>pinutil/src/main.rs\<close> and \<open>sandbox.rs\<close>, from the parsed command line to the exit code.
  \<^item> \<open>PamPin\<close>: \<open>pinpam-pam/src/lib.rs\<close>.  \<open>MasterKeyPam\<close>: \<open>pinpam-master-key-pam/src/lib.rs\<close>.
  \<^item> \<open>PamLog\<close>: \<open>pamlog.rs\<close>, the logger and environment both modules set up in their host.
  \<^item> \<open>RustStrings\<close> and \<open>Utf8\<close>: the parts of Rust's \<open>str\<close> the code uses.

  \<^bold>\<open>What is assumed.\<close>  The laws are predicates on the records of operations, stated in the theory
  that uses them; each says what a TPM, an operating system or a library does, never what the
  program does.

  \<^item> \<open>tss_sound\<close> (\<open>TpmLaws\<close>): a TPM that may fail at any call, with any error; it says what an NV
    read, write, definition and removal can have changed, and that the TPM authorises only a right
    value under a limit not reached.  \<open>tss_live\<close> adds that calls that can succeed do.
  \<^item> \<open>platform_quiet\<close> (\<open>PinutilSafety\<close>): the terminal and the master-key calls leave PIN indices alone.
  \<^item> \<open>stdio_law\<close>, \<open>helper_law\<close>, \<open>json_faithful\<close>, together \<open>deployed\<close> (\<open>PinutilTest\<close>,
    \<open>PamSafety\<close>): the PAM module's child process is a run of this development's \<open>pinutil_main\<close> on the
    same TPM, of whose output it may read any prefix, and JSON read back is what was printed.
    \<open>libpam_law\<close>: libpam names the user of the login and does not touch the TPM.
  \<^item> \<open>working\<close>, \<open>helper_live\<close>, \<open>libpam_live\<close> (\<open>PinutilLive\<close>, \<open>PamLive\<close>): the terminal, the helper's process, the
    decoder and libpam answer without errors; \<open>calm_os\<close>, \<open>calm_pam\<close> (\<open>NoPanic\<close>): calls may fail, but
    return.
  \<^item> \<open>vault_laws\<close> (\<open>MasterKeySafety\<close>): persistent TPM objects, files created exclusively, and codecs
    that undo each other.

  \<open>SimTpm\<close> and \<open>SimOs\<close> build a TPM and a machine that meet all of them, and \<open>Witnesses\<close>,
  \<open>Deployment\<close> and \<open>OrderlyRuns\<close> run the properties on them.

  \<^bold>\<open>What is proved.\<close>

  \<^item> Layout, codec and policy (\<open>PinIndex\<close>, \<open>PinData\<close>, \<open>PinPolicy\<close>): no two users' indices meet, the
    payload round-trips, and the policy in force was read from a root-owned, unwritable file or is the default.
  \<^item> The manager on a faulty TPM (\<open>ManagerSound\<close>, \<open>ManagerSteps\<close>, \<open>ManagerSafety\<close>, \<open>History\<close>): whatever
    calls fail, every reachable state is well-formed, other users are untouched, success means a right
    PIN under the limit, and a locked PIN stays locked until an administrator deletes it.
  \<^item> The guessing contract (\<open>AttemptGuard\<close>, a locale, extended by \<open>metered_guard\<close>): interpreted for the
    manager in \<open>Lockout\<close> and \<open>Metering\<close>, and for whole PAM logins in \<open>PamSafety\<close>.
  \<^item> The manager on a working TPM (\<open>ManagerLive\<close>, \<open>Account\<close>, \<open>Metering\<close>): each operation implements
    its step of an abstract account (\<open>spec_setup\<close>, \<open>spec_verify\<close>, \<open>spec_delete_auth\<close>,
    \<open>spec_delete_admin\<close>); set-up then verify, migration of legacy PINs, and exact attempt counting follow.
  \<^item> Effects (\<open>ManagerEffects\<close>, \<open>PinutilEffects\<close>): locales that carry any preorder on any observation
    of the world through every operation of the manager and every command of \<open>pinutil\<close>, guarded by the
    checks the command makes.  \<open>PinutilSafety\<close>, \<open>PinutilGuard\<close> and \<open>PinutilTest\<close> interpret them:
    isolation of users, lock-outs that survive, PINs that change only for who knows them.
  \<^item> The PAM modules (\<open>PamSafety\<close>, \<open>PamFlow\<close>, \<open>MasterKeyPam\<close>): a login succeeds only with a PIN
    that opens the slot, a wrong one costs at most the attempts offered, a locked account stays
    locked, the countdown never underflows, and the master-key module never answers the login.
  \<^item> Answers (\<open>PinutilLive\<close>, \<open>PamLive\<close>, \<open>NoPanic\<close>): on a working platform \<open>pinutil setup\<close>, \<open>change\<close> and
    \<open>delete\<close> end as they should, except that a refused deletion is reported as a success; the user who presents the stored PIN with attempts left is let in,
    from libpam's call through the helper's two runs to the TPM and back; \<open>pinutil\<close> built for release
    never panics, and both modules answer libpam whatever fails.
  \<^item> The modules' host (\<open>PamLog\<close>): setting up logging changes the logger and at most one variable.
  \<^item> The master key (\<open>MasterKeySafety\<close>): recovery restores every token, nothing is overwritten.

  \<^bold>\<open>Not modelled.\<close>  The log lines (no effect on any result), the zeroing of secrets
  in memory, \<open>lib.rs\<close> (module declarations), the tests, and the code of the libraries (\<open>clap\<close>,
  \<open>serde_json\<close>, \<open>landlock\<close>, \<open>tss-esapi\<close>, \<open>argon2\<close>, \<open>aes-gcm\<close>, libpam), which are parameters.
  Concurrency of two processes on one TPM is covered only as far as the TPM serialises whole calls:
  \<open>History\<close> interleaves whole operations of several users, not the calls inside them.
\<close>

end
